(* ===== verification/Ifc_Prelude.thy ===== *)
theory Ifc_Prelude
  imports Main "HOL-Library.Word"
begin

unbundle bit_operations_syntax

text \<open>
  The prelude of the development: the machine types of the platform (LP64, little endian, as
  OpenBSD/amd64), the byte encodings of 16 and 32 bit fields, wrap-around of \<open>size_t\<close>, and the
  generic lemmas on lists and words that the component theories share.
\<close>

section \<open>Machine types\<close>

type_synonym byte = "8 word"
type_synonym u16 = "16 word"
type_synonym u32 = "32 word"

named_theorems enc_simps \<open>lengths and inverses of the byte encodings\<close>

text \<open>\<open>size_t\<close> is a natural number below \<open>2 ^ 64\<close>; its addition wraps around.\<close>

definition szadd :: "nat \<Rightarrow> nat \<Rightarrow> nat" where
  "szadd a b = (a + b) mod 2 ^ 64"

lemma szadd_small: "a + b < 2 ^ 64 \<Longrightarrow> szadd a b = a + b"
  by (simp add: szadd_def)

text \<open>\<open>sizeof(char *)\<close> on the modelled platform.\<close>

definition ptrsize :: nat where
  "ptrsize = 8"

section \<open>Little endian fields\<close>

definition le16 :: "u16 \<Rightarrow> byte list" where
  "le16 w = [ucast w, ucast (drop_bit 8 w)]"

definition le32 :: "u32 \<Rightarrow> byte list" where
  "le32 w = [ucast w, ucast (drop_bit 8 w), ucast (drop_bit 16 w), ucast (drop_bit 24 w)]"

fun un_le16 :: "byte list \<Rightarrow> u16" where
  "un_le16 (a # b # _) = ucast a OR push_bit 8 (ucast b)"
| "un_le16 _ = 0"

fun un_le32 :: "byte list \<Rightarrow> u32" where
  "un_le32 (a # b # c # d # _) =
     ucast a OR push_bit 8 (ucast b) OR push_bit 16 (ucast c) OR push_bit 24 (ucast d)"
| "un_le32 _ = 0"

lemma length_le16 [simp, enc_simps]: "length (le16 w) = 2"
  by (simp add: le16_def)

lemma length_le32 [simp, enc_simps]: "length (le32 w) = 4"
  by (simp add: le32_def)

lemma un_le16_le16 [simp, enc_simps]: "un_le16 (le16 w @ r) = w"
  by (simp add: le16_def) (rule bit_word_eqI, auto simp: bit_simps)

lemma un_le32_le32 [simp, enc_simps]: "un_le32 (le32 w @ r) = w"
proof (rule bit_word_eqI)
  fix n
  assume "n < LENGTH(32)"
  then consider "n < 8" | "8 \<le> n" "n < 16" | "16 \<le> n" "n < 24" | "24 \<le> n" "n < 32"
    by fastforce
  then show "bit (un_le32 (le32 w @ r)) n = bit w n"
    by cases (auto simp: le32_def bit_simps)
qed

section \<open>Memory\<close>

text \<open>\<open>memcpy\<close> of \<open>d\<close> to the offset \<open>pos\<close> of an array.\<close>

definition memput :: "byte list \<Rightarrow> nat \<Rightarrow> byte list \<Rightarrow> byte list" where
  "memput m pos d = take pos m @ d @ drop (pos + length d) m"

lemma length_memput: "pos + length d \<le> length m \<Longrightarrow> length (memput m pos d) = length m"
  by (simp add: memput_def)

lemma take_memput: "pos \<le> length m \<Longrightarrow> take (pos + length d) (memput m pos d) = take pos m @ d"
  by (simp add: memput_def min_def)

section \<open>Lists with keys\<close>

text \<open>
  The contract of a list that is searched from the front for the first element with a key: the
  connection table of the control socket and the variables of the configuration file.
\<close>

locale keyed_list =
  fixes key :: "'v \<Rightarrow> 'k"
    and look :: "'k \<Rightarrow> 'v list \<Rightarrow> 'v option"
  assumes look_Nil: "look k [] = None"
    and look_Cons: "look k (x # xs) = (if key x = k then Some x else look k xs)"
begin

lemma look_SomeD: "look k xs = Some x \<Longrightarrow> x \<in> set xs \<and> key x = k"
  by (induction xs) (auto simp: look_Nil look_Cons split: if_splits)

lemma look_None_iff: "look k xs = None \<longleftrightarrow> k \<notin> key ` set xs"
  by (induction xs) (auto simp: look_Nil look_Cons)

lemma look_append: "look k (xs @ ys) = (case look k xs of None \<Rightarrow> look k ys | Some x \<Rightarrow> Some x)"
  by (induction xs) (auto simp: look_Nil look_Cons)

lemma look_remove1:
  assumes "distinct (map key xs)" "look k xs = Some x"
  shows "look k' (remove1 x xs) = (if k' = k then None else look k' xs)"
    and "map key (remove1 x xs) = remove1 k (map key xs)"
proof -
  show "look k' (remove1 x xs) = (if k' = k then None else look k' xs)"
    using assms
    by (induction xs) (auto simp: look_Nil look_Cons look_None_iff dest: look_SomeD split: if_splits)
  show "map key (remove1 x xs) = remove1 k (map key xs)"
    using assms by (induction xs) (auto simp: look_Nil look_Cons dest: look_SomeD split: if_splits)
qed

end

end
