(* ===== verification/Ioctl.thy ===== *)
theory Ioctl
  imports Ifc_Prelude
begin

text \<open>
  The requests the daemon makes of the network stack: the \<open>ioctl\<close> commands it issues and the
  members of the argument structures it reads or writes, with the field names of the kernel
  headers (\<open>net/if.h\<close>, \<open>net80211/ieee80211_ioctl.h\<close> and the headers of the pseudo devices).
  An argument that is a \<open>struct ifreq\<close> is represented by its name and the union member the
  command uses.
\<close>

section \<open>Structures\<close>

record ieee80211_wpaparams =
  wpa_enabled :: int
  wpa_protos :: u32
  wpa_akms :: u32
  wpa_ciphers :: u32
  wpa_groupcipher :: u32

record ieee80211_nwkey =
  i_wepon :: int
  i_defkid :: int
  i_key :: "(int \<times> byte list) list"

record ieee80211_nodereq =
  nr_bssid :: "byte list"
  nr_nwid_len :: byte
  nr_nwid :: "byte list"
  nr_channel :: u16
  nr_rssi :: byte
  nr_flags :: byte

record vlanreq =
  vlr_parent :: string
  vlr_tag :: u16

record carpreq =
  carpr_state :: int
  carpr_carpdev :: string
  carpr_vhids :: "byte list"
  carpr_advskews :: "byte list"
  carpr_balancing :: byte
  carpr_advbase :: int
  carpr_key :: string
  carpr_peer :: u32

record pfsyncreq =
  pfsyncr_syncdev :: string
  pfsyncr_syncpeer :: u32
  pfsyncr_maxupdates :: int
  pfsyncr_defer :: int

record pflowreq =
  sender_ip :: u32
  receiver_ip :: u32
  receiver_port :: u16
  addrmask :: u16

record pppoediscparms =
  eth_ifname :: string
  ac_name :: string
  service_name :: string

datatype sauth_cmd = SPPPIOGMAUTH | SPPPIOSMAUTH | SPPPIOGHAUTH | SPPPIOSHAUTH

record sauthreq =
  sa_cmd :: sauth_cmd
  sa_proto :: u16
  sa_flags :: u16
  sa_name :: string
  sa_secret :: string

text \<open>
  The requests of the bridge (\<open>net/if_bridge.h\<close>): an entry of its address table and a filter rule.
  An address of a rule that was not given is not set.
\<close>

record ifbareq =
  ifba_ifsname :: string
  ifba_age :: byte
  ifba_flags :: byte
  ifba_dst :: "byte list"

record ifbrlreq =
  rl_ifsname :: string
  rl_action :: byte
  rl_flags :: byte
  rl_src :: "byte list option"
  rl_dst :: "byte list option"
  rl_tagname :: string

text \<open>A member of a bridge and the operational parameters of a bridge, as far as they are displayed.\<close>

record ifbreq =
  br_ifsname :: string
  br_ifsflags :: u32
  br_portno :: byte
  br_state :: byte
  br_priority :: byte
  br_path_cost :: u32
  br_role :: byte

record ifbropreq =
  op_holdcount :: byte
  op_maxage :: byte
  op_hellotime :: byte
  op_fwddelay :: byte
  op_protocol :: byte
  op_priority :: u16
  op_root_bridge :: "64 word"
  op_root_port :: u16
  op_root_path_cost :: u32
  op_desg_bridge :: "64 word"

section \<open>Commands and arguments\<close>

datatype (plugins only: code size) iocmd =
    SIOCGIFFLAGS | SIOCSIFFLAGS | SIOCGIFXFLAGS | SIOCSIFXFLAGS | SIOCGIFMETRIC | SIOCSIFMETRIC
  | SIOCGIFMTU | SIOCSIFMTU | SIOCGIFRDOMAIN | SIOCSIFRDOMAIN | SIOCSIFPRIORITY
  | SIOCIFCREATE | SIOCIFDESTROY | SIOCSIFRTLABEL | SIOCSIFDESCR | SIOCAIFGROUP | SIOCDIFGROUP
  | SIOCSIFLLADDR | SIOCDIFADDR | SIOCAIFADDR
  | SIOCGIFMEDIA | SIOCSIFMEDIA | SIOCSIFTIMESLOT | SIOCGIFTIMESLOT
  | SIOCS80211NWID | SIOCG80211NWID | SIOCS80211BSSID | SIOCS80211NWKEY
  | SIOCG80211WPAPARMS | SIOCS80211WPAPARMS | SIOCS80211WPAPSK | SIOCS80211CHANNEL
  | SIOCS80211TXPOWER | SIOCG80211FLAGS | SIOCS80211FLAGS | SIOCG80211POWER | SIOCS80211POWER
  | SIOCS80211SCAN | SIOCG80211ALLNODES
  | SIOCSLIFPHYADDR | SIOCDIFPHYADDR | SIOCSLIFPHYRTABLE | SIOCSETLABEL
  | SIOCGETVLAN | SIOCSETVLAN | SIOCGETVLANPRIO | SIOCSETVLANPRIO
  | SIOCGVH | SIOCSVH | SIOCGETPFSYNC | SIOCSETPFSYNC | SIOCSETPFLOW
  | PPPOEGETPARMS | PPPOESETPARMS | SIOCGIFGENERIC | SIOCSIFGENERIC
  | SIOCSTRUNKPORT | SIOCSTRUNKDELPORT | SIOCSTRUNK | SIOCSETKALIVE
  | SIOCBRDGRTS | SIOCBRDGGIFFLGS | SIOCBRDGSIFFLGS | SIOCBRDGFLUSH | SIOCBRDGADD | SIOCBRDGDEL
  | SIOCBRDGADDS | SIOCBRDGDELS | SIOCBRDGSTO | SIOCBRDGSMA | SIOCBRDGSPRI | SIOCBRDGSPROTO
  | SIOCBRDGSFD | SIOCBRDGSHT | SIOCBRDGSCACHE | SIOCBRDGSTXHC | SIOCBRDGDADDR | SIOCBRDGSADDR
  | SIOCBRDGSIFPRIO | SIOCBRDGSIFCOST | SIOCBRDGARL | SIOCBRDGFRL | SIOCBRDGGRL
  | SIOCBRDGIFS | SIOCBRDGGPARAM | SIOCBRDGGCACHE | SIOCBRDGGTO

datatype (plugins only: code size) ioarg =
    IoNone
  | IoInt int
  | IoFlags u16
  | IoStr string
  | IoBytes "byte list"
  | IoNwid byte "byte list"
  | IoNwkey ieee80211_nwkey
  | IoWpa ieee80211_wpaparams
  | IoPsk int "byte list"
  | IoTxpower int "int option"
  | IoPower int int
  | IoNodes "ieee80211_nodereq list"
  | IoVlan vlanreq
  | IoCarp carpreq
  | IoPfsync pfsyncreq
  | IoPflow pflowreq
  | IoPppoe pppoediscparms
  | IoSauth sauthreq
  | IoTunnel "byte list" "byte list"
  | IoKalive int int
  | IoAddr u32
  | IoAlias u32 u32 u32
  | IoMap "64 word"
  | IoAt u16 byte
  | IoMember string
  | IoMemberFlags string u32
  | IoMemberPrio string byte
  | IoMemberCost string u32
  | IoFlush u32
  | IoParam int
  | IoLladdr "byte list"
  | IoStatic string "byte list" byte
  | IoTable int
  | IoRoutes "ifbareq list"
  | IoRuleTable string int
  | IoRules "ifbrlreq list"
  | IoRule ifbrlreq
  | IoMembers "ifbreq list"
  | IoOper ifbropreq

text \<open>
  The member a caller reads after a successful call. A kernel answers a command with the
  structure of the command; for any other answer the caller sees a zeroed structure.
\<close>

fun io_int :: "ioarg \<Rightarrow> int" where
  "io_int (IoInt i) = i"
| "io_int _ = 0"

fun io_flags :: "ioarg \<Rightarrow> u16" where
  "io_flags (IoFlags f) = f"
| "io_flags _ = 0"

definition wpa_zero :: ieee80211_wpaparams where
  "wpa_zero = \<lparr>wpa_enabled = 0, wpa_protos = 0, wpa_akms = 0, wpa_ciphers = 0, wpa_groupcipher = 0\<rparr>"

fun io_wpa :: "ioarg \<Rightarrow> ieee80211_wpaparams" where
  "io_wpa (IoWpa p) = p"
| "io_wpa _ = wpa_zero"

fun io_nwid :: "ioarg \<Rightarrow> byte \<times> byte list" where
  "io_nwid (IoNwid n b) = (n, b)"
| "io_nwid _ = (0, [])"

fun io_power :: "ioarg \<Rightarrow> int \<times> int" where
  "io_power (IoPower e m) = (e, m)"
| "io_power _ = (0, 0)"

fun io_nodes :: "ioarg \<Rightarrow> ieee80211_nodereq list" where
  "io_nodes (IoNodes ns) = ns"
| "io_nodes _ = []"

fun io_vlan :: "ioarg \<Rightarrow> vlanreq" where
  "io_vlan (IoVlan v) = v"
| "io_vlan _ = \<lparr>vlr_parent = [], vlr_tag = 0\<rparr>"

definition CARP_MAXNODES :: nat where "CARP_MAXNODES = 32"

definition carp_zero :: carpreq where
  "carp_zero = \<lparr>carpr_state = 0, carpr_carpdev = [], carpr_vhids = replicate CARP_MAXNODES 0,
     carpr_advskews = replicate CARP_MAXNODES 0, carpr_balancing = 0, carpr_advbase = 0,
     carpr_key = [], carpr_peer = 0\<rparr>"

fun io_carp :: "ioarg \<Rightarrow> carpreq" where
  "io_carp (IoCarp c) = c"
| "io_carp _ = carp_zero"

fun io_pfsync :: "ioarg \<Rightarrow> pfsyncreq" where
  "io_pfsync (IoPfsync p) = p"
| "io_pfsync _ = \<lparr>pfsyncr_syncdev = [], pfsyncr_syncpeer = 0, pfsyncr_maxupdates = 0, pfsyncr_defer = 0\<rparr>"

fun io_pppoe :: "ioarg \<Rightarrow> pppoediscparms" where
  "io_pppoe (IoPppoe p) = p"
| "io_pppoe _ = \<lparr>eth_ifname = [], ac_name = [], service_name = []\<rparr>"

fun io_sauth :: "ioarg \<Rightarrow> sauthreq" where
  "io_sauth (IoSauth a) = a"
| "io_sauth _ = \<lparr>sa_cmd = SPPPIOGMAUTH, sa_proto = 0, sa_flags = 0, sa_name = [], sa_secret = []\<rparr>"

fun io_member_flags :: "ioarg \<Rightarrow> u32" where
  "io_member_flags (IoMemberFlags n f) = f"
| "io_member_flags _ = 0"

fun io_routes :: "ioarg \<Rightarrow> ifbareq list" where
  "io_routes (IoRoutes rs) = rs"
| "io_routes _ = []"

fun io_rules :: "ioarg \<Rightarrow> ifbrlreq list" where
  "io_rules (IoRules rs) = rs"
| "io_rules _ = []"

fun io_map :: "ioarg \<Rightarrow> 64 word" where
  "io_map (IoMap m) = m"
| "io_map _ = 0"

fun io_members :: "ioarg \<Rightarrow> ifbreq list" where
  "io_members (IoMembers ms) = ms"
| "io_members _ = []"

fun io_oper :: "ioarg \<Rightarrow> ifbropreq" where
  "io_oper (IoOper p) = p"
| "io_oper _ = \<lparr>op_holdcount = 0, op_maxage = 0, op_hellotime = 0, op_fwddelay = 0, op_protocol = 0, op_priority = 0,
     op_root_bridge = 0, op_root_port = 0, op_root_path_cost = 0, op_desg_bridge = 0\<rparr>"

fun io_param :: "ioarg \<Rightarrow> int" where
  "io_param (IoParam n) = n"
| "io_param _ = 0"

end
