(* ===== verification/Sys_World.thy ===== *)
theory Sys_World
  imports Ioctl
begin

text \<open>
  The environment of the modelled processes. A process owns a \<open>world\<close>: the system calls it has
  issued so far (most recent first), its \<open>errno\<close> and the \<open>debug\<close> level of its logger. The
  operating system is a parameter of every definition that calls it, a \<open>kernel\<close>: one function
  for each shape of reply, applied to the calls issued before. Nothing is assumed of it beyond
  what the primitives below write out (\<open>recvmsg\<close> delivers at most the bytes asked for,
  \<open>sendmsg\<close> accepts at most the bytes offered).
\<close>

section \<open>Calls, replies and the process state\<close>

datatype (plugins only: code size) errno =
    E0 | EAGAIN | EINTR | ENOBUFS | ENOMEM | ERANGE | EINVAL | ENOENT | ECHILD | EPERM
  | EADDRNOTAVAIL | EEXIST | E2BIG | ENETDOWN | Eother nat

datatype (plugins only: code size) event =
    EvMalloc nat
  | EvRecvmsg int nat
  | EvSendmsg int "byte list" "int option"
  | EvWritev int "byte list"
  | EvClose int
  | EvSocket
  | EvBind int string
  | EvConnect int string
  | EvUnlink string
  | EvUmask nat
  | EvChmod string nat
  | EvListen int nat
  | EvAccept int
  | EvFcntlGet int
  | EvFcntlSet int int
  | EvEventAdd int nat
  | EvEventDel int
  | EvLoopexit
  | EvEventInit
  | EvSignalAdd nat
  | EvFork
  | EvGetpwnam string
  | EvGetuid
  | EvGeteuid
  | EvChroot string
  | EvChdir string
  | EvSetproctitle string
  | EvSetgroups nat
  | EvSetresgid nat
  | EvSetresuid nat
  | EvDaemon
  | EvSocketpair
  | EvWaitpid int
  | EvWait
  | EvKill int nat
  | EvExec "string list"
  | EvSleep int
  | EvStderr string
  | EvOpenlog
  | EvTzset
  | EvSyslog nat string
  | EvStdout string
  | EvDgram int
  | EvIoctl int iocmd string ioarg
  | EvGetifaddrs
  | EvReadFile string
  | EvFstat string
  | EvFclose string

record world =
  trace :: "event list"
  errno :: errno
  debug :: int

text \<open>
  A control message carries its level and type (here: whether they are \<open>SOL_SOCKET\<close> and
  \<open>SCM_RIGHTS\<close>) and one or more descriptors.
\<close>

record cmsg =
  cm_rights :: bool
  cm_fd :: int
  cm_more :: "int list"

text \<open>An entry of the interface list: name, address family, link type and link state.\<close>

record ifaddrs =
  ifa_name :: string
  ifa_family :: int
  ifa_type :: int
  ifa_link_state :: int

text \<open>What \<open>waitpid\<close> says of a child.\<close>

datatype wait_status = WExited int | WSignaled int | WStopped int

record kernel =
  k_mem :: "event list \<Rightarrow> bool"
  k_junk :: "event list \<Rightarrow> nat \<Rightarrow> byte"
  k_recv :: "event list \<Rightarrow> errno + (byte list \<times> cmsg list)"
  k_send :: "event list \<Rightarrow> errno + nat"
  k_ok :: "event list \<Rightarrow> errno option"
  k_int :: "event list \<Rightarrow> errno + nat"
  k_strerror :: "errno \<Rightarrow> string"
  k_getpid :: int
  k_pw :: "event list \<Rightarrow> (string \<times> nat \<times> nat) option"
  k_ioctl :: "event list \<Rightarrow> errno + ioarg"
  k_ifaddrs :: "event list \<Rightarrow> errno + ifaddrs list"
  k_pair :: "event list \<Rightarrow> errno + (nat \<times> nat)"
  k_wstatus :: "event list \<Rightarrow> wait_status"
  k_file :: "event list \<Rightarrow> errno + string"
  k_stat :: "event list \<Rightarrow> errno + (nat \<times> nat)"

section \<open>Primitives\<close>

definition emit :: "event \<Rightarrow> world \<Rightarrow> world" where
  "emit e w = w\<lparr>trace := e # trace w\<rparr>"

definition set_errno :: "errno \<Rightarrow> world \<Rightarrow> world" where
  "set_errno e w = w\<lparr>errno := e\<rparr>"

text \<open>A call that succeeds or fails, and one that returns a non-negative number or fails.\<close>

definition sys_ok :: "kernel \<Rightarrow> event \<Rightarrow> world \<Rightarrow> bool \<times> world" where
  "sys_ok K e w = (let w' = emit e w in
     case k_ok K (trace w') of None \<Rightarrow> (True, w') | Some x \<Rightarrow> (False, set_errno x w'))"

definition sys_int :: "kernel \<Rightarrow> event \<Rightarrow> world \<Rightarrow> int \<times> world" where
  "sys_int K e w = (let w' = emit e w in
     case k_int K (trace w') of Inr n \<Rightarrow> (int n, w') | Inl x \<Rightarrow> (- 1, set_errno x w'))"

text \<open>
  \<open>malloc\<close>: the contents of fresh memory are whatever the allocator left there; \<open>calloc\<close> is
  \<open>alloc\<close> with the contents fixed by its caller.
\<close>

definition alloc :: "kernel \<Rightarrow> nat \<Rightarrow> world \<Rightarrow> bool \<times> world" where
  "alloc K n w = (let w' = emit (EvMalloc n) w in
     if k_mem K (trace w') then (True, w') else (False, set_errno ENOMEM w'))"

definition junk :: "kernel \<Rightarrow> nat \<Rightarrow> world \<Rightarrow> byte list" where
  "junk K n w = map (k_junk K (trace w)) [0..<n]"

definition malloc :: "kernel \<Rightarrow> nat \<Rightarrow> world \<Rightarrow> byte list option \<times> world" where
  "malloc K n w = (case alloc K n w of (ok, w') \<Rightarrow>
     (if ok then Some (junk K n w') else None, w'))"

text \<open>\<open>getpwnam\<close>: home directory, user and group of a user, if there is one.\<close>

definition getpwnam :: "kernel \<Rightarrow> string \<Rightarrow> world \<Rightarrow> (string \<times> nat \<times> nat) option \<times> world" where
  "getpwnam K name w = (let w' = emit (EvGetpwnam name) w in (k_pw K (trace w'), w'))"

definition close_fd :: "int \<Rightarrow> world \<Rightarrow> world" where
  "close_fd fd w = emit (EvClose fd) w"

definition recvmsg ::
  "kernel \<Rightarrow> int \<Rightarrow> nat \<Rightarrow> world \<Rightarrow> (byte list \<times> cmsg list) option \<times> world" where
  "recvmsg K fd len w = (let w' = emit (EvRecvmsg fd len) w in
     case k_recv K (trace w') of
       Inl e \<Rightarrow> (None, set_errno e w')
     | Inr (bs, cs) \<Rightarrow> (Some (take len bs, cs), w'))"

definition sendmsg ::
  "kernel \<Rightarrow> int \<Rightarrow> byte list \<Rightarrow> int option \<Rightarrow> world \<Rightarrow> nat option \<times> world" where
  "sendmsg K fd bs cfd w = (let w' = emit (EvSendmsg fd bs cfd) w in
     case k_send K (trace w') of
       Inl e \<Rightarrow> (None, set_errno e w')
     | Inr n \<Rightarrow> (Some (min n (length bs)), w'))"

definition writev :: "kernel \<Rightarrow> int \<Rightarrow> byte list \<Rightarrow> world \<Rightarrow> nat option \<times> world" where
  "writev K fd bs w = (let w' = emit (EvWritev fd bs) w in
     case k_send K (trace w') of
       Inl e \<Rightarrow> (None, set_errno e w')
     | Inr n \<Rightarrow> (Some (min n (length bs)), w'))"

text \<open>\<open>ioctl\<close> and \<open>getifaddrs\<close>.\<close>

definition ioctl :: "kernel \<Rightarrow> int \<Rightarrow> iocmd \<Rightarrow> string \<Rightarrow> ioarg \<Rightarrow> world \<Rightarrow> ioarg option \<times> world" where
  "ioctl K fd c name arg w = (let w' = emit (EvIoctl fd c name arg) w in
     case k_ioctl K (trace w') of
       Inl e \<Rightarrow> (None, set_errno e w')
     | Inr r \<Rightarrow> (Some r, w'))"

definition getifaddrs :: "kernel \<Rightarrow> world \<Rightarrow> ifaddrs list option \<times> world" where
  "getifaddrs K w = (let w' = emit EvGetifaddrs w in
     case k_ifaddrs K (trace w') of
       Inl e \<Rightarrow> (None, set_errno e w')
     | Inr r \<Rightarrow> (Some r, w'))"

text \<open>
  \<open>fopen\<close> for reading: the contents of the file, which are taken to stay as they are while it is
  open. \<open>fstat\<close>: the owner and the mode.
\<close>

definition fopen :: "kernel \<Rightarrow> string \<Rightarrow> world \<Rightarrow> string option \<times> world" where
  "fopen K name w = (let w' = emit (EvReadFile name) w in
     case k_file K (trace w') of
       Inl e \<Rightarrow> (None, set_errno e w')
     | Inr s \<Rightarrow> (Some s, w'))"

definition fstat :: "kernel \<Rightarrow> string \<Rightarrow> world \<Rightarrow> (nat \<times> nat) option \<times> world" where
  "fstat K name w = (let w' = emit (EvFstat name) w in
     case k_stat K (trace w') of
       Inl e \<Rightarrow> (None, set_errno e w')
     | Inr r \<Rightarrow> (Some r, w'))"

section \<open>Outcomes\<close>

text \<open>
  A C function that may terminate the process returns an \<open>outcome\<close>: it returns a value, it
  exits with a status, or its behaviour is undefined (a wild pointer is read, say).
\<close>

datatype 'a outcome = Ok 'a world | Exit int world | Undef string world

fun andthen :: "'a outcome \<Rightarrow> ('a \<Rightarrow> world \<Rightarrow> 'b outcome) \<Rightarrow> 'b outcome" where
  "andthen (Ok a w) f = f a w"
| "andthen (Exit c w) f = Exit c w"
| "andthen (Undef s w) f = Undef s w"

fun final_world :: "'a outcome \<Rightarrow> world" where
  "final_world (Ok a w) = w"
| "final_world (Exit c w) = w"
| "final_world (Undef s w) = w"

lemma andthen_assoc: "andthen (andthen m f) g = andthen m (\<lambda>a w. andthen (f a w) g)"
  by (cases m) auto

lemma andthen_Ok_iff:
  "andthen m f = Ok b w \<longleftrightarrow> (\<exists>a w'. m = Ok a w' \<and> f a w' = Ok b w)"
  by (cases m) auto

section \<open>What a call adds to the trace\<close>

named_theorems world_simps \<open>effect of the primitives on the fields of the world\<close>

lemma emit_fields [simp, world_simps]:
  "trace (emit e w) = e # trace w" "errno (emit e w) = errno w" "debug (emit e w) = debug w"
  by (simp_all add: emit_def)

lemma set_errno_fields [simp, world_simps]:
  "trace (set_errno e w) = trace w" "errno (set_errno e w) = e" "debug (set_errno e w) = debug w"
  by (simp_all add: set_errno_def)

lemma close_fd_fields [simp, world_simps]:
  "trace (close_fd fd w) = EvClose fd # trace w" "errno (close_fd fd w) = errno w"
  "debug (close_fd fd w) = debug w"
  by (simp_all add: close_fd_def)

lemma sys_ok_trace [world_simps]:
  "trace (snd (sys_ok K e w)) = e # trace w" "debug (snd (sys_ok K e w)) = debug w"
  by (simp_all add: sys_ok_def Let_def split: option.split)

lemma sys_int_trace [world_simps]:
  "trace (snd (sys_int K e w)) = e # trace w" "debug (snd (sys_int K e w)) = debug w"
  by (simp_all add: sys_int_def Let_def split: sum.split)

lemma sys_int_range: "fst (sys_int K e w) \<ge> - 1"
  by (simp add: sys_int_def Let_def split: sum.split)

lemma getpwnam_trace [world_simps]: "trace (snd (getpwnam K n w)) = EvGetpwnam n # trace w"
  by (simp add: getpwnam_def Let_def)

lemma length_junk [simp]: "length (junk K n w) = n"
  by (simp add: junk_def)

lemma malloc_SomeD: "malloc K n w = (Some bs, w') \<Longrightarrow> length bs = n"
  by (auto simp: malloc_def split: prod.splits if_splits)

lemma alloc_trace [world_simps]:
  "trace (snd (alloc K n w)) = EvMalloc n # trace w" "debug (snd (alloc K n w)) = debug w"
  by (simp_all add: alloc_def Let_def)

lemma malloc_trace [world_simps]:
  "trace (snd (malloc K n w)) = EvMalloc n # trace w" "debug (snd (malloc K n w)) = debug w"
  by (simp_all add: malloc_def alloc_trace split: prod.split)
     (use alloc_trace[of K n w] in \<open>auto\<close>)

lemma recvmsg_trace [world_simps]:
  "trace (snd (recvmsg K fd n w)) = EvRecvmsg fd n # trace w"
  "debug (snd (recvmsg K fd n w)) = debug w"
  by (simp_all add: recvmsg_def Let_def split: sum.split prod.split)

lemma recvmsg_bound: "recvmsg K fd n w = (Some (bs, cs), w') \<Longrightarrow> length bs \<le> n"
  by (auto simp: recvmsg_def Let_def split: sum.splits prod.splits)

lemma sendmsg_trace [world_simps]:
  "trace (snd (sendmsg K fd bs c w)) = EvSendmsg fd bs c # trace w"
  "debug (snd (sendmsg K fd bs c w)) = debug w"
  by (simp_all add: sendmsg_def Let_def split: sum.split)

lemma sendmsg_bound: "sendmsg K fd bs c w = (Some n, w') \<Longrightarrow> n \<le> length bs"
  by (auto simp: sendmsg_def Let_def split: sum.splits)

lemma writev_trace [world_simps]:
  "trace (snd (writev K fd bs w)) = EvWritev fd bs # trace w"
  "debug (snd (writev K fd bs w)) = debug w"
  by (simp_all add: writev_def Let_def split: sum.split)

lemma ioctl_trace [world_simps]:
  "trace (snd (ioctl K fd c n a w)) = EvIoctl fd c n a # trace w"
  "debug (snd (ioctl K fd c n a w)) = debug w"
  by (simp_all add: ioctl_def Let_def split: sum.split)

lemma ioctl_cases: "ioctl K fd c n a w = (r, w') \<Longrightarrow> trace w' = EvIoctl fd c n a # trace w"
  using ioctl_trace(1)[of K fd c n a w] by simp

lemma writev_bound: "writev K fd bs w = (Some n, w') \<Longrightarrow> n \<le> length bs"
  by (auto simp: writev_def Let_def split: sum.splits)

section \<open>A sample system\<close>

text \<open>
  A kernel for the concrete runs of the development: memory is never short, every call succeeds,
  descriptors and identifiers are 3, \<open>sendmsg\<close> accepts what it is offered, interfaces have the
  flags \<open>UP|BROADCAST|RUNNING|SIMPLEX|MULTICAST\<close>.
\<close>

definition sample_kernel :: kernel where
  "sample_kernel = \<lparr>k_mem = (\<lambda>_. True), k_junk = (\<lambda>_ _. 0), k_recv = (\<lambda>_. Inr ([], [])),
     k_send = (\<lambda>t. case t of EvSendmsg _ bs _ # _ \<Rightarrow> Inr (length bs) | EvWritev _ bs # _ \<Rightarrow> Inr (length bs) | _ \<Rightarrow> Inr 0),
     k_ok = (\<lambda>_. None), k_int = (\<lambda>_. Inr 3), k_strerror = (\<lambda>_. ''error''), k_getpid = 77,
     k_pw = (\<lambda>_. Some (''/var/empty'', 99, 99)), k_ioctl = (\<lambda>_. Inr (IoFlags 0x8843)),
     k_ifaddrs = (\<lambda>_. Inr []), k_pair = (\<lambda>_. Inr (4, 5)), k_wstatus = (\<lambda>_. WExited 0),
     k_file = (\<lambda>_. Inr []), k_stat = (\<lambda>_. Inr (0, 0x8180))\<rparr>"

definition sample_world :: world where
  "sample_world = \<lparr>trace = [], errno = E0, debug = 1\<rparr>"

end
