(* ===== verification/Imsg_Buffer.thy ===== *)
theory Imsg_Buffer
  imports Sys_World
begin

text \<open>
  The output side of the imsg library (\<open>lib/libutil/imsg-buffer.c\<close>): growable byte buffers
  (\<open>struct ibuf\<close>) and the queue of buffers waiting to be written (\<open>struct msgbuf\<close>). A buffer is
  modelled with its whole allocation; the queue keeps the \<open>TAILQ\<close> order as a list. The lemmas
  show that no operation writes outside an allocation, that \<open>queued\<close> counts the buffers, and
  that the queue is a FIFO of bytes whatever part of it a write accepts.
\<close>

section \<open>Data\<close>

record ibuf =
  ib_buf :: "byte list"
  ib_size :: nat
  ib_max :: nat
  ib_wpos :: nat
  ib_rpos :: nat
  ib_fd :: int

record msgbuf =
  mb_bufs :: "ibuf list"
  mb_queued :: u32
  mb_fd :: int

definition sizeof_ibuf :: nat where
  "sizeof_ibuf = 64"

definition IOV_MAX :: nat where
  "IOV_MAX = 1024"

section \<open>Buffers\<close>

definition ibuf_open :: "kernel \<Rightarrow> nat \<Rightarrow> world \<Rightarrow> ibuf option \<times> world" where
  "ibuf_open K len w =
     (case alloc K sizeof_ibuf w of
        (False, w1) \<Rightarrow> (None, w1)
      | (True, w1) \<Rightarrow>
          (case malloc K len w1 of
             (None, w2) \<Rightarrow> (None, w2)
           | (Some b, w2) \<Rightarrow>
               (Some \<lparr>ib_buf = b, ib_size = len, ib_max = len, ib_wpos = 0, ib_rpos = 0,
                      ib_fd = - 1\<rparr>, w2)))"

definition ibuf_dynamic :: "kernel \<Rightarrow> nat \<Rightarrow> nat \<Rightarrow> world \<Rightarrow> ibuf option \<times> world" where
  "ibuf_dynamic K len mx w =
     (if mx < len then (None, w)
      else case ibuf_open K len w of
        (None, w1) \<Rightarrow> (None, w1)
      | (Some b, w1) \<Rightarrow> (Some (if mx > 0 then b\<lparr>ib_max := mx\<rparr> else b), w1))"

text \<open>\<open>realloc\<close> keeps the old contents; what it adds is uninitialised.\<close>

definition ibuf_realloc :: "kernel \<Rightarrow> ibuf \<Rightarrow> nat \<Rightarrow> world \<Rightarrow> int \<times> ibuf \<times> world" where
  "ibuf_realloc K b len w =
     (if szadd (ib_wpos b) len > ib_max b then (- 1, b, set_errno ENOMEM w)
      else case malloc K (szadd (ib_wpos b) len) w of
        (None, w1) \<Rightarrow> (- 1, b, w1)
      | (Some j, w1) \<Rightarrow>
          (0, b\<lparr>ib_buf := take (szadd (ib_wpos b) len) (ib_buf b) @ drop (length (ib_buf b)) j,
                ib_size := szadd (ib_wpos b) len\<rparr>, w1))"

definition ibuf_add :: "kernel \<Rightarrow> ibuf \<Rightarrow> byte list \<Rightarrow> world \<Rightarrow> int \<times> ibuf \<times> world" where
  "ibuf_add K b d w =
     (case (if szadd (ib_wpos b) (length d) > ib_size b then ibuf_realloc K b (length d) w
            else (0, b, w)) of
        (r, b1, w1) \<Rightarrow>
          if r = - 1 then (- 1, b1, w1)
          else (0, b1\<lparr>ib_buf := memput (ib_buf b1) (ib_wpos b1) d,
                      ib_wpos := szadd (ib_wpos b1) (length d)\<rparr>, w1))"

text \<open>\<open>ibuf_reserve\<close> and \<open>ibuf_seek\<close> return a pointer into the buffer, here its offset.\<close>

definition ibuf_reserve :: "kernel \<Rightarrow> ibuf \<Rightarrow> nat \<Rightarrow> world \<Rightarrow> nat option \<times> ibuf \<times> world" where
  "ibuf_reserve K b len w =
     (case (if szadd (ib_wpos b) len > ib_size b then ibuf_realloc K b len w else (0, b, w)) of
        (r, b1, w1) \<Rightarrow>
          if r = - 1 then (None, b1, w1)
          else (Some (ib_wpos b1), b1\<lparr>ib_wpos := szadd (ib_wpos b1) len\<rparr>, w1))"

definition ibuf_seek :: "ibuf \<Rightarrow> nat \<Rightarrow> nat \<Rightarrow> nat option" where
  "ibuf_seek b pos len = (if szadd pos len > ib_wpos b then None else Some pos)"

definition ibuf_size :: "ibuf \<Rightarrow> nat" where
  "ibuf_size b = ib_wpos b"

definition ibuf_left :: "ibuf \<Rightarrow> nat" where
  "ibuf_left b = ib_max b - ib_wpos b"

text \<open>The bytes an I/O vector entry for the buffer covers: from \<open>rpos\<close> up to \<open>wpos\<close>.\<close>

definition ibuf_iov :: "ibuf \<Rightarrow> byte list" where
  "ibuf_iov b = take (ib_wpos b - ib_rpos b) (drop (ib_rpos b) (ib_buf b))"

section \<open>The write queue\<close>

definition ibuf_enqueue :: "msgbuf \<Rightarrow> ibuf \<Rightarrow> msgbuf" where
  "ibuf_enqueue m b = m\<lparr>mb_bufs := mb_bufs m @ [b], mb_queued := mb_queued m + 1\<rparr>"

definition ibuf_dequeue :: "msgbuf \<Rightarrow> ibuf \<Rightarrow> world \<Rightarrow> msgbuf \<times> world" where
  "ibuf_dequeue m b w =
     (let m1 = m\<lparr>mb_bufs := remove1 b (mb_bufs m)\<rparr>;
          w1 = (if ib_fd b \<noteq> - 1 then close_fd (ib_fd b) w else w)
      in (m1\<lparr>mb_queued := mb_queued m1 - 1\<rparr>, w1))"

definition ibuf_close :: "msgbuf \<Rightarrow> ibuf \<Rightarrow> msgbuf" where
  "ibuf_close m b = ibuf_enqueue m b"

definition msgbuf_init :: msgbuf where
  "msgbuf_init = \<lparr>mb_bufs = [], mb_queued = 0, mb_fd = - 1\<rparr>"

function msgbuf_drain :: "msgbuf \<Rightarrow> nat \<Rightarrow> world \<Rightarrow> msgbuf \<times> world" where
  "msgbuf_drain m n w =
     (case mb_bufs m of
        [] \<Rightarrow> (m, w)
      | b # rest \<Rightarrow>
          if n > 0 then
            (if ib_rpos b + n \<ge> ib_wpos b then
               (case ibuf_dequeue m b w of
                  (m1, w1) \<Rightarrow> msgbuf_drain m1 (n - (ib_wpos b - ib_rpos b)) w1)
             else (m\<lparr>mb_bufs := b\<lparr>ib_rpos := ib_rpos b + n\<rparr> # rest\<rparr>, w))
          else (m, w))"
  by pat_completeness auto
termination
  by (relation "measure (\<lambda>(m, n, w). length (mb_bufs m))") (auto simp: ibuf_dequeue_def Let_def)

declare msgbuf_drain.simps [simp del]

function msgbuf_clear :: "msgbuf \<Rightarrow> world \<Rightarrow> msgbuf \<times> world" where
  "msgbuf_clear m w =
     (case mb_bufs m of
        [] \<Rightarrow> (m, w)
      | b # rest \<Rightarrow> (case ibuf_dequeue m b w of (m1, w1) \<Rightarrow> msgbuf_clear m1 w1))"
  by pat_completeness auto
termination
  by (relation "measure (\<lambda>(m, w). length (mb_bufs m))") (auto simp: ibuf_dequeue_def Let_def)

declare msgbuf_clear.simps [simp del]

fun ibuf_write_iov :: "nat \<Rightarrow> ibuf list \<Rightarrow> byte list list" where
  "ibuf_write_iov i [] = []"
| "ibuf_write_iov i (b # bs) =
     (if i \<ge> IOV_MAX then [] else ibuf_iov b # ibuf_write_iov (Suc i) bs)"

definition try_later :: "errno \<Rightarrow> bool" where
  "try_later e \<longleftrightarrow> e = EAGAIN \<or> e = ENOBUFS \<or> e = EINTR"

definition ibuf_write :: "kernel \<Rightarrow> msgbuf \<Rightarrow> world \<Rightarrow> int \<times> msgbuf \<times> world" where
  "ibuf_write K m w =
     (case writev K (mb_fd m) (concat (ibuf_write_iov 0 (mb_bufs m))) w of
        (None, w1) \<Rightarrow> (if try_later (errno w1) then 0 else - 1, m, w1)
      | (Some n, w1) \<Rightarrow>
          if n = 0 then (- 2, m, set_errno E0 w1)
          else (case msgbuf_drain m n w1 of (m1, w2) \<Rightarrow> (0, m1, w2)))"

text \<open>
  The loop of \<open>msgbuf_write\<close> stops at the first buffer that carries a descriptor, and leaves
  \<open>buf\<close> at the buffer it stopped at (\<open>None\<close> when it ran off the end of the queue).
\<close>

fun msgbuf_write_iov :: "nat \<Rightarrow> ibuf list \<Rightarrow> byte list list \<times> nat option" where
  "msgbuf_write_iov i [] = ([], None)"
| "msgbuf_write_iov i (b # bs) =
     (if i \<ge> IOV_MAX then ([], Some 0)
      else if ib_fd b \<noteq> - 1 then ([ibuf_iov b], Some 0)
      else case msgbuf_write_iov (Suc i) bs of
        (v, p) \<Rightarrow> (ibuf_iov b # v, map_option Suc p))"

definition msgbuf_write :: "kernel \<Rightarrow> msgbuf \<Rightarrow> world \<Rightarrow> int \<times> msgbuf \<times> world" where
  "msgbuf_write K m w =
     (case msgbuf_write_iov 0 (mb_bufs m) of
        (iov, buf) \<Rightarrow>
          let passed = (case buf of
                 None \<Rightarrow> None
               | Some k \<Rightarrow> if ib_fd (mb_bufs m ! k) \<noteq> - 1 then Some (ib_fd (mb_bufs m ! k))
                           else None)
          in case sendmsg K (mb_fd m) (concat iov) passed w of
            (None, w1) \<Rightarrow> (if try_later (errno w1) then 0 else - 1, m, w1)
          | (Some n, w1) \<Rightarrow>
              if n = 0 then (- 2, m, set_errno E0 w1)
              else case (case (buf, passed) of
                   (Some k, Some f) \<Rightarrow>
                     (m\<lparr>mb_bufs := (mb_bufs m)[k := (mb_bufs m ! k)\<lparr>ib_fd := - 1\<rparr>]\<rparr>,
                      close_fd f w1)
                 | _ \<Rightarrow> (m, w1)) of
                (m1, w2) \<Rightarrow> (case msgbuf_drain m1 n w2 of (m2, w3) \<Rightarrow> (0, m2, w3)))"

section \<open>Buffer lemmas\<close>

definition ibuf_wf :: "ibuf \<Rightarrow> bool" where
  "ibuf_wf b \<longleftrightarrow> length (ib_buf b) = ib_size b \<and> ib_rpos b \<le> ib_wpos b \<and>
     ib_wpos b \<le> ib_size b \<and> ib_size b \<le> ib_max b"

definition ibuf_content :: "ibuf \<Rightarrow> byte list" where
  "ibuf_content b = take (ib_wpos b) (ib_buf b)"

lemma ibuf_open_wf: "ibuf_open K len w = (Some b, w') \<Longrightarrow>
   ibuf_wf b \<and> ibuf_content b = [] \<and> ib_max b = len \<and> ib_size b = len \<and> ib_fd b = - 1 \<and> ib_rpos b = 0"
  by (auto simp: ibuf_open_def ibuf_wf_def ibuf_content_def dest!: malloc_SomeD
      split: prod.splits bool.splits option.splits)

lemma ibuf_dynamic_wf: "ibuf_dynamic K len mx w = (Some b, w') \<Longrightarrow>
   ibuf_wf b \<and> ibuf_content b = [] \<and> ib_max b = mx \<and> ib_size b = len \<and> ib_fd b = - 1 \<and> ib_rpos b = 0"
  by (auto simp: ibuf_dynamic_def ibuf_wf_def ibuf_content_def dest!: ibuf_open_wf
      split: prod.splits option.splits if_splits)

lemma ibuf_realloc_ok:
  assumes "ibuf_wf b" "ib_wpos b + len < 2 ^ 64" "ib_size b \<le> ib_wpos b + len"
    and "ibuf_realloc K b len w = (r, b', w')"
  shows "(r = - 1 \<and> b' = b) \<or>
     (r = 0 \<and> ibuf_wf b' \<and> ib_wpos b + len \<le> ib_size b' \<and> ib_wpos b' = ib_wpos b \<and>
      ibuf_content b' = ibuf_content b \<and> ib_max b' = ib_max b \<and> ib_fd b' = ib_fd b \<and>
      ib_rpos b' = ib_rpos b)"
  using assms
  by (auto simp: ibuf_realloc_def ibuf_wf_def ibuf_content_def szadd_small dest!: malloc_SomeD
      split: if_splits prod.splits option.splits)

lemma ibuf_add_cases:
  assumes "ibuf_wf b" "ib_wpos b + length d < 2 ^ 64" "ibuf_add K b d w = (r, b', w')"
  shows "(r = - 1 \<and> b' = b) \<or>
     (r = 0 \<and> ibuf_wf b' \<and> ibuf_content b' = ibuf_content b @ d \<and>
      ib_wpos b' = ib_wpos b + length d \<and> ib_max b' = ib_max b \<and> ib_fd b' = ib_fd b \<and>
      ib_rpos b' = ib_rpos b)"
proof (cases "ib_wpos b + length d > ib_size b")
  case False
  with assms show ?thesis
    by (auto simp: ibuf_add_def szadd_small ibuf_wf_def ibuf_content_def length_memput take_memput)
next
  case True
  obtain r1 b1 w1 where re: "ibuf_realloc K b (length d) w = (r1, b1, w1)"
    by (metis prod_cases3)
  have "ib_size b \<le> ib_wpos b + length d" using True by simp
  note ibuf_realloc_ok[OF assms(1,2) this re]
  then show ?thesis
    using assms re True
    by (auto simp: ibuf_add_def szadd_small ibuf_wf_def ibuf_content_def length_memput take_memput)
qed

text \<open>Failure is exactly the limit or an allocation failure.\<close>

lemma ibuf_add_limit:
  assumes "ibuf_wf b" "ib_wpos b + length d < 2 ^ 64" "ib_wpos b + length d > ib_max b"
  shows "fst (ibuf_add K b d w) = - 1"
  using assms by (auto simp: ibuf_add_def ibuf_realloc_def szadd_small ibuf_wf_def)

lemma ibuf_iov_content: "ibuf_wf b \<Longrightarrow> ibuf_iov b = drop (ib_rpos b) (ibuf_content b)"
  by (simp add: ibuf_iov_def ibuf_content_def drop_take)

lemma length_ibuf_iov: "ibuf_wf b \<Longrightarrow> length (ibuf_iov b) = ib_wpos b - ib_rpos b"
  by (auto simp: ibuf_iov_def ibuf_wf_def min_def)

section \<open>Queue lemmas\<close>

definition msgbuf_wf :: "msgbuf \<Rightarrow> bool" where
  "msgbuf_wf m \<longleftrightarrow> (\<forall>b\<in>set (mb_bufs m). ibuf_wf b) \<and> mb_queued m = of_nat (length (mb_bufs m))"

definition pending :: "msgbuf \<Rightarrow> byte list" where
  "pending m = concat (map ibuf_iov (mb_bufs m))"

definition open_fds :: "ibuf list \<Rightarrow> int list" where
  "open_fds bs = filter (\<lambda>f. f \<noteq> - 1) (map ib_fd bs)"

lemma open_fds_simps [simp]:
  "open_fds [] = []"
  "open_fds (b # bs) = (if ib_fd b \<noteq> - 1 then ib_fd b # open_fds bs else open_fds bs)"
  by (simp_all add: open_fds_def)

lemma msgbuf_init_wf [simp]: "msgbuf_wf msgbuf_init" "pending msgbuf_init = []"
  by (simp_all add: msgbuf_wf_def msgbuf_init_def pending_def)

lemma ibuf_enqueue_wf: "msgbuf_wf m \<Longrightarrow> ibuf_wf b \<Longrightarrow> msgbuf_wf (ibuf_enqueue m b)"
  by (auto simp: msgbuf_wf_def ibuf_enqueue_def)

lemma pending_ibuf_enqueue: "pending (ibuf_enqueue m b) = pending m @ ibuf_iov b"
  by (simp add: pending_def ibuf_enqueue_def)

lemma ibuf_dequeue_head:
  assumes "mb_bufs m = b # rest" "ibuf_dequeue m b w = (m', w')"
  shows "mb_bufs m' = rest" "mb_queued m' = mb_queued m - 1" "mb_fd m' = mb_fd m"
    "trace w' = (if ib_fd b \<noteq> - 1 then [EvClose (ib_fd b)] else []) @ trace w"
    "errno w' = errno w" "debug w' = debug w"
  using assms by (auto simp: ibuf_dequeue_def Let_def)

lemma msgbuf_drain_spec:
  assumes "msgbuf_wf m" "msgbuf_drain m n w = (m', w')"
  shows "msgbuf_wf m' \<and> pending m' = drop n (pending m) \<and> mb_fd m' = mb_fd m"
  using assms
proof (induction m n w arbitrary: m' w' rule: msgbuf_drain.induct)
  case (1 m n w)
  show ?case
  proof (cases "mb_bufs m")
    case Nil
    with 1(2,3) show ?thesis by (auto simp: msgbuf_drain.simps[of m] pending_def)
  next
    case (Cons b rest)
    note bufs = this
    have wfb: "ibuf_wf b" and q: "mb_queued m = of_nat (Suc (length rest))"
      and wfr: "\<forall>c\<in>set rest. ibuf_wf c"
      using 1(2) bufs by (auto simp: msgbuf_wf_def)
    show ?thesis
    proof (cases "n > 0")
      case False
      with 1(2,3) bufs show ?thesis by (simp add: msgbuf_drain.simps[of m])
    next
      case pos: True
      show ?thesis
      proof (cases "ib_rpos b + n \<ge> ib_wpos b")
        case True
        obtain m1 w1 where dq: "ibuf_dequeue m b w = (m1, w1)" by fastforce
        note d = ibuf_dequeue_head[OF bufs dq]
        have wf1: "msgbuf_wf m1" using d wfr q by (simp add: msgbuf_wf_def)
        have rec: "msgbuf_drain m1 (n - (ib_wpos b - ib_rpos b)) w1 = (m', w')"
          using 1(3) bufs pos True dq by (simp add: msgbuf_drain.simps[of m])
        have IH: "msgbuf_wf m' \<and> pending m' = drop (n - (ib_wpos b - ib_rpos b)) (pending m1) \<and>
            mb_fd m' = mb_fd m1"
          using 1(1)[OF bufs pos True dq[symmetric] wf1 rec] by simp
        have "drop n (ibuf_iov b) = []"
          using True wfb by (simp add: length_ibuf_iov)
        with IH d bufs wfb show ?thesis
          by (simp add: pending_def length_ibuf_iov)
      next
        case False
        let ?b = "b\<lparr>ib_rpos := ib_rpos b + n\<rparr>"
        have m': "m' = m\<lparr>mb_bufs := ?b # rest\<rparr>"
          using 1(3) bufs pos False by (simp add: msgbuf_drain.simps[of m])
        have iov: "ibuf_iov ?b = drop n (ibuf_iov b)"
          using False wfb by (simp add: ibuf_iov_def drop_take ibuf_wf_def add.commute)
        have "n \<le> length (ibuf_iov b)"
          using False wfb by (simp add: length_ibuf_iov)
        with iov m' bufs wfb False 1(2) show ?thesis
          by (auto simp: pending_def msgbuf_wf_def ibuf_wf_def)
      qed
    qed
  qed
qed

text \<open>
  What a drain removes is a prefix of the queue, and the descriptors it closes are those of the
  removed buffers, in order; a buffer that stays keeps its descriptor.
\<close>

lemma msgbuf_drain_fds:
  assumes "msgbuf_drain m n w = (m', w')"
  shows "\<exists>k \<le> length (mb_bufs m). map ib_fd (mb_bufs m') = drop k (map ib_fd (mb_bufs m)) \<and>
     trace w' = rev (map EvClose (open_fds (take k (mb_bufs m)))) @ trace w"
  using assms
proof (induction m n w arbitrary: m' w' rule: msgbuf_drain.induct)
  case (1 m n w)
  show ?case
  proof (cases "mb_bufs m")
    case Nil
    with 1(2) show ?thesis by (simp add: msgbuf_drain.simps[of m])
  next
    case (Cons b rest)
    note bufs = this
    show ?thesis
    proof (cases "n > 0 \<and> ib_rpos b + n \<ge> ib_wpos b")
      case True
      then have t: "n > 0" "ib_rpos b + n \<ge> ib_wpos b" by auto
      obtain m1 w1 where dq: "ibuf_dequeue m b w = (m1, w1)" by fastforce
      note d = ibuf_dequeue_head[OF bufs dq]
      have rec: "msgbuf_drain m1 (n - (ib_wpos b - ib_rpos b)) w1 = (m', w')"
        using 1(2) bufs t dq by (simp add: msgbuf_drain.simps[of m])
      from 1(1)[OF bufs t dq[symmetric] rec] obtain k where
        "k \<le> length rest" "map ib_fd (mb_bufs m') = drop k (map ib_fd rest)"
        "trace w' = rev (map EvClose (open_fds (take k rest))) @ trace w1"
        using d by auto
      then show ?thesis
        using bufs d by (intro exI[of _ "Suc k"]) simp
    next
      case False
      with 1(2) bufs show ?thesis
        by (intro exI[of _ 0]) (auto simp: msgbuf_drain.simps[of m] split: if_splits)
    qed
  qed
qed

lemma msgbuf_drain_world_indep: "fst (msgbuf_drain m n w) = fst (msgbuf_drain m n w')"
proof (induction m n w arbitrary: w' rule: msgbuf_drain.induct)
  case (1 m n w)
  show ?case
    by (subst (1 2) msgbuf_drain.simps)
       (auto simp: ibuf_dequeue_def Let_def split: list.splits intro!: 1)
qed

lemma msgbuf_clear_spec:
  assumes "msgbuf_clear m w = (m', w')"
  shows "mb_bufs m' = [] \<and> mb_queued m' = mb_queued m - of_nat (length (mb_bufs m)) \<and>
     mb_fd m' = mb_fd m \<and> trace w' = rev (map EvClose (open_fds (mb_bufs m))) @ trace w \<and>
     errno w' = errno w \<and> debug w' = debug w"
  using assms
proof (induction m w arbitrary: m' w' rule: msgbuf_clear.induct)
  case (1 m w)
  show ?case
  proof (cases "mb_bufs m")
    case Nil
    with 1(2) show ?thesis by (simp add: msgbuf_clear.simps[of m])
  next
    case (Cons b rest)
    obtain m1 w1 where dq: "ibuf_dequeue m b w = (m1, w1)" by fastforce
    note d = ibuf_dequeue_head[OF Cons dq]
    have "msgbuf_clear m1 w1 = (m', w')"
      using 1(2) Cons dq by (simp add: msgbuf_clear.simps[of m])
    from 1(1)[OF Cons dq[symmetric] this] d Cons show ?thesis by auto
  qed
qed

lemma msgbuf_clear_wf: "msgbuf_wf m \<Longrightarrow> msgbuf_wf (fst (msgbuf_clear m w))"
proof -
  assume "msgbuf_wf m"
  then show ?thesis
    using msgbuf_clear_spec[of m w "fst (msgbuf_clear m w)" "snd (msgbuf_clear m w)"]
    by (simp add: msgbuf_wf_def)
qed

section \<open>Writing\<close>

lemma ibuf_write_iov_take: "ibuf_write_iov i bs = map ibuf_iov (take (IOV_MAX - i) bs)"
proof (induction bs arbitrary: i)
  case (Cons b bs)
  then show ?case by (cases "IOV_MAX - i") (auto simp: diff_Suc)
qed simp

text \<open>
  What \<open>msgbuf_write\<close> offers: a prefix of at most \<open>IOV_MAX\<close> buffers, at least one when the
  queue is not empty, with no descriptor before the buffer it stopped at.
\<close>

lemma msgbuf_write_iov_spec:
  assumes "msgbuf_write_iov i bs = (v, p)"
  shows "\<exists>k \<le> length bs. v = map ibuf_iov (take k bs) \<and> (bs \<noteq> [] \<longrightarrow> i < IOV_MAX \<longrightarrow> k > 0) \<and>
     k \<le> IOV_MAX - i \<and>
     (case p of None \<Rightarrow> k = length bs \<and> open_fds bs = []
      | Some j \<Rightarrow> j < length bs \<and> open_fds (take j bs) = [] \<and>
          (if ib_fd (bs ! j) \<noteq> - 1 \<and> i + j < IOV_MAX then k = Suc j else k = j \<and> j = IOV_MAX - i))"
  using assms
proof (induction bs arbitrary: i v p)
  case Nil
  then show ?case by simp
next
  case (Cons b bs)
  consider "i \<ge> IOV_MAX" | "i < IOV_MAX" "ib_fd b \<noteq> - 1" | "i < IOV_MAX" "ib_fd b = - 1"
    by linarith
  then show ?case
  proof cases
    case 1
    with Cons.prems show ?thesis by (intro exI[of _ 0]) auto
  next
    case 2
    with Cons.prems show ?thesis by (intro exI[of _ 1]) auto
  next
    case 3
    obtain v' p' where r: "msgbuf_write_iov (Suc i) bs = (v', p')" by fastforce
    from Cons.IH[OF r] obtain k where k: "k \<le> length bs" "v' = map ibuf_iov (take k bs)"
      "k \<le> IOV_MAX - Suc i"
      "case p' of None \<Rightarrow> k = length bs \<and> open_fds bs = []
       | Some j \<Rightarrow> j < length bs \<and> open_fds (take j bs) = [] \<and>
          (if ib_fd (bs ! j) \<noteq> - 1 \<and> Suc i + j < IOV_MAX then k = Suc j
           else k = j \<and> j = IOV_MAX - Suc i)"
      by blast
    show ?thesis
      using 3 Cons.prems r k
      by (intro exI[of _ "Suc k"]) (auto split: option.splits if_splits)
  qed
qed

lemma pending_split: "pending m = concat (map ibuf_iov (take k (mb_bufs m))) @
   concat (map ibuf_iov (drop k (mb_bufs m)))"
  unfolding pending_def by (metis append_take_drop_id concat_append map_append)

lemma ibuf_fd_update [simp]:
  "ibuf_iov (b\<lparr>ib_fd := f\<rparr>) = ibuf_iov b" "ibuf_wf (b\<lparr>ib_fd := f\<rparr>) = ibuf_wf b"
  by (simp_all add: ibuf_iov_def ibuf_wf_def)

lemma msgbuf_clear_fd:
  assumes "msgbuf_wf m" "k < length (mb_bufs m)"
  shows "msgbuf_wf (m\<lparr>mb_bufs := (mb_bufs m)[k := (mb_bufs m ! k)\<lparr>ib_fd := f\<rparr>]\<rparr>)"
    and "pending (m\<lparr>mb_bufs := (mb_bufs m)[k := (mb_bufs m ! k)\<lparr>ib_fd := f\<rparr>]\<rparr>) = pending m"
proof -
  show "msgbuf_wf (m\<lparr>mb_bufs := (mb_bufs m)[k := (mb_bufs m ! k)\<lparr>ib_fd := f\<rparr>]\<rparr>)"
    using assms set_update_subset_insert[of "mb_bufs m" k] by (fastforce simp: msgbuf_wf_def)
  have "map ibuf_iov ((mb_bufs m)[k := (mb_bufs m ! k)\<lparr>ib_fd := f\<rparr>]) = map ibuf_iov (mb_bufs m)"
    using assms(2) by (simp add: map_update list_update_same_conv)
  then show "pending (m\<lparr>mb_bufs := (mb_bufs m)[k := (mb_bufs m ! k)\<lparr>ib_fd := f\<rparr>]\<rparr>) = pending m"
    by (simp add: pending_def)
qed

text \<open>
  One write: the bytes offered to the kernel are a prefix of the pending bytes; the accepted
  ones leave the queue, the others stay in order; on any failure the queue is unchanged.
\<close>

lemma msgbuf_write_spec:
  assumes wf: "msgbuf_wf m" and wr: "msgbuf_write K m w = (r, m', w')"
  shows "\<exists>n bs c. msgbuf_wf m' \<and> mb_fd m' = mb_fd m \<and> pending m = bs @ drop (length bs) (pending m) \<and>
     n \<le> length bs \<and> pending m' = drop n (pending m) \<and> EvSendmsg (mb_fd m) bs c \<in> set (trace w') \<and>
     (r = 0 \<or> (r = - 1 \<or> r = - 2) \<and> m' = m)"
proof -
  obtain v p where iov: "msgbuf_write_iov 0 (mb_bufs m) = (v, p)" by fastforce
  from msgbuf_write_iov_spec[OF iov] obtain k where
    v: "v = map ibuf_iov (take k (mb_bufs m))" and p: "\<And>j. p = Some j \<Longrightarrow> j < length (mb_bufs m)"
    by fastforce
  let ?bs = "concat v"
  define c where "c = (case p of None \<Rightarrow> None
    | Some k \<Rightarrow> if ib_fd (mb_bufs m ! k) \<noteq> - 1 then Some (ib_fd (mb_bufs m ! k)) else None)"
  have pre: "pending m = ?bs @ drop (length ?bs) (pending m)"
    using pending_split[of m k] v by simp
  obtain s w1 where sm: "sendmsg K (mb_fd m) ?bs c w = (s, w1)" by fastforce
  have tr: "EvSendmsg (mb_fd m) ?bs c \<in> set (trace w1)"
    using sendmsg_trace(1)[of K "mb_fd m" ?bs c w] sm by simp
  show ?thesis
  proof (cases "s = None \<or> s = Some 0")
    case True
    then have "m' = m \<and> (r = 0 \<or> r = - 1 \<or> r = - 2) \<and> trace w' = trace w1"
      using wr sm by (auto simp: msgbuf_write_def iov Let_def c_def[symmetric] split: if_splits)
    then show ?thesis
      using wf pre tr by (intro exI[of _ 0] exI[of _ ?bs] exI[of _ c]) auto
  next
    case False
    then obtain n where n: "s = Some n" "n > 0" by auto
    have nle: "n \<le> length ?bs" using sendmsg_bound sm n by blast
    obtain m1 w2 where m1: "(case (p, c) of (Some k, Some f) \<Rightarrow>
          (m\<lparr>mb_bufs := (mb_bufs m)[k := (mb_bufs m ! k)\<lparr>ib_fd := - 1\<rparr>]\<rparr>, close_fd f w1)
        | _ \<Rightarrow> (m, w1)) = (m1, w2)" by fastforce
    then have wf1: "msgbuf_wf m1" "pending m1 = pending m" "mb_fd m1 = mb_fd m"
      and tr2: "set (trace w1) \<subseteq> set (trace w2)"
      using wf p msgbuf_clear_fd[of m] by (auto split: option.splits)
    obtain m2 w3 where dr: "msgbuf_drain m1 n w2 = (m2, w3)" by fastforce
    have fin: "r = 0" "m' = m2" "w' = w3"
      using wr sm n m1 dr by (auto simp: msgbuf_write_def iov Let_def c_def[symmetric])
    have "set (trace w2) \<subseteq> set (trace w3)" using msgbuf_drain_fds[OF dr] by auto
    with msgbuf_drain_spec[OF wf1(1) dr] wf1 fin pre nle tr tr2 show ?thesis
      by (intro exI[of _ n] exI[of _ ?bs] exI[of _ c]) auto
  qed
qed

section \<open>The queue as a FIFO of bytes\<close>

text \<open>
  The contract a sender relies on: pushing appends the bytes of a buffer, pulling removes a
  prefix, and the invariant is kept. The client lemma: over any interleaving of pushes and
  pulls, what was pulled followed by what is still pending is what was pushed, in order.
\<close>

datatype 'b fifo_op = Push 'b | Pull nat

fun pushed :: "('b \<Rightarrow> byte list) \<Rightarrow> 'b fifo_op list \<Rightarrow> byte list" where
  "pushed f [] = []"
| "pushed f (Push b # ops) = f b @ pushed f ops"
| "pushed f (Pull n # ops) = pushed f ops"

fun fifo_run ::
  "('q \<Rightarrow> byte list) \<Rightarrow> ('q \<Rightarrow> 'b \<Rightarrow> 'q) \<Rightarrow> ('q \<Rightarrow> nat \<Rightarrow> 'q) \<Rightarrow> 'q \<Rightarrow> 'b fifo_op list \<Rightarrow>
   'q \<times> byte list" where
  "fifo_run pend push pull q [] = (q, [])"
| "fifo_run pend push pull q (Push b # ops) = fifo_run pend push pull (push q b) ops"
| "fifo_run pend push pull q (Pull n # ops) =
     (case fifo_run pend push pull (pull q n) ops of (q', s) \<Rightarrow> (q', take n (pend q) @ s))"

locale byte_fifo =
  fixes inv :: "'q \<Rightarrow> bool"
    and pend :: "'q \<Rightarrow> byte list"
    and good :: "'b \<Rightarrow> bool"
    and bytes :: "'b \<Rightarrow> byte list"
    and push :: "'q \<Rightarrow> 'b \<Rightarrow> 'q"
    and pull :: "'q \<Rightarrow> nat \<Rightarrow> 'q"
  assumes inv_push: "inv q \<Longrightarrow> good b \<Longrightarrow> inv (push q b)"
    and pend_push: "inv q \<Longrightarrow> good b \<Longrightarrow> pend (push q b) = pend q @ bytes b"
    and inv_pull: "inv q \<Longrightarrow> inv (pull q n)"
    and pend_pull: "inv q \<Longrightarrow> pend (pull q n) = drop n (pend q)"
begin

lemma fifo_order:
  assumes "inv q" "\<And>b. Push b \<in> set ops \<Longrightarrow> good b" "fifo_run pend push pull q ops = (q', s)"
  shows "inv q' \<and> s @ pend q' = pend q @ pushed bytes ops"
  using assms
proof (induction ops arbitrary: q q' s)
  case Nil
  then show ?case by simp
next
  case (Cons x ops)
  show ?case
  proof (cases x)
    case (Push b)
    with Cons.prems show ?thesis
      using Cons.IH[of "push q b" q' s] by (simp add: inv_push pend_push)
  next
    case (Pull n)
    obtain t where t: "fifo_run pend push pull (pull q n) ops = (q', t)" "s = take n (pend q) @ t"
      using Cons.prems(3) Pull by (auto split: prod.splits)
    with Cons.prems Pull show ?thesis
      using Cons.IH[of "pull q n" q' t] by (simp add: inv_pull pend_pull)
  qed
qed

end

interpretation wq: byte_fifo msgbuf_wf pending ibuf_wf ibuf_iov ibuf_enqueue
  "\<lambda>m n. fst (msgbuf_drain m n w)" for w
proof unfold_locales
  fix q n
  assume q: "msgbuf_wf q"
  obtain m' w' where "msgbuf_drain q n w = (m', w')" by fastforce
  with msgbuf_drain_spec[OF q this]
  show "msgbuf_wf (fst (msgbuf_drain q n w))"
    and "pending (fst (msgbuf_drain q n w)) = drop n (pending q)" by simp_all
qed (simp_all add: ibuf_enqueue_wf pending_ibuf_enqueue)

end
