(* ===== verification/Imsg.thy ===== *)
theory Imsg
  imports Imsg_Buffer
begin

text \<open>
  The message layer of the imsg library (\<open>lib/libutil/imsg.c\<close> and \<open>imsg.h\<close>): a 16 byte header
  in the byte order of the machine, followed by the payload. The read buffer is modelled by the
  \<open>wpos\<close> bytes that are in it: the bytes beyond \<open>wpos\<close> are overwritten before they are read.
  The lemmas characterise \<open>imsg_compose\<close> as appending one encoded message to the write queue and
  \<open>imsg_get\<close> as removing one from the read buffer, with the limits of the code.
\<close>

section \<open>Data\<close>

record imsg_hdr =
  hdr_type :: u32
  hdr_len :: u16
  hdr_flags :: u16
  hdr_peerid :: u32
  hdr_pid :: u32

record imsg =
  msg_hdr :: imsg_hdr
  msg_fd :: int
  msg_data :: "byte list"

record ibuf_read =
  r_buf :: "byte list"
  r_rptr :: nat
  r_wpos :: nat

record imsgbuf =
  im_fds :: "int list"
  im_r :: ibuf_read
  im_w :: msgbuf
  im_fd :: int
  im_pid :: int

definition IBUF_READ_SIZE :: nat where
  "IBUF_READ_SIZE = 65535"

definition MAX_IMSGSIZE :: nat where
  "MAX_IMSGSIZE = 16384"

definition IMSG_HEADER_SIZE :: nat where
  "IMSG_HEADER_SIZE = 16"

definition IMSGF_HASFD :: u16 where
  "IMSGF_HASFD = 1"

definition sizeof_imsg_fd :: nat where
  "sizeof_imsg_fd = 24"

text \<open>The memory image of a header.\<close>

definition enc_hdr :: "imsg_hdr \<Rightarrow> byte list" where
  "enc_hdr h = le32 (hdr_type h) @ le16 (hdr_len h) @ le16 (hdr_flags h) @
     le32 (hdr_peerid h) @ le32 (hdr_pid h)"

definition dec_hdr :: "byte list \<Rightarrow> imsg_hdr" where
  "dec_hdr b = \<lparr>hdr_type = un_le32 b, hdr_len = un_le16 (drop 4 b), hdr_flags = un_le16 (drop 6 b),
     hdr_peerid = un_le32 (drop 8 b), hdr_pid = un_le32 (drop 12 b)\<rparr>"

section \<open>Operations\<close>

definition imsg_init :: "kernel \<Rightarrow> int \<Rightarrow> imsgbuf" where
  "imsg_init K fd =
     \<lparr>im_fds = [], im_r = \<lparr>r_buf = [], r_rptr = 0, r_wpos = 0\<rparr>, im_w = msgbuf_init\<lparr>mb_fd := fd\<rparr>,
      im_fd = fd, im_pid = k_getpid K\<rparr>"

fun imsg_read_cmsgs ::
  "kernel \<Rightarrow> cmsg list \<Rightarrow> imsgbuf \<Rightarrow> world \<Rightarrow> bool \<times> imsgbuf \<times> world" where
  "imsg_read_cmsgs K [] ib w = (True, ib, w)"
| "imsg_read_cmsgs K (c # cs) ib w =
     (if cm_rights c then
        (case alloc K sizeof_imsg_fd w of
           (False, w1) \<Rightarrow> (False, ib, close_fd (cm_fd c) w1)
         | (True, w1) \<Rightarrow> imsg_read_cmsgs K cs (ib\<lparr>im_fds := im_fds ib @ [cm_fd c]\<rparr>) w1)
      else imsg_read_cmsgs K cs ib w)"

definition imsg_read :: "kernel \<Rightarrow> imsgbuf \<Rightarrow> world \<Rightarrow> int \<times> imsgbuf \<times> world" where
  "imsg_read K ib w =
     (case recvmsg K (im_fd ib) (IBUF_READ_SIZE - r_wpos (im_r ib)) w of
        (None, w1) \<Rightarrow>
          if errno w1 \<noteq> EINTR \<and> errno w1 \<noteq> EAGAIN then (- 1, ib, w1) else (- 2, ib, w1)
      | (Some (bs, cs), w1) \<Rightarrow>
          let r = im_r ib;
              ib1 = ib\<lparr>im_r := r\<lparr>r_buf := take (r_wpos r) (r_buf r) @ bs,
                               r_wpos := r_wpos r + length bs\<rparr>\<rparr>
          in case imsg_read_cmsgs K cs ib1 w1 of
            (ok, ib2, w2) \<Rightarrow> (if ok then int (length bs) else - 1, ib2, w2))"

definition imsg_get_fd :: "imsgbuf \<Rightarrow> int \<times> imsgbuf" where
  "imsg_get_fd ib = (case im_fds ib of [] \<Rightarrow> (- 1, ib) | f # fs \<Rightarrow> (f, ib\<lparr>im_fds := fs\<rparr>))"

definition imsg_get ::
  "kernel \<Rightarrow> imsgbuf \<Rightarrow> world \<Rightarrow> int \<times> imsg option \<times> imsgbuf \<times> world" where
  "imsg_get K ib w =
     (let av = r_wpos (im_r ib) in
      if IMSG_HEADER_SIZE > av then (0, None, ib, w)
      else let h = dec_hdr (r_buf (im_r ib)); len = unat (hdr_len h) in
      if len < IMSG_HEADER_SIZE \<or> len > MAX_IMSGSIZE then (- 1, None, ib, set_errno ERANGE w)
      else if len > av then (0, None, ib, w)
      else let datalen = len - IMSG_HEADER_SIZE;
               ib1 = ib\<lparr>im_r := (im_r ib)\<lparr>r_rptr := IMSG_HEADER_SIZE\<rparr>\<rparr> in
      case malloc K datalen w of
        (None, w1) \<Rightarrow> (- 1, None, ib1, w1)
      | (Some _, w1) \<Rightarrow>
          (case (if hdr_flags h AND IMSGF_HASFD \<noteq> 0 then imsg_get_fd ib1 else (- 1, ib1)) of
             (f, ib2) \<Rightarrow>
               let r = im_r ib2;
                   d = take datalen (drop (r_rptr r) (r_buf r));
                   r' = (if len < av then r\<lparr>r_buf := take (av - len) (drop len (r_buf r)),
                                            r_wpos := av - len\<rparr>
                         else r\<lparr>r_buf := [], r_wpos := 0\<rparr>)
               in (int (datalen + IMSG_HEADER_SIZE), Some \<lparr>msg_hdr = h, msg_fd = f, msg_data = d\<rparr>,
                   ib2\<lparr>im_r := r'\<rparr>, w1)))"

definition imsg_add :: "kernel \<Rightarrow> ibuf \<Rightarrow> byte list \<Rightarrow> world \<Rightarrow> int \<times> ibuf \<times> world" where
  "imsg_add K b d w =
     (if length d \<noteq> 0 then
        (case ibuf_add K b d w of
           (r, b1, w1) \<Rightarrow> if r = - 1 then (- 1, b1, w1) else (int (length d), b1, w1))
      else (int (length d), b, w))"

text \<open>
  The length parameter is a \<open>u_int16_t\<close> and the header size is added to it in 16 bits. The
  length field of the header is not set here, so it holds what was on the stack.
\<close>

definition imsg_create ::
  "kernel \<Rightarrow> imsgbuf \<Rightarrow> u32 \<Rightarrow> u32 \<Rightarrow> int \<Rightarrow> u16 \<Rightarrow> world \<Rightarrow> ibuf option \<times> world" where
  "imsg_create K ib type peerid pid datalen w =
     (let dl = datalen + of_nat IMSG_HEADER_SIZE in
      if unat dl > MAX_IMSGSIZE then (None, set_errno ERANGE w)
      else let p = (word_of_int pid :: u32);
               h = \<lparr>hdr_type = type, hdr_len = un_le16 (junk K 2 w), hdr_flags = 0,
                    hdr_peerid = peerid,
                    hdr_pid = (if p = 0 then word_of_int (im_pid ib) else p)\<rparr>
      in case ibuf_dynamic K (unat dl) MAX_IMSGSIZE w of
        (None, w1) \<Rightarrow> (None, w1)
      | (Some b, w1) \<Rightarrow>
          (case imsg_add K b (enc_hdr h) w1 of
             (r, b1, w2) \<Rightarrow> (if r = - 1 then None else Some b1, w2)))"

definition imsg_close :: "imsgbuf \<Rightarrow> ibuf \<Rightarrow> imsgbuf" where
  "imsg_close ib b =
     (let h = dec_hdr (ib_buf b);
          h1 = h\<lparr>hdr_flags := hdr_flags h AND NOT IMSGF_HASFD\<rparr>;
          h2 = (if ib_fd b \<noteq> - 1 then h1\<lparr>hdr_flags := hdr_flags h1 OR IMSGF_HASFD\<rparr> else h1);
          h3 = h2\<lparr>hdr_len := of_nat (ib_wpos b)\<rparr>;
          b1 = b\<lparr>ib_buf := memput (ib_buf b) 0 (enc_hdr h3)\<rparr>
      in ib\<lparr>im_w := ibuf_close (im_w ib) b1\<rparr>)"

definition imsg_compose ::
  "kernel \<Rightarrow> imsgbuf \<Rightarrow> u32 \<Rightarrow> u32 \<Rightarrow> int \<Rightarrow> int \<Rightarrow> byte list \<Rightarrow> world \<Rightarrow> int \<times> imsgbuf \<times> world" where
  "imsg_compose K ib type peerid pid fd data w =
     (let datalen = (of_nat (length data) :: u16) in
      case imsg_create K ib type peerid pid datalen w of
        (None, w1) \<Rightarrow> (- 1, ib, w1)
      | (Some b, w1) \<Rightarrow>
          (case imsg_add K b (take (unat datalen) data) w1 of
             (r, b1, w2) \<Rightarrow>
               if r = - 1 then (- 1, ib, w2)
               else (1, imsg_close ib (b1\<lparr>ib_fd := fd\<rparr>), w2)))"

fun imsg_add_iov :: "kernel \<Rightarrow> ibuf \<Rightarrow> byte list list \<Rightarrow> world \<Rightarrow> int \<times> ibuf \<times> world" where
  "imsg_add_iov K b [] w = (0, b, w)"
| "imsg_add_iov K b (v # vs) w =
     (case imsg_add K b (take (length v mod 2 ^ 16) v) w of
        (r, b1, w1) \<Rightarrow> if r = - 1 then (- 1, b1, w1) else imsg_add_iov K b1 vs w1)"

definition imsg_composev ::
  "kernel \<Rightarrow> imsgbuf \<Rightarrow> u32 \<Rightarrow> u32 \<Rightarrow> int \<Rightarrow> int \<Rightarrow> byte list list \<Rightarrow> world \<Rightarrow> int \<times> imsgbuf \<times> world" where
  "imsg_composev K ib type peerid pid fd iov w =
     (let datalen = sum_list (map length iov) in
      case imsg_create K ib type peerid pid (of_nat datalen) w of
        (None, w1) \<Rightarrow> (- 1, ib, w1)
      | (Some b, w1) \<Rightarrow>
          (case imsg_add_iov K b iov w1 of
             (r, b1, w2) \<Rightarrow>
               if r = - 1 then (- 1, ib, w2)
               else (1, imsg_close ib (b1\<lparr>ib_fd := fd\<rparr>), w2)))"

text \<open>The flush loop retries as long as the kernel asks to try later: it may not return.\<close>

partial_function (option) imsg_flush ::
  "kernel \<Rightarrow> imsgbuf \<Rightarrow> world \<Rightarrow> (int \<times> imsgbuf \<times> world) option" where
  "imsg_flush K ib w =
     (if mb_queued (im_w ib) \<noteq> 0 then
        (case msgbuf_write K (im_w ib) w of
           (r, m, w1) \<Rightarrow>
             if r < 0 then Some (- 1, ib\<lparr>im_w := m\<rparr>, w1)
             else imsg_flush K (ib\<lparr>im_w := m\<rparr>) w1)
      else Some (0, ib, w))"

fun imsg_clear_fds :: "int list \<Rightarrow> world \<Rightarrow> int list \<times> world" where
  "imsg_clear_fds [] w = ([], w)"
| "imsg_clear_fds (f # fs) w =
     (if f \<noteq> - 1 then imsg_clear_fds fs (close_fd f w) else (fs, w))"

definition imsg_clear :: "imsgbuf \<Rightarrow> world \<Rightarrow> imsgbuf \<times> world" where
  "imsg_clear ib w =
     (case msgbuf_clear (im_w ib) w of
        (m, w1) \<Rightarrow> (case imsg_clear_fds (im_fds ib) w1 of
           (fs, w2) \<Rightarrow> (ib\<lparr>im_w := m, im_fds := fs\<rparr>, w2)))"

section \<open>Headers\<close>

lemma length_enc_hdr [simp]: "length (enc_hdr h) = 16"
  by (simp add: enc_hdr_def)

lemma enc_hdr_not_Nil: "enc_hdr h \<noteq> []"
  using length_enc_hdr[of h] by fastforce

lemma dec_enc_hdr [simp, enc_simps]: "dec_hdr (enc_hdr h @ r) = h"
  by (simp add: dec_hdr_def enc_hdr_def)

lemma enc_hdr_size: "length (enc_hdr h) = IMSG_HEADER_SIZE"
  by (simp add: IMSG_HEADER_SIZE_def)

lemmas imsg_consts = IBUF_READ_SIZE_def MAX_IMSGSIZE_def IMSG_HEADER_SIZE_def IMSGF_HASFD_def

section \<open>Well-formed message buffers\<close>

definition imsgbuf_wf :: "imsgbuf \<Rightarrow> bool" where
  "imsgbuf_wf ib \<longleftrightarrow> r_wpos (im_r ib) = length (r_buf (im_r ib)) \<and> r_wpos (im_r ib) \<le> IBUF_READ_SIZE \<and>
     msgbuf_wf (im_w ib) \<and> (\<forall>b\<in>set (mb_bufs (im_w ib)). ibuf_iov b \<noteq> []) \<and> mb_fd (im_w ib) = im_fd ib"

lemma imsg_init_wf: "imsgbuf_wf (imsg_init K fd)"
  by (simp add: imsgbuf_wf_def imsg_init_def msgbuf_wf_def msgbuf_init_def)

lemma imsg_read_cmsgs_frame:
  "imsg_read_cmsgs K cs ib w = (ok, ib', w') \<Longrightarrow>
     im_r ib' = im_r ib \<and> im_w ib' = im_w ib \<and> im_fd ib' = im_fd ib \<and> im_pid ib' = im_pid ib"
  by (induction K cs ib w rule: imsg_read_cmsgs.induct) (auto split: if_splits prod.splits bool.splits)

text \<open>
  A read appends what the kernel delivered and nothing else; the buffer cannot overflow.
\<close>

lemma imsg_read_spec:
  assumes wf: "imsgbuf_wf ib" and rd: "imsg_read K ib w = (n, ib', w')"
  shows "imsgbuf_wf ib' \<and> im_w ib' = im_w ib \<and> im_fd ib' = im_fd ib \<and> im_pid ib' = im_pid ib \<and>
    (\<exists>bs. r_buf (im_r ib') = r_buf (im_r ib) @ bs \<and> (n \<ge> 0 \<longrightarrow> n = int (length bs)) \<and>
       (n = - 2 \<longrightarrow> bs = []))"
proof -
  obtain m w1 where rc: "recvmsg K (im_fd ib) (IBUF_READ_SIZE - r_wpos (im_r ib)) w = (m, w1)"
    by fastforce
  show ?thesis
  proof (cases m)
    case None
    then show ?thesis
      using rd rc wf by (auto simp: imsg_read_def split: if_splits intro!: exI[of _ "[]"])
  next
    case (Some p)
    then obtain bs cs where p: "m = Some (bs, cs)" by (cases p) auto
    let ?r = "im_r ib"
    let ?ib1 = "ib\<lparr>im_r := ?r\<lparr>r_buf := take (r_wpos ?r) (r_buf ?r) @ bs,
        r_wpos := r_wpos ?r + length bs\<rparr>\<rparr>"
    have le: "length bs \<le> IBUF_READ_SIZE - r_wpos ?r" using rc p recvmsg_bound by blast
    obtain ok ib2 w2 where cm: "imsg_read_cmsgs K cs ?ib1 w1 = (ok, ib2, w2)"
      by (metis prod_cases3)
    from imsg_read_cmsgs_frame[OF cm] rd rc p cm wf le show ?thesis
      by (auto simp: imsg_read_def Let_def imsgbuf_wf_def split: if_splits intro!: exI[of _ bs])
  qed
qed

section \<open>Composing\<close>

definition the_hdr :: "imsgbuf \<Rightarrow> u32 \<Rightarrow> u32 \<Rightarrow> int \<Rightarrow> int \<Rightarrow> nat \<Rightarrow> imsg_hdr" where
  "the_hdr ib type peerid pid fd n =
     \<lparr>hdr_type = type, hdr_len = of_nat (IMSG_HEADER_SIZE + n),
      hdr_flags = (if fd \<noteq> - 1 then IMSGF_HASFD else 0), hdr_peerid = peerid,
      hdr_pid = (if (word_of_int pid :: u32) = 0 then word_of_int (im_pid ib) else word_of_int pid)\<rparr>"

lemma imsg_add_cases:
  assumes "ibuf_wf b" "ib_wpos b + length d < 2 ^ 64" "imsg_add K b d w = (r, b', w')"
  shows "(r = - 1) \<or>
     (r = int (length d) \<and> ibuf_wf b' \<and> ibuf_content b' = ibuf_content b @ d \<and>
      ib_wpos b' = ib_wpos b + length d \<and> ib_max b' = ib_max b \<and> ib_fd b' = ib_fd b \<and>
      ib_rpos b' = ib_rpos b)"
proof (cases "d = []")
  case True
  with assms show ?thesis by (auto simp: imsg_add_def)
next
  case False
  obtain r1 b1 w1 where a: "ibuf_add K b d w = (r1, b1, w1)" by (metis prod_cases3)
  from ibuf_add_cases[OF assms(1,2) a] assms(3) a False show ?thesis
    by (auto simp: imsg_add_def split: if_splits)
qed

lemma imsg_create_spec:
  assumes "imsg_create K ib type peerid pid dl w = (Some b, w')"
  shows "ibuf_wf b \<and> ib_wpos b = 16 \<and> ib_max b = MAX_IMSGSIZE \<and> ib_rpos b = 0 \<and>
     (\<exists>l. ibuf_content b = enc_hdr ((the_hdr ib type peerid pid (- 1) 0)\<lparr>hdr_len := l\<rparr>))"
proof -
  let ?h = "(the_hdr ib type peerid pid (- 1) 0)\<lparr>hdr_len := un_le16 (junk K 2 w)\<rparr>"
  obtain b0 w1 r w2 where b0: "ibuf_dynamic K (unat (dl + of_nat IMSG_HEADER_SIZE)) MAX_IMSGSIZE w
      = (Some b0, w1)" and ad: "imsg_add K b0 (enc_hdr ?h) w1 = (r, b, w2)" and r: "r \<noteq> - 1"
    using assms
    by (auto simp: imsg_create_def Let_def the_hdr_def split: if_splits option.splits prod.splits)
  note wf0 = ibuf_dynamic_wf[OF b0]
  have "ib_wpos b0 = 0"
  proof -
    have "length (ibuf_content b0) = ib_wpos b0"
      using wf0 by (auto simp: ibuf_content_def ibuf_wf_def)
    with wf0 show ?thesis by simp
  qed
  then have "ib_wpos b0 + length (enc_hdr ?h) < 2 ^ 64" by simp
  from imsg_add_cases[OF _ this ad] wf0 r \<open>ib_wpos b0 = 0\<close> show ?thesis by auto
qed

text \<open>\<open>imsg_close\<close> patches length and flags in place and queues exactly the message.\<close>

lemma imsg_close_spec:
  assumes wf: "ibuf_wf b" and c: "ibuf_content b = enc_hdr ((the_hdr ib ty pe pid (- 1) 0)\<lparr>hdr_len := l\<rparr>) @ d"
    and rp: "ib_rpos b = 0"
  shows "\<exists>b'. imsg_close ib b = ib\<lparr>im_w := ibuf_enqueue (im_w ib) b'\<rparr> \<and> ibuf_wf b' \<and>
     ibuf_iov b' = enc_hdr (the_hdr ib ty pe pid (ib_fd b) (length d)) @ d \<and> ib_fd b' = ib_fd b"
proof -
  let ?h = "(the_hdr ib ty pe pid (- 1) 0)\<lparr>hdr_len := l\<rparr>"
  let ?h' = "the_hdr ib ty pe pid (ib_fd b) (length d)"
  have wp: "ib_wpos b = 16 + length d"
    using c wf by (metis ibuf_content_def ibuf_wf_def length_append length_enc_hdr length_take min.absorb2)
  obtain rest where buf: "ib_buf b = enc_hdr ?h @ d @ rest"
    using c by (metis append_assoc append_take_drop_id ibuf_content_def)
  let ?b' = "b\<lparr>ib_buf := enc_hdr ?h' @ d @ rest\<rparr>"
  have "imsg_close ib b = ib\<lparr>im_w := ibuf_enqueue (im_w ib) ?b'\<rparr>"
    using wp by (simp add: imsg_close_def Let_def buf memput_def ibuf_close_def the_hdr_def imsg_consts)
  moreover have "ibuf_wf ?b'" using wf buf by (simp add: ibuf_wf_def)
  moreover have "ibuf_iov ?b' = enc_hdr ?h' @ d"
    using wp rp by (simp add: ibuf_iov_def)
  ultimately show ?thesis by (intro exI[of _ ?b']) simp
qed

lemma imsg_compose_spec:
  assumes "length data < 2 ^ 16" "imsg_compose K ib type peerid pid fd data w = (r, ib', w')"
  shows "r = - 1 \<and> ib' = ib \<or>
    r = 1 \<and> IMSG_HEADER_SIZE + length data \<le> MAX_IMSGSIZE \<and>
    (\<exists>b. ib' = ib\<lparr>im_w := ibuf_enqueue (im_w ib) b\<rparr> \<and> ibuf_wf b \<and> ib_fd b = fd \<and>
       ibuf_iov b = enc_hdr (the_hdr ib type peerid pid fd (length data)) @ data)"
proof (cases "r = - 1")
  case True
  with assms(2) show ?thesis
    by (auto simp: imsg_compose_def Let_def split: option.splits prod.splits if_splits)
next
  case False
  have dl: "unat (of_nat (length data) :: u16) = length data"
    using assms(1) by (simp add: unat_of_nat take_bit_nat_eq_self)
  obtain b0 w1 ra b1 where
    cr: "imsg_create K ib type peerid pid (of_nat (length data)) w = (Some b0, w1)"
    and ad: "imsg_add K b0 data w1 = (ra, b1, w')" and ra: "ra \<noteq> - 1" "r = 1"
    and ib': "ib' = imsg_close ib (b1\<lparr>ib_fd := fd\<rparr>)"
    using assms(2) dl False
    by (auto simp: imsg_compose_def Let_def split: option.splits prod.splits if_splits)
  from imsg_create_spec[OF cr] obtain l where b0: "ibuf_wf b0" "ib_wpos b0 = 16"
    "ib_max b0 = MAX_IMSGSIZE" "ib_rpos b0 = 0"
    "ibuf_content b0 = enc_hdr ((the_hdr ib type peerid pid (- 1) 0)\<lparr>hdr_len := l\<rparr>)" by blast
  have sm: "ib_wpos b0 + length data < 2 ^ 64" using assms(1) b0 by simp
  note b1 = imsg_add_cases[OF b0(1) sm ad]
  have wf1: "ibuf_wf (b1\<lparr>ib_fd := fd\<rparr>)" and rp1: "ib_rpos (b1\<lparr>ib_fd := fd\<rparr>) = 0"
    and c1: "ibuf_content (b1\<lparr>ib_fd := fd\<rparr>) =
      enc_hdr ((the_hdr ib type peerid pid (- 1) 0)\<lparr>hdr_len := l\<rparr>) @ data"
    using b0 b1 ra by (auto simp: ibuf_content_def)
  have "IMSG_HEADER_SIZE + length data \<le> MAX_IMSGSIZE"
    using b0 b1 ra by (auto simp: ibuf_wf_def imsg_consts)
  with imsg_close_spec[OF wf1 c1 rp1] ib' ra show ?thesis by auto
qed

lemma imsg_compose_wf:
  assumes "imsgbuf_wf ib" "length data < 2 ^ 16"
    and "imsg_compose K ib type peerid pid fd data w = (r, ib', w')"
  shows "imsgbuf_wf ib'"
proof -
  from imsg_compose_spec[OF assms(2,3)] assms(1) show ?thesis
    by (auto simp: imsgbuf_wf_def ibuf_enqueue_wf enc_hdr_not_Nil) (auto simp: ibuf_enqueue_def enc_hdr_not_Nil)
qed

text \<open>With memory at hand the only failure is the size limit.\<close>

lemma alloc_ok: "k_mem K = (\<lambda>_. True) \<Longrightarrow> alloc K n w = (True, emit (EvMalloc n) w)"
  by (simp add: alloc_def Let_def)

lemma malloc_ok: "k_mem K = (\<lambda>_. True) \<Longrightarrow> \<exists>bs w'. malloc K n w = (Some bs, w')"
  by (simp add: malloc_def alloc_ok)

lemma ibuf_dynamic_ok:
  assumes "k_mem K = (\<lambda>_. True)" "len \<le> mx"
  shows "\<exists>b w'. ibuf_dynamic K len mx w = (Some b, w')"
proof -
  obtain j w2 where "malloc K len (emit (EvMalloc sizeof_ibuf) w) = (Some j, w2)"
    using malloc_ok[OF assms(1)] by blast
  with assms show ?thesis by (simp add: ibuf_dynamic_def ibuf_open_def alloc_ok)
qed

lemma ibuf_add_ok:
  assumes "k_mem K = (\<lambda>_. True)" "ib_wpos b + length d \<le> ib_max b" "ib_wpos b + length d < 2 ^ 64"
  shows "fst (ibuf_add K b d w) = 0"
  using malloc_ok[OF assms(1), of "ib_wpos b + length d" w] assms
  by (auto simp: ibuf_add_def ibuf_realloc_def szadd_small)

lemma imsg_add_ok:
  assumes "k_mem K = (\<lambda>_. True)" "ib_wpos b + length d \<le> ib_max b" "ib_wpos b + length d < 2 ^ 64"
  shows "fst (imsg_add K b d w) \<noteq> - 1"
  using ibuf_add_ok[OF assms, of w] by (auto simp: imsg_add_def split: prod.split)

lemma imsg_compose_succeeds:
  assumes mem: "k_mem K = (\<lambda>_. True)" and le: "IMSG_HEADER_SIZE + length data \<le> MAX_IMSGSIZE"
  shows "fst (imsg_compose K ib type peerid pid fd data w) = 1"
proof -
  have dl: "unat (of_nat (length data) :: u16) = length data"
    using le by (simp add: unat_of_nat take_bit_nat_eq_self imsg_consts)
  have dl': "unat (of_nat (length data) + of_nat IMSG_HEADER_SIZE :: u16) = length data + 16"
    using le by (simp add: unat_of_nat take_bit_nat_eq_self imsg_consts unat_word_ariths)
  obtain b w1 where dy: "ibuf_dynamic K (length data + 16) MAX_IMSGSIZE w = (Some b, w1)"
    using ibuf_dynamic_ok[OF mem, of "length data + 16" MAX_IMSGSIZE w] le
    by (auto simp: imsg_consts add.commute)
  note b = ibuf_dynamic_wf[OF dy]
  have wp: "ib_wpos b = 0" using b by (auto simp: ibuf_content_def ibuf_wf_def)
  have "\<exists>b' w'. imsg_create K ib type peerid pid (of_nat (length data)) w = (Some b', w')"
  proof -
    have "imsg_add K b (enc_hdr h) w1 \<noteq> (- 1, x)" for h x
      using imsg_add_ok[OF mem, of b "enc_hdr h" w1] b wp by (auto simp: imsg_consts)
    then show ?thesis
      using le dl' dy by (auto simp: imsg_create_def Let_def imsg_consts split: prod.splits)
  qed
  then obtain b' w' where cr: "imsg_create K ib type peerid pid (of_nat (length data)) w = (Some b', w')"
    by blast
  note b' = imsg_create_spec[OF cr]
  have "fst (imsg_add K b' data w') \<noteq> - 1"
    using imsg_add_ok[OF mem, of b' data w'] b' le by (auto simp: imsg_consts)
  with cr dl show ?thesis by (auto simp: imsg_compose_def Let_def split: prod.splits)
qed

end
