(* ===== verification/Imsg_Stream.thy ===== *)
theory Imsg_Stream
  imports Imsg "HOL-Library.Sublist"
begin

text \<open>
  Messages over a byte stream. \<open>frames\<close> is the abstract specification of the receiving side: it
  splits a byte sequence into messages. The receive loop that every dispatcher of the daemon
  runs (\<open>imsg_loop\<close>: \<open>for (;;) { if ((n = imsg_get(ibuf, &imsg)) == -1) ...; if (n == 0) break;
  ... }\<close>) implements it, whatever the fragmentation of the stream, and always leaves room in the
  read buffer. With the FIFO contract of the write queue this gives the end-to-end property.
\<close>

section \<open>Abstract framing\<close>

datatype frame_result = Need | Bad | Got imsg_hdr "byte list" "byte list"

definition frame :: "byte list \<Rightarrow> frame_result" where
  "frame s =
     (if length s < IMSG_HEADER_SIZE then Need
      else let h = dec_hdr s; n = unat (hdr_len h) in
        if n < IMSG_HEADER_SIZE \<or> n > MAX_IMSGSIZE then Bad
        else if n > length s then Need
        else Got h (take (n - IMSG_HEADER_SIZE) (drop IMSG_HEADER_SIZE s)) (drop n s))"

lemma frame_Got_length: "frame s = Got h d r \<Longrightarrow> length r < length s"
  by (auto simp: frame_def Let_def imsg_consts split: if_splits)

function frames :: "byte list \<Rightarrow> (imsg_hdr \<times> byte list) list \<times> byte list \<times> bool" where
  "frames s =
     (case frame s of
        Need \<Rightarrow> ([], s, False)
      | Bad \<Rightarrow> ([], s, True)
      | Got h d r \<Rightarrow> (case frames r of (ms, t, bad) \<Rightarrow> ((h, d) # ms, t, bad)))"
  by pat_completeness auto
termination
  by (relation "measure length") (auto dest: frame_Got_length)

declare frames.simps [simp del]

lemma dec_hdr_append: "length s \<ge> IMSG_HEADER_SIZE \<Longrightarrow> dec_hdr (s @ t) = dec_hdr s"
proof -
  assume "length s \<ge> IMSG_HEADER_SIZE"
  then have len: "length s \<ge> 16" by (simp add: imsg_consts)
  have u32: "length x \<ge> 4 \<Longrightarrow> un_le32 (x @ t) = un_le32 x" for x
    by (cases x rule: un_le32.cases) auto
  have u16: "length x \<ge> 2 \<Longrightarrow> un_le16 (x @ t) = un_le16 x" for x
    by (cases x rule: un_le16.cases) auto
  show ?thesis using len by (simp add: dec_hdr_def u32 u16)
qed

lemma frame_append:
  "frame s = Got h d r \<Longrightarrow> frame (s @ t) = Got h d (r @ t)"
  "frame s = Bad \<Longrightarrow> frame (s @ t) = Bad"
  by (auto simp: frame_def Let_def dec_hdr_append imsg_consts split: if_splits)

text \<open>Framing does not depend on how the stream was cut.\<close>

lemma frames_append:
  "frames s = (ms, r, False) \<Longrightarrow>
     frames (s @ t) = (case frames (r @ t) of (ms', r', b) \<Rightarrow> (ms @ ms', r', b))"
proof (induction s arbitrary: ms r rule: frames.induct)
  case (1 s)
  show ?case
  proof (cases "frame s")
    case Need
    with 1(2) show ?thesis by (auto simp: frames.simps[of s])
  next
    case Bad
    with 1(2) show ?thesis by (simp add: frames.simps[of s])
  next
    case (Got h d u)
    with 1(2) obtain ms' where ms': "frames u = (ms', r, False)" "ms = (h, d) # ms'"
      by (auto simp: frames.simps[of s] split: prod.splits)
    from 1(1)[OF Got ms'(1)] ms' frame_append(1)[OF Got] show ?thesis
      by (auto simp: frames.simps[of "s @ t"] split: prod.splits)
  qed
qed

lemma frames_append_bad:
  "frames s = (ms, r, True) \<Longrightarrow> frames (s @ t) = (ms, r @ t, True)"
proof (induction s arbitrary: ms r rule: frames.induct)
  case (1 s)
  show ?case
  proof (cases "frame s")
    case Need
    with 1(2) show ?thesis by (simp add: frames.simps[of s])
  next
    case Bad
    with 1(2) frame_append(2)[OF Bad, of t] show ?thesis
      by (auto simp: frames.simps[of s] frames.simps[of "r @ t"])
  next
    case (Got h d u)
    with 1(2) obtain ms' where ms': "frames u = (ms', r, True)" "ms = (h, d) # ms'"
      by (auto simp: frames.simps[of s] split: prod.splits)
    from 1(1)[OF Got ms'(1)] ms' frame_append(1)[OF Got] show ?thesis
      by (auto simp: frames.simps[of "s @ t"] split: prod.splits)
  qed
qed

lemma frames_rest_small: "frames s = (ms, r, False) \<Longrightarrow> length r < MAX_IMSGSIZE"
proof (induction s arbitrary: ms r rule: frames.induct)
  case (1 s)
  then show ?case
    by (cases "frame s")
       (auto simp: frames.simps[of s] frame_def Let_def imsg_consts split: prod.splits if_splits)
qed

text \<open>Encoded messages are framed back to themselves.\<close>

definition msg_ok :: "imsg_hdr \<times> byte list \<Rightarrow> bool" where
  "msg_ok m \<longleftrightarrow> unat (hdr_len (fst m)) = IMSG_HEADER_SIZE + length (snd m) \<and>
     IMSG_HEADER_SIZE + length (snd m) \<le> MAX_IMSGSIZE"

definition enc_msg :: "imsg_hdr \<times> byte list \<Rightarrow> byte list" where
  "enc_msg m = enc_hdr (fst m) @ snd m"

lemma frame_enc_msg: "msg_ok m \<Longrightarrow> frame (enc_msg m @ t) = Got (fst m) (snd m) t"
  by (simp add: msg_ok_def enc_msg_def frame_def Let_def imsg_consts)

lemma frames_enc: "list_all msg_ok ms \<Longrightarrow>
   frames (concat (map enc_msg ms) @ t) = (case frames t of (ms', r, b) \<Rightarrow> (ms @ ms', r, b))"
  by (induction ms) (auto simp: frames.simps[of "_ @ _"] frame_enc_msg split: prod.splits)

lemma frames_Nil [simp]: "frames [] = ([], [], False)"
  by (simp add: frames.simps[of "[]"] frame_def imsg_consts)

lemma frames_prefix:
  assumes "prefix D (concat (map enc_msg ms))" "list_all msg_ok ms" "frames D = (ms', r, b)"
  shows "\<not> b \<and> prefix ms' ms"
proof -
  obtain t where t: "concat (map enc_msg ms) = D @ t" using assms(1) by (auto simp: prefix_def)
  have all: "frames (D @ t) = (ms, [], False)"
    using frames_enc[OF assms(2), of "[]"] t by simp
  show ?thesis
  proof (cases b)
    case True
    then show ?thesis using assms(3) all frames_append_bad[of D ms' r t] by simp
  next
    case False
    then show ?thesis
      using assms(3) all frames_append[of D ms' r t] by (auto simp: prefix_def split: prod.splits)
  qed
qed

section \<open>The receive loop\<close>

lemma imsg_get_decreases:
  "imsg_get K ib w = (n, m, ib', w') \<Longrightarrow> n \<noteq> 0 \<Longrightarrow> n \<noteq> - 1 \<Longrightarrow> r_wpos (im_r ib') < r_wpos (im_r ib)"
  by (auto simp: imsg_get_def Let_def imsg_get_fd_def imsg_consts
      split: if_splits option.splits prod.splits list.splits)

lemma andthen_cong [fundef_cong]:
  "m = m' \<Longrightarrow> (\<And>a w. m' = Ok a w \<Longrightarrow> f a w = f' a w) \<Longrightarrow> andthen m f = andthen m' f'"
  by (cases m) auto

function imsg_loop ::
  "kernel \<Rightarrow> (imsg \<Rightarrow> 's \<Rightarrow> world \<Rightarrow> 's outcome) \<Rightarrow> imsgbuf \<Rightarrow> 's \<Rightarrow> world \<Rightarrow>
   (int \<times> imsgbuf \<times> 's) outcome" where
  "imsg_loop K f ib s w =
     (case imsg_get K ib w of
        (n, m, ib1, w1) \<Rightarrow>
          if n = - 1 then Ok (- 1, ib1, s) w1
          else if n = 0 then Ok (0, ib1, s) w1
          else andthen (f (the m) s w1) (\<lambda>s' w2. imsg_loop K f ib1 s' w2))"
  by pat_completeness auto
termination
  by (relation "measure (\<lambda>(K, f, ib, s, w). r_wpos (im_r ib))")
     (auto dest!: imsg_get_decreases[OF sym])

declare imsg_loop.simps [simp del]

text \<open>\<open>imsg_get\<close> implements \<open>frame\<close>.\<close>

lemma imsg_get_frame:
  assumes wf: "imsgbuf_wf ib"
  shows "case frame (r_buf (im_r ib)) of
      Need \<Rightarrow> imsg_get K ib w = (0, None, ib, w)
    | Bad \<Rightarrow> imsg_get K ib w = (- 1, None, ib, set_errno ERANGE w)
    | Got h d r \<Rightarrow>
        (case malloc K (length d) w of
           (None, w1) \<Rightarrow> \<exists>ib'. imsg_get K ib w = (- 1, None, ib', w1)
         | (Some _, w1) \<Rightarrow> \<exists>f ib'. imsg_get K ib w =
             (int (IMSG_HEADER_SIZE + length d), Some \<lparr>msg_hdr = h, msg_fd = f, msg_data = d\<rparr>, ib', w1) \<and>
             r_buf (im_r ib') = r \<and> imsgbuf_wf ib' \<and> im_w ib' = im_w ib \<and> im_fd ib' = im_fd ib \<and>
             im_pid ib' = im_pid ib)"
proof -
  let ?r = "im_r ib"
  let ?h = "dec_hdr (r_buf ?r)"
  let ?n = "unat (hdr_len ?h)"
  have len: "r_wpos ?r = length (r_buf ?r)" "length (r_buf ?r) \<le> IBUF_READ_SIZE"
    using wf by (simp_all add: imsgbuf_wf_def)
  consider "length (r_buf ?r) < IMSG_HEADER_SIZE"
    | "length (r_buf ?r) \<ge> IMSG_HEADER_SIZE" "?n < IMSG_HEADER_SIZE \<or> ?n > MAX_IMSGSIZE"
    | "length (r_buf ?r) \<ge> IMSG_HEADER_SIZE" "\<not> (?n < IMSG_HEADER_SIZE \<or> ?n > MAX_IMSGSIZE)"
      "?n > length (r_buf ?r)"
    | "length (r_buf ?r) \<ge> IMSG_HEADER_SIZE" "\<not> (?n < IMSG_HEADER_SIZE \<or> ?n > MAX_IMSGSIZE)"
      "?n \<le> length (r_buf ?r)"
    by linarith
  then show ?thesis
  proof cases
    case 4
    obtain x w1 where m: "malloc K (?n - IMSG_HEADER_SIZE) w = (x, w1)" by fastforce
    have fr: "frame (r_buf ?r) = Got ?h (take (?n - IMSG_HEADER_SIZE) (drop IMSG_HEADER_SIZE (r_buf ?r)))
        (drop ?n (r_buf ?r))"
      using 4 by (simp add: frame_def Let_def)
    have ld: "length (take (?n - IMSG_HEADER_SIZE) (drop IMSG_HEADER_SIZE (r_buf ?r))) =
        ?n - IMSG_HEADER_SIZE" using 4 by simp
    show ?thesis
      using 4 wf m len unfolding fr frame_result.case ld
      by (auto simp: imsg_get_def Let_def imsg_get_fd_def imsgbuf_wf_def
          split: option.splits list.splits if_splits)
  qed (simp_all add: frame_def imsg_get_def Let_def len)
qed

section \<open>Rounds of receiving\<close>

text \<open>
  One round of a dispatcher: read from the socket, then take out every complete message.
  \<open>recv_rounds\<close> repeats it and collects the messages and the bytes the kernel delivered.
\<close>

definition collect :: "imsg \<Rightarrow> imsg list \<Rightarrow> world \<Rightarrow> imsg list outcome" where
  "collect m s w = Ok (s @ [m]) w"

fun recv_rounds ::
  "kernel \<Rightarrow> nat \<Rightarrow> imsgbuf \<Rightarrow> imsg list \<Rightarrow> byte list \<Rightarrow> world \<Rightarrow>
   (imsg list \<times> byte list \<times> imsgbuf \<times> world) option" where
  "recv_rounds K 0 ib ms D w = Some (ms, D, ib, w)"
| "recv_rounds K (Suc k) ib ms D w =
     (case imsg_read K ib w of
        (n, ib1, w1) \<Rightarrow>
          if n = - 1 \<or> n = 0 then None
          else (case imsg_loop K collect ib1 ms w1 of
             Ok (e, ib2, ms2) w2 \<Rightarrow>
               if e = - 1 then None
               else recv_rounds K k ib2 ms2 (D @ drop (r_wpos (im_r ib)) (r_buf (im_r ib1))) w2
           | _ \<Rightarrow> None))"

definition payload :: "imsg \<Rightarrow> imsg_hdr \<times> byte list" where
  "payload m = (msg_hdr m, msg_data m)"

text \<open>The loop returns; unless memory runs out it computes \<open>frames\<close> of the buffer.\<close>

lemma imsg_loop_collect:
  assumes "imsgbuf_wf ib"
  shows "\<exists>e ib' ms' w'. imsg_loop K collect ib ms w = Ok (e, ib', ms') w' \<and>
    (e \<noteq> - 1 \<longrightarrow> e = 0 \<and> imsgbuf_wf ib' \<and> im_w ib' = im_w ib \<and> (\<exists>ms1. ms' = ms @ ms1 \<and>
        frames (r_buf (im_r ib)) = (map payload ms1, r_buf (im_r ib'), False)))"
  using assms
proof (induction "r_buf (im_r ib)" arbitrary: ib ms w rule: frames.induct)
  case 1
  note spec = imsg_get_frame[OF 1(2), of K w]
  show ?case
  proof (cases "frame (r_buf (im_r ib))")
    case Need
    with spec 1(2) show ?thesis
      by (auto simp: imsg_loop.simps[of K collect ib] frames.simps[of "r_buf (im_r ib)"])
  next
    case Bad
    with spec show ?thesis by (auto simp: imsg_loop.simps[of K collect ib])
  next
    case (Got h d r)
    obtain x w1 where mal: "malloc K (length d) w = (x, w1)" by fastforce
    show ?thesis
    proof (cases x)
      case None
      with spec Got mal show ?thesis by (auto simp: imsg_loop.simps[of K collect ib])
    next
      case (Some y)
      with spec Got mal obtain f ib1 where
        g: "imsg_get K ib w = (int (IMSG_HEADER_SIZE + length d),
              Some \<lparr>msg_hdr = h, msg_fd = f, msg_data = d\<rparr>, ib1, w1)"
        and ib1: "r = r_buf (im_r ib1)" "imsgbuf_wf ib1" "im_w ib1 = im_w ib"
        by auto
      let ?m = "\<lparr>msg_hdr = h, msg_fd = f, msg_data = d\<rparr>"
      have step: "imsg_loop K collect ib ms w = imsg_loop K collect ib1 (ms @ [?m]) w1"
        using g by (simp add: imsg_loop.simps[of K collect ib] collect_def imsg_consts)
      from 1(1)[OF Got[unfolded ib1(1)] ib1(2), of "ms @ [?m]" w1] obtain e ib' ms' w' where
        IH: "imsg_loop K collect ib1 (ms @ [?m]) w1 = Ok (e, ib', ms') w'"
          "e \<noteq> - 1 \<longrightarrow> e = 0 \<and> imsgbuf_wf ib' \<and> im_w ib' = im_w ib1 \<and> (\<exists>ms1. ms' = (ms @ [?m]) @ ms1 \<and>
            frames (r_buf (im_r ib1)) = (map payload ms1, r_buf (im_r ib'), False))"
        by blast
      have "e \<noteq> - 1 \<longrightarrow> e = 0 \<and> imsgbuf_wf ib' \<and> im_w ib' = im_w ib \<and> (\<exists>ms1. ms' = ms @ ms1 \<and>
        frames (r_buf (im_r ib)) = (map payload ms1, r_buf (im_r ib'), False))"
      proof
        assume "e \<noteq> - 1"
        with IH(2) obtain ms1 where ms1: "ms' = (ms @ [?m]) @ ms1"
          "frames (r_buf (im_r ib1)) = (map payload ms1, r_buf (im_r ib'), False)"
          "e = 0" "imsgbuf_wf ib'" "im_w ib' = im_w ib1" by blast
        then have "frames (r_buf (im_r ib)) = (map payload (?m # ms1), r_buf (im_r ib'), False)"
          using Got ib1 by (simp add: frames.simps[of "r_buf (im_r ib)"] payload_def)
        with ms1 ib1 show "e = 0 \<and> imsgbuf_wf ib' \<and> im_w ib' = im_w ib \<and> (\<exists>ms1. ms' = ms @ ms1 \<and>
            frames (r_buf (im_r ib)) = (map payload ms1, r_buf (im_r ib'), False))"
          by (intro conjI exI[of _ "?m # ms1"]) simp_all
      qed
      with step IH(1) show ?thesis by simp
    qed
  qed
qed

lemma recv_rounds_frames:
  assumes "imsgbuf_wf ib" "recv_rounds K k ib ms D w = Some (ms', D', ib', w')"
    and "frames S = (map payload ms, r_buf (im_r ib), False)"
  shows "\<exists>E. D' = D @ E \<and> imsgbuf_wf ib' \<and>
     frames (S @ E) = (map payload ms', r_buf (im_r ib'), False)"
  using assms
proof (induction k arbitrary: ib ms D w S)
  case 0
  then show ?case by auto
next
  case (Suc k)
  obtain n ib1 w1 where rd: "imsg_read K ib w = (n, ib1, w1)" by (metis prod_cases3)
  have n: "n \<noteq> - 1" "n \<noteq> 0" using Suc.prems(2) rd by (auto split: if_splits)
  from imsg_read_spec[OF Suc.prems(1) rd] obtain bs where
    wf1: "imsgbuf_wf ib1" and bs: "r_buf (im_r ib1) = r_buf (im_r ib) @ bs" by blast
  from imsg_loop_collect[OF wf1, of K ms w1] obtain e ib2 ms2 w2 where
    lp: "imsg_loop K collect ib1 ms w1 = Ok (e, ib2, ms2) w2"
    and sp: "e \<noteq> - 1 \<longrightarrow> e = 0 \<and> imsgbuf_wf ib2 \<and> (\<exists>m. ms2 = ms @ m \<and>
       frames (r_buf (im_r ib1)) = (map payload m, r_buf (im_r ib2), False))" by blast
  have e: "e \<noteq> - 1" and rec:
    "recv_rounds K k ib2 ms2 (D @ drop (r_wpos (im_r ib)) (r_buf (im_r ib1))) w2 = Some (ms', D', ib', w')"
    using Suc.prems(2) rd n lp by (auto split: if_splits)
  have dr: "drop (r_wpos (im_r ib)) (r_buf (im_r ib1)) = bs"
    using Suc.prems(1) bs by (simp add: imsgbuf_wf_def)
  from sp e obtain m where m: "ms2 = ms @ m" "imsgbuf_wf ib2"
    "frames (r_buf (im_r ib) @ bs) = (map payload m, r_buf (im_r ib2), False)" using bs by auto
  have "frames (S @ bs) = (map payload ms2, r_buf (im_r ib2), False)"
    using frames_append[OF Suc.prems(3), of bs] m by simp
  from Suc.IH[OF m(2) rec this] show ?case using dr by auto
qed

section \<open>The sending side\<close>

lemma msgbuf_drain_nonempty:
  assumes "\<forall>b\<in>set (mb_bufs m). ibuf_wf b \<and> ibuf_iov b \<noteq> []" "msgbuf_drain m n w = (m', w')"
  shows "(\<forall>b\<in>set (mb_bufs m'). ibuf_iov b \<noteq> []) \<and> length (mb_bufs m') \<le> length (mb_bufs m)"
  using assms
proof (induction m n w arbitrary: m' w' rule: msgbuf_drain.induct)
  case (1 m n w)
  show ?case
  proof (cases "mb_bufs m")
    case Nil
    with 1(2,3) show ?thesis by (auto simp: msgbuf_drain.simps[of m])
  next
    case (Cons b rest)
    show ?thesis
    proof (cases "n > 0 \<and> ib_rpos b + n \<ge> ib_wpos b")
      case True
      then have t: "n > 0" "ib_rpos b + n \<ge> ib_wpos b" by auto
      obtain m1 w1 where dq: "ibuf_dequeue m b w = (m1, w1)" by fastforce
      note d = ibuf_dequeue_head[OF Cons dq]
      have rec: "msgbuf_drain m1 (n - (ib_wpos b - ib_rpos b)) w1 = (m', w')"
        using 1(3) Cons t dq by (simp add: msgbuf_drain.simps[of m])
      have "\<forall>b\<in>set (mb_bufs m1). ibuf_wf b \<and> ibuf_iov b \<noteq> []" using d Cons 1(2) by simp
      from 1(1)[OF Cons t dq[symmetric] this rec] d Cons show ?thesis by simp
    next
      case False
      have "ib_rpos b + n < ib_wpos b \<Longrightarrow> ibuf_wf b \<Longrightarrow> ibuf_iov (b\<lparr>ib_rpos := ib_rpos b + n\<rparr>) \<noteq> []"
        by (auto simp: ibuf_iov_def ibuf_wf_def)
      with False 1(2,3) Cons show ?thesis
        by (auto simp: msgbuf_drain.simps[of m] split: if_splits)
    qed
  qed
qed

lemma msgbuf_write_nonempty:
  assumes "\<forall>b\<in>set (mb_bufs m). ibuf_wf b \<and> ibuf_iov b \<noteq> []" "msgbuf_write K m w = (r, m', w')"
  shows "(\<forall>b\<in>set (mb_bufs m'). ibuf_iov b \<noteq> []) \<and> length (mb_bufs m') \<le> length (mb_bufs m)"
proof -
  have upd: "\<forall>b\<in>set ((mb_bufs m)[k := (mb_bufs m ! k)\<lparr>ib_fd := - 1\<rparr>]). ibuf_wf b \<and> ibuf_iov b \<noteq> []"
    if "k < length (mb_bufs m)" for k
    using assms(1) that set_update_subset_insert[of "mb_bufs m" k] by fastforce
  obtain v p where iov: "msgbuf_write_iov 0 (mb_bufs m) = (v, p)" by fastforce
  have pk: "p = Some k \<Longrightarrow> k < length (mb_bufs m)" for k
    using msgbuf_write_iov_spec[OF iov] by fastforce
  show ?thesis
    using assms
    by (auto simp: msgbuf_write_def iov Let_def split: option.splits prod.splits if_splits
        dest!: msgbuf_drain_nonempty[rotated] dest: upd[OF pk])
qed

lemma imsg_write_wf:
  assumes "imsgbuf_wf ib" "msgbuf_write K (im_w ib) w = (r, m', w')"
  shows "imsgbuf_wf (ib\<lparr>im_w := m'\<rparr>)"
  using msgbuf_write_spec[OF _ assms(2)] msgbuf_write_nonempty[OF _ assms(2)] assms(1)
  by (auto simp: imsgbuf_wf_def msgbuf_wf_def)

text \<open>A sender composes messages and writes in any order; \<open>sender_run\<close> collects what it
  composed and the bytes the kernel accepted.\<close>

datatype sender_op = Compose u32 u32 int "byte list" | Write

fun sender_run ::
  "kernel \<Rightarrow> imsgbuf \<Rightarrow> sender_op list \<Rightarrow> world \<Rightarrow>
   (imsg_hdr \<times> byte list) list \<times> byte list \<times> imsgbuf \<times> world" where
  "sender_run K ib [] w = ([], [], ib, w)"
| "sender_run K ib (Compose ty peer pid d # ops) w =
     (case imsg_compose K ib ty peer pid (- 1) d w of
        (r, ib1, w1) \<Rightarrow> (case sender_run K ib1 ops w1 of
           (ms, S, ib2, w2) \<Rightarrow>
             (if r = 1 then (the_hdr ib ty peer pid (- 1) (length d), d) # ms else ms, S, ib2, w2)))"
| "sender_run K ib (Write # ops) w =
     (case msgbuf_write K (im_w ib) w of
        (r, m, w1) \<Rightarrow> (case sender_run K (ib\<lparr>im_w := m\<rparr>) ops w1 of
           (ms, S, ib2, w2) \<Rightarrow>
             (ms, take (length (pending (im_w ib)) - length (pending m)) (pending (im_w ib)) @ S, ib2, w2)))"

lemma msg_ok_the_hdr:
  "IMSG_HEADER_SIZE + length d \<le> MAX_IMSGSIZE \<Longrightarrow> msg_ok (the_hdr ib ty pe pid fd (length d), d)"
  by (simp add: msg_ok_def the_hdr_def imsg_consts unat_of_nat take_bit_nat_eq_self unat_word_ariths)

lemma sender_run_stream:
  assumes "imsgbuf_wf ib" "\<And>ty pe pid d. Compose ty pe pid d \<in> set ops \<Longrightarrow> length d < 2 ^ 16"
    and "sender_run K ib ops w = (ms, S, ib', w')"
  shows "imsgbuf_wf ib' \<and> list_all msg_ok ms \<and>
     pending (im_w ib) @ concat (map enc_msg ms) = S @ pending (im_w ib')"
  using assms
proof (induction K ib ops w arbitrary: ms S rule: sender_run.induct)
  case (1 K ib w)
  then show ?case by simp
next
  case (2 K ib ty peer pid d ops w)
  obtain r ib1 w1 where c: "imsg_compose K ib ty peer pid (- 1) d w = (r, ib1, w1)"
    by (metis prod_cases3)
  obtain ms1 where run: "sender_run K ib1 ops w1 = (ms1, S, ib', w')"
    and ms: "ms = (if r = 1 then (the_hdr ib ty peer pid (- 1) (length d), d) # ms1 else ms1)"
    using 2(4) c by (auto split: prod.splits)
  have len: "length d < 2 ^ 16" using 2(3)[of ty peer pid d] by simp
  have wf1: "imsgbuf_wf ib1" using imsg_compose_wf[OF 2(2) len c] .
  have IH: "imsgbuf_wf ib' \<and> list_all msg_ok ms1 \<and>
      pending (im_w ib1) @ concat (map enc_msg ms1) = S @ pending (im_w ib')"
    using 2(1)[OF c[symmetric] refl wf1 _ run] 2(3) by auto
  from imsg_compose_spec[OF len c] IH ms show ?case
    by (auto simp: msg_ok_the_hdr enc_msg_def[of "(h, d)" for h] pending_ibuf_enqueue)
next
  case (3 K ib ops w)
  obtain r m w1 where c: "msgbuf_write K (im_w ib) w = (r, m, w1)" by (metis prod_cases3)
  obtain S1 where run: "sender_run K (ib\<lparr>im_w := m\<rparr>) ops w1 = (ms, S1, ib', w')"
    and S: "S = take (length (pending (im_w ib)) - length (pending m)) (pending (im_w ib)) @ S1"
    using 3(4) c by (auto split: prod.splits)
  have wf1: "imsgbuf_wf (ib\<lparr>im_w := m\<rparr>)" using imsg_write_wf[OF 3(2) c] .
  have IH: "imsgbuf_wf ib' \<and> list_all msg_ok ms \<and>
      pending m @ concat (map enc_msg ms) = S1 @ pending (im_w ib')"
    using 3(1)[OF c[symmetric] refl wf1 _ run] 3(3) by auto
  from 3(2) have "msgbuf_wf (im_w ib)" by (simp add: imsgbuf_wf_def)
  from msgbuf_write_spec[OF this c] obtain n bs where
    n: "n \<le> length bs" "pending m = drop n (pending (im_w ib))"
      "pending (im_w ib) = bs @ drop (length bs) (pending (im_w ib))" by blast
  have "n \<le> length (pending (im_w ib))"
    using n(1,3) by (metis le_trans length_append le_add1)
  then have "take (length (pending (im_w ib)) - length (pending m)) (pending (im_w ib)) @ pending m =
      pending (im_w ib)" using n(2) by simp
  with IH S show ?case by (metis append_assoc)
qed

section \<open>Flushing\<close>

lemma msgbuf_write_progress:
  assumes wf: "imsgbuf_wf ib" and ne: "mb_bufs (im_w ib) \<noteq> []"
    and ker: "\<And>t. \<exists>n>0. k_send K t = Inr n"
  shows "\<exists>m' w'. msgbuf_write K (im_w ib) w = (0, m', w') \<and> length (pending m') < length (pending (im_w ib))"
proof -
  let ?m = "im_w ib"
  have mwf: "msgbuf_wf ?m" and nonempty: "\<forall>b\<in>set (mb_bufs ?m). ibuf_iov b \<noteq> []"
    using wf by (auto simp: imsgbuf_wf_def)
  obtain v p where iov: "msgbuf_write_iov 0 (mb_bufs ?m) = (v, p)" by fastforce
  from msgbuf_write_iov_spec[OF iov] ne obtain k where k: "v = map ibuf_iov (take k (mb_bufs ?m))" "k > 0"
    by (auto simp: IOV_MAX_def)
  then have v: "concat v \<noteq> []" using ne nonempty by (cases "mb_bufs ?m"; cases k) auto
  define c where "c = (case p of None \<Rightarrow> None
    | Some k \<Rightarrow> if ib_fd (mb_bufs ?m ! k) \<noteq> - 1 then Some (ib_fd (mb_bufs ?m ! k)) else None)"
  obtain n0 where n0: "n0 > 0"
    "k_send K (EvSendmsg (mb_fd ?m) (concat v) c # trace w) = Inr n0" using ker by blast
  have sm: "sendmsg K (mb_fd ?m) (concat v) c w =
      (Some (min n0 (length (concat v))), emit (EvSendmsg (mb_fd ?m) (concat v) c) w)"
    using n0 by (simp add: sendmsg_def Let_def)
  let ?n = "min n0 (length (concat v))"
  have pos: "?n > 0" using n0(1) v by simp
  obtain m1 w2 where m1: "(case (p, c) of (Some k, Some f) \<Rightarrow>
        (?m\<lparr>mb_bufs := (mb_bufs ?m)[k := (mb_bufs ?m ! k)\<lparr>ib_fd := - 1\<rparr>]\<rparr>,
          close_fd f (emit (EvSendmsg (mb_fd ?m) (concat v) c) w))
      | _ \<Rightarrow> (?m, emit (EvSendmsg (mb_fd ?m) (concat v) c) w)) = (m1, w2)" by fastforce
  have "p = Some j \<Longrightarrow> j < length (mb_bufs ?m)" for j
    using msgbuf_write_iov_spec[OF iov] by fastforce
  with m1 have m1wf: "msgbuf_wf m1" "pending m1 = pending ?m"
    using mwf msgbuf_clear_fd[OF mwf] by (auto split: option.splits)
  obtain m' w' where dr: "msgbuf_drain m1 ?n w2 = (m', w')" by fastforce
  have "msgbuf_write K ?m w = (0, m', w')"
    using iov sm pos m1 dr by (auto simp: msgbuf_write_def Let_def c_def[symmetric] split: prod.splits)
  moreover have "length (pending m') < length (pending ?m)"
  proof -
    have "length (pending ?m) \<ge> length (concat v)"
      using pending_split[of ?m k] k by simp
    then have "length (pending ?m) > 0" using v by (cases "concat v") auto
    with msgbuf_drain_spec[OF m1wf(1) dr] m1wf pos show ?thesis by simp
  qed
  ultimately show ?thesis by blast
qed

lemma imsg_flush_terminates:
  assumes "imsgbuf_wf ib" "length (mb_bufs (im_w ib)) < 2 ^ 32" "\<And>t. \<exists>n>0. k_send K t = Inr n"
  shows "\<exists>ib' w'. imsg_flush K ib w = Some (0, ib', w') \<and> mb_bufs (im_w ib') = [] \<and> imsgbuf_wf ib'"
  using assms(1,2)
proof (induction "length (pending (im_w ib))" arbitrary: ib w rule: less_induct)
  case less
  show ?case
  proof (cases "mb_bufs (im_w ib) = []")
    case True
    with less.prems show ?thesis
      by (simp add: imsg_flush.simps[of K ib] imsgbuf_wf_def msgbuf_wf_def)
  next
    case False
    have q: "mb_queued (im_w ib) \<noteq> 0"
    proof
      assume "mb_queued (im_w ib) = 0"
      then have "(of_nat (length (mb_bufs (im_w ib))) :: u32) = 0"
        using less.prems(1) by (simp add: imsgbuf_wf_def msgbuf_wf_def)
      then have "unat (of_nat (length (mb_bufs (im_w ib))) :: u32) = 0" by simp
      then show False
        using less.prems(2) False by (simp add: unat_of_nat take_bit_nat_eq_self)
    qed
    from msgbuf_write_progress[OF less.prems(1) False assms(3)] obtain m' w1 where
      wr: "msgbuf_write K (im_w ib) w = (0, m', w1)"
      and lt: "length (pending m') < length (pending (im_w ib))" by blast
    have wf1: "imsgbuf_wf (ib\<lparr>im_w := m'\<rparr>)" using imsg_write_wf[OF less.prems(1) wr] .
    have len: "length (mb_bufs m') < 2 ^ 32"
      using msgbuf_write_nonempty[OF _ wr] less.prems by (auto simp: imsgbuf_wf_def msgbuf_wf_def)
    have "imsg_flush K ib w = imsg_flush K (ib\<lparr>im_w := m'\<rparr>) w1"
      using q wr by (subst imsg_flush.simps) simp
    with less.hyps[of "ib\<lparr>im_w := m'\<rparr>" w1] lt wf1 len show ?thesis by simp
  qed
qed

end
