(* ===== verification/Daemon_Log.thy ===== *)
theory Daemon_Log
  imports Sys_World
begin

text \<open>
  The logger of the daemon (\<open>ifconfigd/log.c\<close>). \<open>vfmt\<close> is the part of \<open>vfprintf\<close> the daemon's
  format strings use: \<open>%s\<close>, \<open>%d\<close>, the space flag, and a conversion character that is none of
  these, which the C library prints as itself. The lemmas show where a message goes and that
  the fatal variants never return.
\<close>

section \<open>Formatting\<close>

datatype carg = AS string | AI int

fun digits :: "nat \<Rightarrow> string" where
  "digits n = (if n < 10 then [char_of (48 + n)] else digits (n div 10) @ [char_of (48 + n mod 10)])"

declare digits.simps [simp del]

definition show_int :: "int \<Rightarrow> string" where
  "show_int i = (if i < 0 then ''-'' @ digits (nat (- i)) else digits (nat i))"

fun show_arg :: "carg list \<Rightarrow> string \<times> carg list" where
  "show_arg [] = ('''', [])"
| "show_arg (AS s # r) = (s, r)"
| "show_arg (AI i # r) = (show_int i, r)"

fun vfmt :: "string \<Rightarrow> carg list \<Rightarrow> string" and vconv :: "string \<Rightarrow> carg list \<Rightarrow> string" where
  "vfmt [] ap = []"
| "vfmt (c # cs) ap = (if c \<noteq> CHR ''%'' then c # vfmt cs ap else vconv cs ap)"
| "vconv [] ap = []"
| "vconv (c # cs) ap =
     (if c = CHR '' '' then vconv cs ap
      else if c = CHR ''s'' \<or> c = CHR ''d'' then
        (case show_arg ap of (t, ap') \<Rightarrow> t @ vfmt cs ap')
      else c # vfmt cs ap)"

section \<open>Operations\<close>

definition LOG_CRIT :: nat where "LOG_CRIT = 2"
definition LOG_INFO :: nat where "LOG_INFO = 6"
definition LOG_DEBUG :: nat where "LOG_DEBUG = 7"

definition log_init :: "int \<Rightarrow> world \<Rightarrow> world" where
  "log_init n_debug w =
     (let w1 = w\<lparr>debug := n_debug\<rparr>; w2 = (if debug w1 = 0 then emit EvOpenlog w1 else w1)
      in emit EvTzset w2)"

definition vlog :: "kernel \<Rightarrow> nat \<Rightarrow> string \<Rightarrow> carg list \<Rightarrow> world \<Rightarrow> world" where
  "vlog K pri fmt ap w =
     (if debug w \<noteq> 0 then
        (case alloc K (length fmt + 2) w of
           (False, w1) \<Rightarrow> emit (EvStderr ''\<newline>'') (emit (EvStderr (vfmt fmt ap)) w1)
         | (True, w1) \<Rightarrow> emit (EvStderr (vfmt (fmt @ ''\<newline>'') ap)) w1)
      else emit (EvSyslog pri (vfmt fmt ap)) w)"

definition logit :: "kernel \<Rightarrow> nat \<Rightarrow> string \<Rightarrow> carg list \<Rightarrow> world \<Rightarrow> world" where
  "logit K pri fmt ap w = vlog K pri fmt ap w"

definition log_warn :: "kernel \<Rightarrow> string option \<Rightarrow> carg list \<Rightarrow> world \<Rightarrow> world" where
  "log_warn K emsg ap w =
     (case emsg of
        None \<Rightarrow> logit K LOG_CRIT ''%s'' [AS (k_strerror K (errno w))] w
      | Some m \<Rightarrow>
          let nfmt = vfmt ''%s: %s'' [AS m, AS (k_strerror K (errno w))] in
          case alloc K (length nfmt + 1) w of
            (False, w1) \<Rightarrow>
              (let w2 = vlog K LOG_CRIT m ap w1
               in logit K LOG_CRIT ''%s'' [AS (k_strerror K (errno w2))] w2)
          | (True, w1) \<Rightarrow> vlog K LOG_CRIT nfmt ap w1)"

definition log_warnx :: "kernel \<Rightarrow> string \<Rightarrow> carg list \<Rightarrow> world \<Rightarrow> world" where
  "log_warnx K emsg ap w = vlog K LOG_CRIT emsg ap w"

definition log_info :: "kernel \<Rightarrow> string \<Rightarrow> carg list \<Rightarrow> world \<Rightarrow> world" where
  "log_info K emsg ap w = vlog K LOG_INFO emsg ap w"

definition log_debug :: "kernel \<Rightarrow> string \<Rightarrow> carg list \<Rightarrow> world \<Rightarrow> world" where
  "log_debug K emsg ap w = (if debug w \<noteq> 0 then vlog K LOG_DEBUG emsg ap w else w)"

definition fatal :: "kernel \<Rightarrow> string option \<Rightarrow> world \<Rightarrow> 'a outcome" where
  "fatal K emsg w =
     Exit 1 (case emsg of
        None \<Rightarrow> logit K LOG_CRIT ''fatal: %s'' [AS (k_strerror K (errno w))] w
      | Some m \<Rightarrow>
          if errno w \<noteq> E0 then
            logit K LOG_CRIT ''fatal: %s: %s'' [AS m, AS (k_strerror K (errno w))] w
          else logit K LOG_CRIT ''fatal: %s'' [AS m] w)"

definition fatalx :: "kernel \<Rightarrow> string option \<Rightarrow> world \<Rightarrow> 'a outcome" where
  "fatalx K emsg w = fatal K emsg (set_errno E0 w)"

section \<open>What logging does\<close>

fun is_log_event :: "bool \<Rightarrow> event \<Rightarrow> bool" where
  "is_log_event to_stderr (EvStderr _) = to_stderr"
| "is_log_event to_stderr (EvSyslog _ _) = (\<not> to_stderr)"
| "is_log_event to_stderr (EvMalloc _) = True"
| "is_log_event to_stderr _ = False"

text \<open>A step that only logs: it prepends log events of one destination and keeps the level.\<close>

definition only_logs :: "world \<Rightarrow> world \<Rightarrow> bool" where
  "only_logs w w' \<longleftrightarrow> debug w' = debug w \<and>
     (\<exists>es. trace w' = es @ trace w \<and> list_all (is_log_event (debug w \<noteq> 0)) es)"

lemma only_logs_refl [simp, intro]: "only_logs w w"
  by (simp add: only_logs_def)

lemma only_logs_trans [trans]: "only_logs a b \<Longrightarrow> only_logs b c \<Longrightarrow> only_logs a c"
  by (fastforce simp: only_logs_def)

lemma only_logs_set_errno: "only_logs w (set_errno e w)"
  by (simp add: only_logs_def)

lemma only_logs_alloc: "only_logs w (snd (alloc K n w))"
  by (auto simp: only_logs_def alloc_trace)

lemma only_logs_alloc': "alloc K n w = (b, w') \<Longrightarrow> only_logs w w'"
  using only_logs_alloc[of w K n] by simp

lemma only_logs_stderr: "debug w \<noteq> 0 \<Longrightarrow> only_logs w (emit (EvStderr s) w)"
  by (simp add: only_logs_def)

lemma only_logs_syslog: "debug w = 0 \<Longrightarrow> only_logs w (emit (EvSyslog p s) w)"
  by (simp add: only_logs_def)

lemma only_logs_debug: "only_logs w w' \<Longrightarrow> debug w' = debug w"
  by (simp add: only_logs_def)

lemma vlog_only_logs: "only_logs w (vlog K pri fmt ap w)"
proof (cases "debug w = 0")
  case True
  then show ?thesis by (simp add: vlog_def only_logs_syslog)
next
  case False
  obtain b w1 where a: "alloc K (length fmt + 2) w = (b, w1)" by fastforce
  note l = only_logs_alloc'[OF a]
  have "debug w1 \<noteq> 0" using l False by (simp add: only_logs_debug)
  then have "only_logs w1 (vlog K pri fmt ap w)"
    using a False
    by (cases b) (auto simp: vlog_def only_logs_def)
  with l show ?thesis by (rule only_logs_trans)
qed

lemma vlog_vlog_only_logs: "only_logs w (vlog K p f a (vlog K' p' f' a' w))"
  using vlog_only_logs[THEN only_logs_trans, OF vlog_only_logs] .

lemma log_functions_only_log:
  "only_logs w (logit K pri fmt ap w)" "only_logs w (log_warnx K m ap w)"
  "only_logs w (log_info K m ap w)" "only_logs w (log_debug K m ap w)"
  by (simp_all add: logit_def log_warnx_def log_info_def log_debug_def vlog_only_logs)

lemma log_warn_only_logs: "only_logs w (log_warn K m ap w)"
  by (auto simp: log_warn_def logit_def Let_def split: option.split prod.split bool.split
      intro: vlog_only_logs only_logs_alloc'[THEN only_logs_trans] vlog_vlog_only_logs)

lemmas log_simps = log_functions_only_log log_warn_only_logs

lemma fatal_exits: "\<exists>w'. fatal K m w = Exit 1 w' \<and> only_logs w w'"
  by (auto simp: fatal_def logit_def vlog_only_logs split: option.split)

lemma fatalx_exits: "\<exists>w'. fatalx K m w = Exit 1 w' \<and> only_logs w w'"
  using fatal_exits[of K m "set_errno E0 w"]
  by (auto simp: fatalx_def intro: only_logs_trans[OF only_logs_set_errno])

end
