(* ===== verification/Imsgev.thy ===== *)
theory Imsgev
  imports Imsg_Stream Daemon_Log
begin

text \<open>
  Message buffers tied to the event loop: \<open>struct imsgev\<close>, the message types of
  \<open>ifconfigd.h\<close>, and \<open>imsg_event_add\<close> and \<open>imsg_compose_event\<close> of \<open>ifconfigd.c\<close>, which keep the
  registered events in step with the write queue. \<open>struct event\<close> itself belongs to the event
  library; registering and removing it are events of the trace.
\<close>

section \<open>Data\<close>

definition EV_READ :: nat where "EV_READ = 2"
definition EV_WRITE :: nat where "EV_WRITE = 4"
definition EV_PERSIST :: nat where "EV_PERSIST = 16"

lemmas ev_consts = EV_READ_def EV_WRITE_def EV_PERSIST_def

text \<open>The handlers an \<open>imsgev\<close> is set up with.\<close>

datatype iev_handler_fn =
    H_control_dispatch_imsg | H_ifconfigd_dispatch_parent | H_main_dispatch_ifconfigde

record imsgev =
  iev_ibuf :: imsgbuf
  iev_handler :: iev_handler_fn
  iev_events :: nat

definition sizeof_imsgev :: nat where "sizeof_imsgev = 65752"

datatype imsg_type =
    IMSG_NONE
  | IMSG_USE_ETHERNET | IMSG_USE_NETWORKS | IMSG_USE_WIRELESS
  | IMSG_SHOW_ETHERNET | IMSG_SHOW_NETWORKS | IMSG_SHOW_WIRELESS
  | IMSG_IFCONFIGD_MONITOR

fun imsg_code :: "imsg_type \<Rightarrow> nat" where
  "imsg_code IMSG_NONE = 0"
| "imsg_code IMSG_USE_ETHERNET = 1"
| "imsg_code IMSG_USE_NETWORKS = 2"
| "imsg_code IMSG_USE_WIRELESS = 3"
| "imsg_code IMSG_SHOW_ETHERNET = 4"
| "imsg_code IMSG_SHOW_NETWORKS = 5"
| "imsg_code IMSG_SHOW_WIRELESS = 6"
| "imsg_code IMSG_IFCONFIGD_MONITOR = 7"

text \<open>The enumerator a number stands for, if any: the \<open>switch\<close> on \<open>imsg.hdr.type\<close>.\<close>

definition imsg_type_of :: "u32 \<Rightarrow> imsg_type option" where
  "imsg_type_of t =
     find (\<lambda>c. imsg_code c = unat t)
       [IMSG_NONE, IMSG_USE_ETHERNET, IMSG_USE_NETWORKS, IMSG_USE_WIRELESS,
        IMSG_SHOW_ETHERNET, IMSG_SHOW_NETWORKS, IMSG_SHOW_WIRELESS, IMSG_IFCONFIGD_MONITOR]"

definition MAX_NETWORK_NAME_SIZE :: nat where "MAX_NETWORK_NAME_SIZE = 64"

section \<open>Operations\<close>

definition imsg_event_add :: "imsgev \<Rightarrow> world \<Rightarrow> imsgev \<times> world" where
  "imsg_event_add iev w =
     (let iev1 = iev\<lparr>iev_events := EV_READ\<rparr>;
          iev2 = (if mb_queued (im_w (iev_ibuf iev1)) \<noteq> 0
                  then iev1\<lparr>iev_events := iev_events iev1 OR EV_WRITE\<rparr> else iev1);
          w1 = emit (EvEventDel (im_fd (iev_ibuf iev2))) w
      in (iev2, emit (EvEventAdd (im_fd (iev_ibuf iev2)) (iev_events iev2)) w1))"

definition imsg_compose_event ::
  "kernel \<Rightarrow> imsgev \<Rightarrow> u16 \<Rightarrow> u32 \<Rightarrow> int \<Rightarrow> int \<Rightarrow> byte list \<Rightarrow> world \<Rightarrow> int \<times> imsgev \<times> world" where
  "imsg_compose_event K iev type peerid pid fd data w =
     (case imsg_compose K (iev_ibuf iev) (ucast type) peerid pid fd data w of
        (ret, ib, w1) \<Rightarrow>
          let iev1 = iev\<lparr>iev_ibuf := ib\<rparr> in
          if ret \<noteq> - 1 then (case imsg_event_add iev1 w1 of (iev2, w2) \<Rightarrow> (ret, iev2, w2))
          else (ret, iev1, w1))"

section \<open>Lemmas\<close>

text \<open>
  \<open>iev_sync\<close>: what is registered for the descriptor is reading, and writing exactly when
  something is queued.
\<close>

definition iev_sync :: "imsgev \<Rightarrow> world \<Rightarrow> bool" where
  "iev_sync iev w \<longleftrightarrow> iev_events iev = (if mb_queued (im_w (iev_ibuf iev)) \<noteq> 0 then 6 else 2) \<and>
     (\<exists>t. trace w = EvEventAdd (im_fd (iev_ibuf iev)) (iev_events iev) # t)"

lemma imsg_event_add_sync: "imsg_event_add iev w = (iev', w') \<Longrightarrow> iev_sync iev' w'"
  by (auto simp: imsg_event_add_def iev_sync_def Let_def ev_consts split: if_splits)

lemma imsg_event_add_frame:
  "imsg_event_add iev w = (iev', w') \<Longrightarrow>
     iev_ibuf iev' = iev_ibuf iev \<and> iev_handler iev' = iev_handler iev \<and> debug w' = debug w"
  by (auto simp: imsg_event_add_def Let_def split: if_splits)

lemma imsg_compose_event_spec:
  assumes "length data < 2 ^ 16" "imsg_compose_event K iev type peerid pid fd data w = (r, iev', w')"
  shows "iev_handler iev' = iev_handler iev \<and>
    (r = - 1 \<and> iev_ibuf iev' = iev_ibuf iev \<or>
     r = 1 \<and> IMSG_HEADER_SIZE + length data \<le> MAX_IMSGSIZE \<and> iev_sync iev' w' \<and>
     (\<exists>b. iev_ibuf iev' = (iev_ibuf iev)\<lparr>im_w := ibuf_enqueue (im_w (iev_ibuf iev)) b\<rparr> \<and>
        ibuf_wf b \<and> ib_fd b = fd \<and>
        ibuf_iov b = enc_hdr (the_hdr (iev_ibuf iev) (ucast type) peerid pid fd (length data)) @ data))"
proof -
  obtain ret ib w1 where c: "imsg_compose K (iev_ibuf iev) (ucast type) peerid pid fd data w = (ret, ib, w1)"
    by (metis prod_cases3)
  obtain iev2 w2 where e: "imsg_event_add (iev\<lparr>iev_ibuf := ib\<rparr>) w1 = (iev2, w2)" by fastforce
  from imsg_compose_spec[OF assms(1) c] imsg_event_add_sync[OF e] imsg_event_add_frame[OF e]
    assms(2) c e
  show ?thesis
    by (auto simp: imsg_compose_event_def Let_def split: if_splits)
qed

lemma imsg_compose_event_ok:
  assumes "k_mem K = (\<lambda>_. True)" "IMSG_HEADER_SIZE + length data \<le> MAX_IMSGSIZE"
  shows "fst (imsg_compose_event K iev type peerid pid fd data w) = 1"
  using imsg_compose_succeeds[OF assms, of "iev_ibuf iev" "ucast type" peerid pid fd w]
  by (auto simp: imsg_compose_event_def Let_def split: prod.splits)

lemma imsg_compose_event_wf:
  assumes "imsgbuf_wf (iev_ibuf iev)" "length data < 2 ^ 16"
    and "imsg_compose_event K iev type peerid pid fd data w = (r, iev', w')"
  shows "imsgbuf_wf (iev_ibuf iev')"
proof -
  obtain ret ib w1 where c: "imsg_compose K (iev_ibuf iev) (ucast type) peerid pid fd data w = (ret, ib, w1)"
    by (metis prod_cases3)
  from imsg_compose_wf[OF assms(1,2) c] assms(3) c show ?thesis
    by (auto simp: imsg_compose_event_def Let_def imsg_event_add_def split: if_splits)
qed

section \<open>Clients of the receive loop\<close>

text \<open>
  The contract between the receive loop and a message handler that always returns: the handler
  keeps its invariant and acts on an abstract state as \<open>act\<close>. Then a run of the loop acts as
  \<open>act\<close> over the messages that \<open>frames\<close> finds in the buffer, in order, and leaves what is
  left of the stream in the buffer.
\<close>

locale imsg_handler =
  fixes K :: kernel
    and handle :: "imsg \<Rightarrow> 's \<Rightarrow> world \<Rightarrow> 's outcome"
    and inv :: "'s \<Rightarrow> bool"
    and absf :: "'s \<Rightarrow> 'a"
    and act :: "imsg_hdr \<times> byte list \<Rightarrow> 'a \<Rightarrow> 'a"
  assumes handle_step: "k_mem K = (\<lambda>_. True) \<Longrightarrow> inv s \<Longrightarrow> length (msg_data m) < 2 ^ 16 \<Longrightarrow>
     \<exists>s' w'. handle m s w = Ok s' w' \<and> inv s' \<and> absf s' = act (payload m) (absf s)"
begin

lemma loop_acts:
  assumes mem: "k_mem K = (\<lambda>_. True)" and "imsgbuf_wf ib" "inv s"
    and "frames (r_buf (im_r ib)) = (ms, rest, bad)"
  shows "\<exists>ib' s' w'. imsg_loop K handle ib s w = Ok (if bad then - 1 else 0, ib', s') w' \<and>
     inv s' \<and> absf s' = fold act ms (absf s) \<and> r_buf (im_r ib') = rest \<and> imsgbuf_wf ib' \<and>
     im_w ib' = im_w ib \<and> im_fd ib' = im_fd ib \<and> im_pid ib' = im_pid ib"
  using assms(2-)
proof (induction "r_buf (im_r ib)" arbitrary: ib s w ms rule: frames.induct)
  case 1
  note spec = imsg_get_frame[OF 1(2), of K w]
  show ?case
  proof (cases "frame (r_buf (im_r ib))")
    case Need
    with spec 1(2-) show ?thesis
      by (auto simp: imsg_loop.simps[of K handle ib] frames.simps[of "r_buf (im_r ib)"])
  next
    case Bad
    with spec 1(2-) show ?thesis
      by (auto simp: imsg_loop.simps[of K handle ib] frames.simps[of "r_buf (im_r ib)"])
  next
    case (Got h d r)
    obtain y w1 where mal: "malloc K (length d) w = (Some y, w1)" using malloc_ok[OF mem] by blast
    with spec Got obtain f ib1 where
      g: "imsg_get K ib w = (int (IMSG_HEADER_SIZE + length d),
            Some \<lparr>msg_hdr = h, msg_fd = f, msg_data = d\<rparr>, ib1, w1)"
      and ib1: "r = r_buf (im_r ib1)" "imsgbuf_wf ib1" "im_w ib1 = im_w ib" "im_fd ib1 = im_fd ib"
        "im_pid ib1 = im_pid ib"
      by auto
    let ?m = "\<lparr>msg_hdr = h, msg_fd = f, msg_data = d\<rparr>"
    have "length (msg_data ?m) < 2 ^ 16"
      using Got unsigned_less[of "hdr_len (dec_hdr (r_buf (im_r ib)))"]
      by (auto simp: frame_def Let_def imsg_consts split: if_splits)
    from handle_step[OF mem 1(3) this, of w1] obtain s1 w2 where
      h: "handle ?m s w1 = Ok s1 w2" "inv s1" "absf s1 = act (h, d) (absf s)"
      by (auto simp: payload_def)
    obtain ms1 where ms1: "frames (r_buf (im_r ib1)) = (ms1, rest, bad)" "ms = (h, d) # ms1"
      using 1(4) Got ib1(1) by (auto simp: frames.simps[of "r_buf (im_r ib)"] split: prod.splits)
    have step: "imsg_loop K handle ib s w = imsg_loop K handle ib1 s1 w2"
      using g h by (simp add: imsg_loop.simps[of K handle ib] imsg_consts)
    from 1(1)[OF Got[unfolded ib1(1)] ib1(2) h(2) ms1(1), of w2] step ms1 h ib1 show ?thesis
      by auto
  qed
qed

end

text \<open>Whatever the handler and the memory: the loop keeps the buffer well-formed.\<close>

lemma imsg_get_wf:
  assumes "imsgbuf_wf ib" "imsg_get K ib w = (n, m, ib', w')"
  shows "imsgbuf_wf ib' \<and> im_w ib' = im_w ib \<and> im_fd ib' = im_fd ib \<and> im_pid ib' = im_pid ib"
  using assms
  by (auto simp: imsg_get_def Let_def imsg_get_fd_def imsgbuf_wf_def imsg_consts
      split: if_splits option.splits prod.splits list.splits)

lemma imsg_loop_inv:
  assumes "imsgbuf_wf ib" "P s" "imsg_loop K f ib s w = Ok (e, ib', s') w'"
    and "\<And>m s w s' w'. P s \<Longrightarrow> f m s w = Ok s' w' \<Longrightarrow> P s'"
  shows "P s' \<and> imsgbuf_wf ib' \<and> im_w ib' = im_w ib \<and> im_fd ib' = im_fd ib \<and> im_pid ib' = im_pid ib"
  using assms
proof (induction K f ib s w arbitrary: e ib' s' w' rule: imsg_loop.induct)
  case (1 K f ib s w)
  obtain n m ib1 w1 where g: "imsg_get K ib w = (n, m, ib1, w1)" by (metis prod_cases4)
  note ib1 = imsg_get_wf[OF 1(2) g]
  show ?case
  proof (cases "n = - 1 \<or> n = 0")
    case True
    with 1(3,4) g ib1 show ?thesis by (auto simp: imsg_loop.simps[of K f ib])
  next
    case False
    then obtain s1 w2 where h: "f (the m) s w1 = Ok s1 w2"
      and rec: "imsg_loop K f ib1 s1 w2 = Ok (e, ib', s') w'"
      using 1(4) g by (auto simp: imsg_loop.simps[of K f ib] andthen_Ok_iff)
    have "P s1" using 1(5)[OF 1(3) h] .
    from 1(1)[OF g[symmetric] refl refl _ _ h _ this rec 1(5)] False ib1 show ?thesis by auto
  qed
qed

text \<open>Collecting the messages is the simplest client.\<close>

interpretation coll: imsg_handler K collect "\<lambda>_. True" "map payload" "\<lambda>m s. s @ [m]" for K
  by unfold_locales (simp add: collect_def)

end
