(* ===== verification/Control.thy ===== *)
theory Control
  imports Imsgev
begin

text \<open>
  The control socket of the unprivileged engine (\<open>ifconfigd/control.c\<close>, \<open>control.h\<close>, and
  \<open>ifconfigde_imsg_compose_parent\<close> of \<open>ifconfigde.c\<close>): the listening socket, the list of client
  connections and the dispatcher that relays client requests to the privileged parent.
\<close>

section \<open>Data\<close>

datatype blockmodes = BM_NORMAL | BM_NONBLOCK

record ctl_conn =
  cc_iev :: imsgev

text \<open>The globals of the engine: \<open>control_state.fd\<close>, \<open>ctl_conns\<close> and \<open>iev_parent\<close>.\<close>

record engine =
  control_state_fd :: int
  ctl_conns :: "ctl_conn list"
  iev_parent :: imsgev

definition CONTROL_BACKLOG :: nat where "CONTROL_BACKLOG = 5"

definition sizeof_sun_path :: nat where "sizeof_sun_path = 104"

definition sizeof_ctl_conn :: nat where "sizeof_ctl_conn = 65768"

definition O_NONBLOCK :: int where "O_NONBLOCK = 4"

abbreviation conn_fd :: "ctl_conn \<Rightarrow> int" where
  "conn_fd c \<equiv> im_fd (iev_ibuf (cc_iev c))"

abbreviation conn_pid :: "ctl_conn \<Rightarrow> int" where
  "conn_pid c \<equiv> im_pid (iev_ibuf (cc_iev c))"

section \<open>The socket\<close>

definition session_socket_blockmode ::
  "kernel \<Rightarrow> int \<Rightarrow> blockmodes \<Rightarrow> world \<Rightarrow> unit outcome" where
  "session_socket_blockmode K fd bm w =
     (case sys_int K (EvFcntlGet fd) w of
        (flags, w1) \<Rightarrow>
          if flags = - 1 then fatal K (Some ''fcntl F_GETFL'') w1
          else let flags1 = (if bm = BM_NONBLOCK then flags OR O_NONBLOCK
                             else flags AND NOT O_NONBLOCK) in
            (case sys_int K (EvFcntlSet fd flags1) w1 of
               (flags2, w2) \<Rightarrow>
                 if flags2 = - 1 then fatal K (Some ''fcntl F_SETFL'') w2 else Ok () w2))"

text \<open>
  \<open>control_init\<close> returns its status and the descriptor it stores in \<open>control_state\<close>. The
  address holds the path as far as it fits (\<open>strlcpy\<close>). The masks are octal 0117 and 0660.
\<close>

definition control_init :: "kernel \<Rightarrow> string \<Rightarrow> world \<Rightarrow> (int \<times> int option) outcome" where
  "control_init K path w =
     (case sys_int K EvSocket w of (fd, w1) \<Rightarrow>
      if fd = - 1 then Ok (- 1, None) (log_warn K (Some ''control_init: socket'') [] w1)
      else case sys_ok K (EvUnlink path) w1 of (unl, w2) \<Rightarrow>
      if \<not> unl \<and> errno w2 \<noteq> ENOENT then
        Ok (- 1, None) (close_fd fd (log_warn K (Some ''control_init: unlink %s'') [AS path] w2))
      else case sys_int K (EvUmask 79) w2 of (old_umask, w3) \<Rightarrow>
      case sys_ok K (EvBind fd (take (sizeof_sun_path - 1) path)) w3 of (bnd, w4) \<Rightarrow>
      if \<not> bnd then
        Ok (- 1, None) (snd (sys_int K (EvUmask (nat old_umask))
          (close_fd fd (log_warn K (Some ''control_init: bind: %s'') [AS path] w4))))
      else case sys_int K (EvUmask (nat old_umask)) w4 of (_, w5) \<Rightarrow>
      case sys_ok K (EvChmod path 432) w5 of (chm, w6) \<Rightarrow>
      if \<not> chm then
        Ok (- 1, None) (snd (sys_ok K (EvUnlink path)
          (close_fd fd (log_warn K (Some ''control_init: chmod'') [] w6))))
      else andthen (session_socket_blockmode K fd BM_NONBLOCK w6) (\<lambda>_ w7. Ok (0, Some fd) w7))"

definition control_listen :: "kernel \<Rightarrow> int \<Rightarrow> world \<Rightarrow> int \<times> world" where
  "control_listen K fd w =
     (case sys_ok K (EvListen fd CONTROL_BACKLOG) w of (lst, w1) \<Rightarrow>
      if \<not> lst then (- 1, log_warn K (Some ''control_listen: listen'') [] w1)
      else (0, emit (EvEventAdd fd (EV_READ OR EV_PERSIST)) w1))"

definition control_cleanup :: "kernel \<Rightarrow> string option \<Rightarrow> world \<Rightarrow> world" where
  "control_cleanup K path w =
     (case path of None \<Rightarrow> w | Some p \<Rightarrow> snd (sys_ok K (EvUnlink p) w))"

section \<open>Connections\<close>

definition control_accept ::
  "kernel \<Rightarrow> int \<Rightarrow> ctl_conn list \<Rightarrow> world \<Rightarrow> ctl_conn list outcome" where
  "control_accept K listenfd conns w =
     (case sys_int K (EvAccept listenfd) w of (connfd, w1) \<Rightarrow>
      if connfd = - 1 then
        Ok conns (if errno w1 \<noteq> EAGAIN \<and> errno w1 \<noteq> EINTR
                  then log_warn K (Some ''control_accept: accept'') [] w1 else w1)
      else andthen (session_socket_blockmode K connfd BM_NONBLOCK w1) (\<lambda>_ w2.
        case alloc K sizeof_ctl_conn w2 of (got, w3) \<Rightarrow>
        if \<not> got then Ok conns (close_fd connfd (log_warn K (Some ''control_accept'') [] w3))
        else
          let c = \<lparr>cc_iev = \<lparr>iev_ibuf = imsg_init K connfd, iev_handler = H_control_dispatch_imsg,
                             iev_events = EV_READ\<rparr>\<rparr>
          in Ok (conns @ [c]) (emit (EvEventAdd (conn_fd c) (iev_events (cc_iev c))) w3)))"

fun control_connbyfd :: "int \<Rightarrow> ctl_conn list \<Rightarrow> ctl_conn option" where
  "control_connbyfd fd [] = None"
| "control_connbyfd fd (c # cs) = (if conn_fd c \<noteq> fd then control_connbyfd fd cs else Some c)"

fun control_connbypid :: "int \<Rightarrow> ctl_conn list \<Rightarrow> ctl_conn option" where
  "control_connbypid pid [] = None"
| "control_connbypid pid (c # cs) = (if conn_pid c \<noteq> pid then control_connbypid pid cs else Some c)"

definition control_close :: "kernel \<Rightarrow> int \<Rightarrow> ctl_conn list \<Rightarrow> world \<Rightarrow> ctl_conn list \<times> world" where
  "control_close K fd conns w =
     (case control_connbyfd fd conns of
        None \<Rightarrow> (conns, log_warn K (Some ''control_close: fd %d: not found'') [AI fd] w)
      | Some c \<Rightarrow>
          (case msgbuf_clear (im_w (iev_ibuf (cc_iev c))) w of
             (_, w1) \<Rightarrow>
               (remove1 c conns, close_fd (conn_fd c) (emit (EvEventDel (conn_fd c)) w1))))"

section \<open>Dispatching\<close>

definition ifconfigde_imsg_compose_parent ::
  "kernel \<Rightarrow> imsgev \<Rightarrow> u32 \<Rightarrow> int \<Rightarrow> byte list \<Rightarrow> world \<Rightarrow> int \<times> imsgev \<times> world" where
  "ifconfigde_imsg_compose_parent K iev type pid data w =
     imsg_compose_event K iev (ucast type) 0 pid (- 1) data w"

text \<open>
  The body of the \<open>switch\<close>. The payload passed on for \<open>IMSG_USE_ETHERNET\<close> has
  \<open>sizeof(imsg.data)\<close> bytes, the size of the pointer.
\<close>

definition control_handle_imsg :: "kernel \<Rightarrow> imsg \<Rightarrow> imsgev \<Rightarrow> world \<Rightarrow> imsgev outcome" where
  "control_handle_imsg K m iev w =
     (let type = hdr_type (msg_hdr m);
          relay = (\<lambda>d w. case ifconfigde_imsg_compose_parent K iev type 0 d w of (_, iev1, w1) \<Rightarrow> Ok iev1 w1)
      in case imsg_type_of type of
        Some IMSG_USE_ETHERNET \<Rightarrow>
          if unat (hdr_len (msg_hdr m)) \<noteq> IMSG_HEADER_SIZE + MAX_NETWORK_NAME_SIZE then
            Ok iev (log_warnx K ''ifconfigde use_ethernet: wrong imsg len'' [] w)
          else relay (take ptrsize (msg_data m)) w
      | Some IMSG_USE_NETWORKS \<Rightarrow> relay [] w
      | Some IMSG_USE_WIRELESS \<Rightarrow> relay [] w
      | Some IMSG_IFCONFIGD_MONITOR \<Rightarrow> relay [] (log_debug K ''IMSG_IFCONFIGD_MONITOR'' [] w)
      | Some IMSG_SHOW_WIRELESS \<Rightarrow>
          relay [] (log_warnx K ''catch IMSG_SHOW_WIRELESS %d'' [AI (k_getpid K)] w)
      | Some IMSG_SHOW_NETWORKS \<Rightarrow>
          Ok iev (log_warnx K ''catch IMSG_SHOW_NETWORKS %d'' [AI (k_getpid K)] w)
      | _ \<Rightarrow>
          Ok iev (log_debug K ''control_dispatch_imsg: error handling imsg %d'' [AI (sint type)] w))"

text \<open>Writing through the pointer \<open>c\<close>: the entry of the list it points to is replaced.\<close>

fun put_conn :: "int \<Rightarrow> imsgev \<Rightarrow> ctl_conn list \<Rightarrow> ctl_conn list" where
  "put_conn fd iev [] = []"
| "put_conn fd iev (c # cs) =
     (if conn_fd c \<noteq> fd then c # put_conn fd iev cs else c\<lparr>cc_iev := iev\<rparr> # cs)"

definition control_dispatch_imsg ::
  "kernel \<Rightarrow> int \<Rightarrow> nat \<Rightarrow> engine \<Rightarrow> world \<Rightarrow> engine outcome" where
  "control_dispatch_imsg K fd event st w =
     (let closing = (\<lambda>st w. case control_close K fd (ctl_conns st) w of
                       (cs, w') \<Rightarrow> Ok (st\<lparr>ctl_conns := cs\<rparr>) w');
          store = (\<lambda>iev st. st\<lparr>ctl_conns := put_conn fd iev (ctl_conns st)\<rparr>)
      in case control_connbyfd fd (ctl_conns st) of
        None \<Rightarrow> Ok st (log_warn K (Some ''control_dispatch_imsg: fd %d: not found'') [AI fd] w)
      | Some c \<Rightarrow>
          (case (if event AND EV_READ \<noteq> 0 then imsg_read K (iev_ibuf (cc_iev c)) w
                 else (1, iev_ibuf (cc_iev c), w)) of
             (n, ib1, w1) \<Rightarrow>
               let iev1 = (cc_iev c)\<lparr>iev_ibuf := ib1\<rparr>; st1 = store iev1 st in
               if n = - 1 \<or> n = 0 then closing st1 w1
               else case (if event AND EV_WRITE \<noteq> 0 then msgbuf_write K (im_w ib1) w1
                          else (0, im_w ib1, w1)) of
                 (r, m2, w2) \<Rightarrow>
                   let ib2 = ib1\<lparr>im_w := m2\<rparr>; iev2 = iev1\<lparr>iev_ibuf := ib2\<rparr>; st2 = store iev2 st1 in
                   if r = - 1 then closing st2 w2
                   else andthen (imsg_loop K (control_handle_imsg K) ib2 (iev_parent st2) w2)
                     (\<lambda>(e, ib3, par) w3.
                        let iev3 = iev2\<lparr>iev_ibuf := ib3\<rparr>;
                            st3 = (store iev3 st2)\<lparr>iev_parent := par\<rparr> in
                        if e = - 1 then closing st3 w3
                        else (case imsg_event_add iev3 w3 of
                           (iev4, w4) \<Rightarrow> Ok (store iev4 st3) w4))))"

definition control_imsg_relay ::
  "kernel \<Rightarrow> imsg \<Rightarrow> ctl_conn list \<Rightarrow> world \<Rightarrow> int \<times> ctl_conn list \<times> world" where
  "control_imsg_relay K m conns w =
     (case control_connbypid (sint (hdr_pid (msg_hdr m))) conns of
        None \<Rightarrow> (0, conns, w)
      | Some c \<Rightarrow>
          (case imsg_compose_event K (cc_iev c) (ucast (hdr_type (msg_hdr m))) 0
                  (sint (hdr_pid (msg_hdr m))) (- 1)
                  (take (unat (hdr_len (msg_hdr m)) - IMSG_HEADER_SIZE) (msg_data m)) w of
             (r, iev, w1) \<Rightarrow> (r, put_conn (conn_fd c) iev conns, w1)))"

section \<open>Tables searched by key\<close>

interpretation byfd: keyed_list conn_fd control_connbyfd
  by unfold_locales auto

interpretation bypid: keyed_list conn_pid control_connbypid
  by unfold_locales auto

lemma put_conn_fds [simp]:
  "im_fd (iev_ibuf iev) = fd \<Longrightarrow> map conn_fd (put_conn fd iev cs) = map conn_fd cs"
  by (induction cs) auto

lemma put_conn_look:
  "im_fd (iev_ibuf iev) = fd \<Longrightarrow>
   control_connbyfd k (put_conn fd iev cs) =
     (if k = fd then map_option (\<lambda>c. c\<lparr>cc_iev := iev\<rparr>) (control_connbyfd fd cs)
      else control_connbyfd k cs)"
  by (induction cs) auto

lemma put_conn_set: "c \<in> set (put_conn fd iev cs) \<Longrightarrow> c \<in> set cs \<or> cc_iev c = iev"
  by (induction cs) (auto split: if_splits)

lemma put_conn_put_conn [simp]:
  "im_fd (iev_ibuf iev) = fd \<Longrightarrow> put_conn fd iev' (put_conn fd iev cs) = put_conn fd iev' cs"
  by (induction cs) auto

section \<open>Closing a connection\<close>

lemma control_close_spec:
  assumes "distinct (map conn_fd cs)" "control_connbyfd fd cs = Some c"
    and "control_close K fd cs w = (cs', w')"
  shows "cs' = remove1 c cs \<and> control_connbyfd fd cs' = None \<and>
     (\<forall>k. k \<noteq> fd \<longrightarrow> control_connbyfd k cs' = control_connbyfd k cs) \<and>
     map conn_fd cs' = remove1 fd (map conn_fd cs) \<and>
     trace w' = [EvClose fd, EvEventDel fd] @
       rev (map EvClose (open_fds (mb_bufs (im_w (iev_ibuf (cc_iev c)))))) @ trace w"
proof -
  obtain m w1 where cl: "msgbuf_clear (im_w (iev_ibuf (cc_iev c))) w = (m, w1)" by fastforce
  have "conn_fd c = fd" using byfd.look_SomeD assms(2) by blast
  with msgbuf_clear_spec[OF cl] byfd.look_remove1[OF assms(1,2)] assms(2,3) cl show ?thesis
    by (auto simp: control_close_def)
qed

lemma control_close_subset: "control_close K fd cs w = (cs', w') \<Longrightarrow> set cs' \<subseteq> set cs"
  by (auto simp: control_close_def split: option.splits prod.splits dest: set_remove1_subset[THEN subsetD])

lemma control_close_distinct:
  assumes "distinct (map conn_fd cs)" "control_close K fd cs w = (cs', w')"
  shows "distinct (map conn_fd cs')"
proof (cases "control_connbyfd fd cs")
  case None
  with assms show ?thesis by (auto simp: control_close_def)
next
  case (Some c)
  from control_close_spec[OF assms(1) Some assms(2)] assms(1) show ?thesis
    by (metis distinct_remove1)
qed

section \<open>What is relayed\<close>

text \<open>
  The abstract behaviour of the dispatcher: the payload with which a client message is passed
  to the parent, if it is passed on at all.
\<close>

definition relay_of :: "imsg_hdr \<times> byte list \<Rightarrow> byte list option" where
  "relay_of m =
     (case imsg_type_of (hdr_type (fst m)) of
        Some IMSG_USE_ETHERNET \<Rightarrow>
          if unat (hdr_len (fst m)) = IMSG_HEADER_SIZE + MAX_NETWORK_NAME_SIZE
          then Some (take ptrsize (snd m)) else None
      | Some IMSG_USE_NETWORKS \<Rightarrow> Some []
      | Some IMSG_USE_WIRELESS \<Rightarrow> Some []
      | Some IMSG_IFCONFIGD_MONITOR \<Rightarrow> Some []
      | Some IMSG_SHOW_WIRELESS \<Rightarrow> Some []
      | _ \<Rightarrow> None)"

definition relay_hdr :: "int \<Rightarrow> u32 \<Rightarrow> nat \<Rightarrow> imsg_hdr" where
  "relay_hdr pid type n =
     \<lparr>hdr_type = type, hdr_len = of_nat (IMSG_HEADER_SIZE + n), hdr_flags = 0, hdr_peerid = 0,
      hdr_pid = word_of_int pid\<rparr>"

definition relay_bytes :: "int \<Rightarrow> imsg_hdr \<times> byte list \<Rightarrow> byte list" where
  "relay_bytes pid m =
     (case relay_of m of
        None \<Rightarrow> []
      | Some d \<Rightarrow> enc_msg (relay_hdr pid (hdr_type (fst m)) (length d), d))"

lemma imsg_type_of_code:
  assumes "imsg_type_of t = Some c"
  shows "unat t = imsg_code c"
proof -
  have "imsg_code c = unat t" using assms unfolding imsg_type_of_def find_Some_iff by blast
  then show ?thesis by simp
qed

lemma imsg_type_of_small: "imsg_type_of t = Some c \<Longrightarrow> unat t < 8"
  by (drule imsg_type_of_code) (cases c, simp_all)

lemma ucast_type_id:
  assumes "imsg_type_of t = Some c"
  shows "ucast (ucast t :: u16) = (t :: u32)"
proof -
  have "unat (ucast (ucast t :: u16) :: u32) = unat t"
    using imsg_type_of_small[OF assms]
    by (simp add: unsigned_ucast_eq unsigned_take_bit_eq take_bit_nat_eq_self)
  then show ?thesis by (simp add: word_unat_eq_iff)
qed

definition relay_inv :: "int \<Rightarrow> imsgev \<Rightarrow> bool" where
  "relay_inv pid iev \<longleftrightarrow> imsgbuf_wf (iev_ibuf iev) \<and> im_pid (iev_ibuf iev) = pid"

abbreviation queued_bytes :: "imsgev \<Rightarrow> byte list" where
  "queued_bytes iev \<equiv> pending (im_w (iev_ibuf iev))"

lemma compose_parent_relays:
  assumes mem: "k_mem K = (\<lambda>_. True)" and inv: "relay_inv pid iev" and len: "length d \<le> 64"
    and ty: "imsg_type_of type = Some c"
  shows "\<exists>iev' w'. ifconfigde_imsg_compose_parent K iev type 0 d w = (1, iev', w') \<and> relay_inv pid iev' \<and>
     queued_bytes iev' = queued_bytes iev @ enc_msg (relay_hdr pid type (length d), d)"
proof -
  obtain r iev' w' where c: "imsg_compose_event K iev (ucast type) 0 0 (- 1) d w = (r, iev', w')"
    by (metis prod_cases3)
  have l1: "length d < 2 ^ 16" and l2: "IMSG_HEADER_SIZE + length d \<le> MAX_IMSGSIZE"
    using len by (simp_all add: imsg_consts)
  have r: "r = 1" using imsg_compose_event_ok[OF mem l2] c by (metis fst_conv)
  have wf: "imsgbuf_wf (iev_ibuf iev')"
    using imsg_compose_event_wf[OF _ l1 c] inv by (simp add: relay_inv_def)
  from imsg_compose_event_spec[OF l1 c] r wf inv c show ?thesis
    by (auto simp: ifconfigde_imsg_compose_parent_def relay_inv_def pending_ibuf_enqueue
        enc_msg_def the_hdr_def relay_hdr_def ucast_type_id[OF ty])
qed

lemma control_handle_acts:
  assumes mem: "k_mem K = (\<lambda>_. True)" and inv: "relay_inv pid iev"
  shows "\<exists>iev' w'. control_handle_imsg K m iev w = Ok iev' w' \<and> relay_inv pid iev' \<and>
     queued_bytes iev' = queued_bytes iev @ relay_bytes pid (payload m)"
proof (cases "imsg_type_of (hdr_type (msg_hdr m))")
  case None
  with inv show ?thesis
    by (simp add: control_handle_imsg_def Let_def relay_bytes_def relay_of_def payload_def)
next
  case (Some c)
  note R = compose_parent_relays[OF mem inv _ Some]
  have t: "length (take ptrsize x) \<le> 64" for x :: "byte list" by (simp add: ptrsize_def)
  show ?thesis
    using inv R[OF t[of "msg_data m"], of w] R[of "[]" w] R[of "[]" "log_debug K ''IMSG_IFCONFIGD_MONITOR'' [] w"]
      R[of "[]" "log_warnx K ''catch IMSG_SHOW_WIRELESS %d'' [AI (k_getpid K)] w"] Some
    by (cases c)
       (auto simp: control_handle_imsg_def Let_def relay_bytes_def relay_of_def payload_def)
qed

interpretation ctl: imsg_handler K "control_handle_imsg K" "relay_inv pid"
  "\<lambda>iev. queued_bytes iev" "\<lambda>m s. s @ relay_bytes pid m" for K pid
  by unfold_locales (use control_handle_acts in blast)

lemma fold_append_concat: "fold (\<lambda>m s. s @ f m) ms s = s @ concat (map f ms)"
  by (induction ms arbitrary: s) auto

section \<open>The dispatcher\<close>

lemma dispatch_relays:
  assumes mem: "k_mem K = (\<lambda>_. True)"
    and c: "control_connbyfd fd (ctl_conns st) = Some c"
    and ev: "event AND EV_READ \<noteq> 0" "event AND EV_WRITE = 0"
    and wf: "imsgbuf_wf (iev_ibuf (cc_iev c))" "relay_inv pid (iev_parent st)"
    and rd: "imsg_read K (iev_ibuf (cc_iev c)) w = (n, ib1, w1)" "n \<noteq> - 1" "n \<noteq> 0"
    and fr: "frames (r_buf (im_r ib1)) = (ms, rest, False)"
  shows "\<exists>st' w' c'. control_dispatch_imsg K fd event st w = Ok st' w' \<and>
     queued_bytes (iev_parent st') = queued_bytes (iev_parent st) @ concat (map (relay_bytes pid) ms) \<and>
     control_connbyfd fd (ctl_conns st') = Some c' \<and> r_buf (im_r (iev_ibuf (cc_iev c'))) = rest \<and>
     (\<forall>k. k \<noteq> fd \<longrightarrow> control_connbyfd k (ctl_conns st') = control_connbyfd k (ctl_conns st)) \<and>
     map conn_fd (ctl_conns st') = map conn_fd (ctl_conns st) \<and> iev_sync (cc_iev c') w'"
proof -
  have fd: "conn_fd c = fd" using byfd.look_SomeD c by blast
  from imsg_read_spec[OF wf(1) rd(1)] have ib1: "imsgbuf_wf ib1" "im_fd ib1 = fd" using fd by auto
  have upd: "ib1\<lparr>im_w := im_w ib1\<rparr> = ib1" by simp
  let ?iev = "(cc_iev c)\<lparr>iev_ibuf := ib1\<rparr>"
  from ctl.loop_acts[OF mem ib1(1) wf(2) fr, of w1] obtain ib3 par w3 where
    lp: "imsg_loop K (control_handle_imsg K) ib1 (iev_parent st) w1 = Ok (0, ib3, par) w3"
    and par: "queued_bytes par = queued_bytes (iev_parent st) @ concat (map (relay_bytes pid) ms)"
    and ib3: "r_buf (im_r ib3) = rest" "im_fd ib3 = fd"
    using ib1 by (auto simp: fold_append_concat)
  let ?iev3 = "?iev\<lparr>iev_ibuf := ib3\<rparr>"
  obtain iev4 w4 where ea: "imsg_event_add ?iev3 w3 = (iev4, w4)" by fastforce
  note e4 = imsg_event_add_frame[OF ea] imsg_event_add_sync[OF ea]
  let ?st = "st\<lparr>ctl_conns := put_conn fd iev4 (ctl_conns st), iev_parent := par\<rparr>"
  have "control_dispatch_imsg K fd event st w = Ok ?st w4"
    using c ev rd lp ea ib1 ib3 e4 by (simp add: control_dispatch_imsg_def Let_def upd)
  moreover have "control_connbyfd fd (ctl_conns ?st) = Some (c\<lparr>cc_iev := iev4\<rparr>)"
    using c e4 ib3 by (simp add: put_conn_look)
  ultimately show ?thesis
    using par ib3 e4
    by (intro exI[of _ ?st] exI[of _ w4] exI[of _ "c\<lparr>cc_iev := iev4\<rparr>"]) (simp add: put_conn_look)
qed

section \<open>Samples\<close>

text \<open>An engine with one client, and a kernel that delivers the given bytes.\<close>

definition wire_kernel :: "byte list \<Rightarrow> kernel" where
  "wire_kernel bs = sample_kernel\<lparr>k_recv := (\<lambda>_. Inr (bs, []))\<rparr>"

definition sample_engine :: "kernel \<Rightarrow> engine" where
  "sample_engine K = \<lparr>control_state_fd = 3,
     ctl_conns = [\<lparr>cc_iev = \<lparr>iev_ibuf = imsg_init K 5, iev_handler = H_control_dispatch_imsg, iev_events = EV_READ\<rparr>\<rparr>],
     iev_parent = \<lparr>iev_ibuf = imsg_init K 4, iev_handler = H_ifconfigd_dispatch_parent, iev_events = EV_READ\<rparr>\<rparr>"

definition monitor_msg :: "imsg_hdr \<times> byte list" where
  "monitor_msg = (\<lparr>hdr_type = 7, hdr_len = 16, hdr_flags = 0, hdr_peerid = 0, hdr_pid = 99\<rparr>, [])"

lemma read_fresh:
  assumes "k_recv K = (\<lambda>_. Inr (bs, []))" "bs \<noteq> []" "length bs \<le> IBUF_READ_SIZE"
  shows "\<exists>ib w'. imsg_read K (imsg_init K fd) w = (int (length bs), ib, w') \<and> r_buf (im_r ib) = bs"
  using assms by (auto simp: imsg_read_def imsg_init_def recvmsg_def Let_def)

lemma sample_engine_simps:
  "imsgbuf_wf (iev_ibuf (cc_iev (hd (ctl_conns (sample_engine K)))))"
  "relay_inv (k_getpid K) (iev_parent (sample_engine K))"
  "control_connbyfd 5 (ctl_conns (sample_engine K)) = Some (hd (ctl_conns (sample_engine K)))"
  "iev_ibuf (cc_iev (hd (ctl_conns (sample_engine K)))) = imsg_init K 5"
  "queued_bytes (iev_parent (sample_engine K)) = []" "distinct (map conn_fd (ctl_conns (sample_engine K)))"
  using imsg_init_wf by (auto simp: sample_engine_def relay_inv_def imsg_init_def pending_def msgbuf_init_def)

lemma monitor_msg_frames: "frames (enc_msg monitor_msg) = ([monitor_msg], [], False)"
  using frames_enc[of "[monitor_msg]" "[]"] by (simp add: monitor_msg_def msg_ok_def imsg_consts)

lemma monitor_msg_read:
  "\<exists>ib w'. imsg_read (wire_kernel (enc_msg monitor_msg)) (imsg_init (wire_kernel (enc_msg monitor_msg)) 5) sample_world = (16, ib, w') \<and>
     r_buf (im_r ib) = enc_msg monitor_msg"
  using read_fresh[of "wire_kernel (enc_msg monitor_msg)" "enc_msg monitor_msg" 5 sample_world]
  by (simp add: wire_kernel_def enc_msg_def monitor_msg_def enc_hdr_not_Nil imsg_consts)

section \<open>Properties\<close>

text \<open>(C3) Dispatching a readable connection, with memory at hand: exactly the messages that are
  complete in the connection's stream are consumed, the requests among them are appended to the
  parent's queue in order (with the payload \<open>relay_of\<close> gives them), the rest of the stream stays
  buffered, the connection stays open, every other connection is untouched.\<close>

theorem control_dispatch_relays:
  assumes mem: "k_mem K = (\<lambda>_. True)"
    and c: "control_connbyfd fd (ctl_conns st) = Some c"
    and ev: "event AND EV_READ \<noteq> 0" "event AND EV_WRITE = 0"
    and wf: "imsgbuf_wf (iev_ibuf (cc_iev c))" "relay_inv pid (iev_parent st)"
    and rd: "imsg_read K (iev_ibuf (cc_iev c)) w = (n, ib1, w1)" "n \<noteq> - 1" "n \<noteq> 0"
    and fr: "frames (r_buf (im_r ib1)) = (ms, rest, False)"
  shows "\<exists>st' w' c'. control_dispatch_imsg K fd event st w = Ok st' w' \<and>
     queued_bytes (iev_parent st') = queued_bytes (iev_parent st) @ concat (map (relay_bytes pid) ms) \<and>
     control_connbyfd fd (ctl_conns st') = Some c' \<and> r_buf (im_r (iev_ibuf (cc_iev c'))) = rest \<and>
     (\<forall>k. k \<noteq> fd \<longrightarrow> control_connbyfd k (ctl_conns st') = control_connbyfd k (ctl_conns st)) \<and>
     map conn_fd (ctl_conns st') = map conn_fd (ctl_conns st) \<and> iev_sync (cc_iev c') w'"
  by (rule dispatch_relays[OF assms])

theorem control_dispatch_relays_witness:
  "\<exists>st' w' c'. control_dispatch_imsg (wire_kernel (enc_msg monitor_msg)) 5 EV_READ
       (sample_engine (wire_kernel (enc_msg monitor_msg))) sample_world = Ok st' w' \<and>
     queued_bytes (iev_parent st') = queued_bytes (iev_parent (sample_engine (wire_kernel (enc_msg monitor_msg)))) @
       concat (map (relay_bytes (k_getpid (wire_kernel (enc_msg monitor_msg)))) [monitor_msg]) \<and>
     control_connbyfd 5 (ctl_conns st') = Some c' \<and> r_buf (im_r (iev_ibuf (cc_iev c'))) = [] \<and>
     (\<forall>k. k \<noteq> 5 \<longrightarrow> control_connbyfd k (ctl_conns st') =
        control_connbyfd k (ctl_conns (sample_engine (wire_kernel (enc_msg monitor_msg))))) \<and>
     map conn_fd (ctl_conns st') = map conn_fd (ctl_conns (sample_engine (wire_kernel (enc_msg monitor_msg)))) \<and>
     iev_sync (cc_iev c') w'"
proof -
  let ?K = "wire_kernel (enc_msg monitor_msg)"
  obtain ib w1 where rd: "imsg_read ?K (imsg_init ?K 5) sample_world = (16, ib, w1)" "r_buf (im_r ib) = enc_msg monitor_msg"
    using monitor_msg_read by blast
  show ?thesis
    by (rule control_dispatch_relays[where c = "hd (ctl_conns (sample_engine ?K))" and n = 16 and ?ib1.0 = ib and ?w1.0 = w1])
       (simp_all add: sample_engine_simps imsg_init_wf rd monitor_msg_frames ev_consts, simp add: wire_kernel_def sample_kernel_def)
qed

text \<open>(C20) A connection whose peer is gone (read returns 0 or fails) or whose stream is malformed
  is closed: it leaves the table, every other connection stays, its event is removed and its
  descriptor closed, and nothing malformed is relayed.\<close>

theorem control_dispatch_closes:
  assumes mem: "k_mem K = (\<lambda>_. True)"
    and dist: "distinct (map conn_fd (ctl_conns st))"
    and c: "control_connbyfd fd (ctl_conns st) = Some c"
    and ev: "event AND EV_READ \<noteq> 0" "event AND EV_WRITE = 0"
    and wf: "imsgbuf_wf (iev_ibuf (cc_iev c))" "relay_inv pid (iev_parent st)"
    and rd: "imsg_read K (iev_ibuf (cc_iev c)) w = (n, ib1, w1)"
    and bad: "n = - 1 \<or> n = 0 \<or> frames (r_buf (im_r ib1)) = (ms, rest, True)"
  shows "\<exists>st' w' t. control_dispatch_imsg K fd event st w = Ok st' w' \<and>
     map conn_fd (ctl_conns st') = remove1 fd (map conn_fd (ctl_conns st)) \<and>
     (\<forall>k. control_connbyfd k (ctl_conns st') =
        (if k = fd then None else control_connbyfd k (ctl_conns st))) \<and>
     trace w' = EvClose fd # EvEventDel fd # t \<and>
     queued_bytes (iev_parent st') = queued_bytes (iev_parent st) @
       (if n = - 1 \<or> n = 0 then [] else concat (map (relay_bytes pid) ms))"
proof -
  have fd: "conn_fd c = fd" using byfd.look_SomeD c by blast
  from imsg_read_spec[OF wf(1) rd] have ib1: "imsgbuf_wf ib1" "im_fd ib1 = fd" using fd by auto
  have upd: "ib1\<lparr>im_w := im_w ib1\<rparr> = ib1" by simp
  let ?iev = "(cc_iev c)\<lparr>iev_ibuf := ib1\<rparr>"
  have closing: "\<exists>cs' w' t. control_close K fd (put_conn fd iev (ctl_conns st)) x = (cs', w') \<and>
      map conn_fd cs' = remove1 fd (map conn_fd (ctl_conns st)) \<and>
      (\<forall>k. control_connbyfd k cs' = (if k = fd then None else control_connbyfd k (ctl_conns st))) \<and>
      trace w' = EvClose fd # EvEventDel fd # t" if "im_fd (iev_ibuf iev) = fd" for iev x
  proof -
    let ?cs = "put_conn fd iev (ctl_conns st)"
    have d: "distinct (map conn_fd ?cs)" "control_connbyfd fd ?cs = Some (c\<lparr>cc_iev := iev\<rparr>)"
      using dist c that by (simp_all add: put_conn_look)
    obtain cs' w' where cl: "control_close K fd ?cs x = (cs', w')" by fastforce
    from control_close_spec[OF d cl] that cl show ?thesis
      by (auto simp: put_conn_look)
  qed
  show ?thesis
  proof (cases "n = - 1 \<or> n = 0")
    case True
    with closing[of ?iev w1] c ev rd ib1 show ?thesis
      by (auto simp: control_dispatch_imsg_def Let_def)
  next
    case False
    with bad have fr: "frames (r_buf (im_r ib1)) = (ms, rest, True)" by simp
    from ctl.loop_acts[OF mem ib1(1) wf(2) fr, of w1] obtain ib3 par w3 where
      lp: "imsg_loop K (control_handle_imsg K) ib1 (iev_parent st) w1 = Ok (- 1, ib3, par) w3"
      and par: "queued_bytes par = queued_bytes (iev_parent st) @ concat (map (relay_bytes pid) ms)"
      and ib3: "im_fd ib3 = fd"
      using ib1 by (auto simp: fold_append_concat)
    with False closing[of "?iev\<lparr>iev_ibuf := ib3\<rparr>" w3] c ev rd ib1 show ?thesis
      by (auto simp: control_dispatch_imsg_def Let_def upd)
  qed
qed

theorem control_dispatch_closes_witness:
  "\<exists>st' w' t. control_dispatch_imsg sample_kernel 5 EV_READ (sample_engine sample_kernel) sample_world = Ok st' w' \<and>
     map conn_fd (ctl_conns st') = remove1 5 (map conn_fd (ctl_conns (sample_engine sample_kernel))) \<and>
     (\<forall>k. control_connbyfd k (ctl_conns st') =
        (if k = 5 then None else control_connbyfd k (ctl_conns (sample_engine sample_kernel)))) \<and>
     trace w' = EvClose 5 # EvEventDel 5 # t \<and>
     queued_bytes (iev_parent st') = queued_bytes (iev_parent (sample_engine sample_kernel)) @
       (if 0 = (- 1 :: int) \<or> 0 = (0 :: int) then [] else concat (map (relay_bytes (k_getpid sample_kernel)) []))"
proof -
  obtain ib w1 where "imsg_read sample_kernel (imsg_init sample_kernel 5) sample_world = (0, ib, w1)"
    by (auto simp: imsg_read_def imsg_init_def recvmsg_def sample_kernel_def Let_def)
  then show ?thesis
    by (intro control_dispatch_closes[where c = "hd (ctl_conns (sample_engine sample_kernel))" and n = 0])
       (simp_all add: sample_engine_simps imsg_init_wf ev_consts, simp add: sample_kernel_def)
qed

end
