(* ===== verification/Engine.thy ===== *)
theory Engine
  imports Control
begin

text \<open>
  The unprivileged engine process (\<open>ifconfigd/ifconfigde.c\<close>): its set-up, from the fork to the
  event loop, the dispatcher of the pipe to the parent, and the event loop itself as a step
  relation whose reachable states keep the connection table well-formed.
\<close>

section \<open>Set-up\<close>

definition IFCONFIGD_USER :: string where "IFCONFIGD_USER = ''_ifconfigd''"

text \<open>
  \<open>ifconfigde\<close> returns the child's pid in the parent; in the child it arrives at
  \<open>event_dispatch\<close> with its globals set up.
\<close>

definition ifconfigde :: "kernel \<Rightarrow> string \<Rightarrow> int \<times> int \<Rightarrow> world \<Rightarrow> (int + engine) outcome" where
  "ifconfigde K csock pipe_parent2ifconfigd w =
     (case sys_int K EvFork w of (pid, w1) \<Rightarrow>
      if pid = - 1 then fatal K (Some ''cannot fork'') w1
      else if pid \<noteq> 0 then Ok (Inl pid) w1
      else andthen (control_init K csock w1) (\<lambda>(r, ctl) w2.
      if r = - 1 then fatalx K (Some ''control socket setup failed'') w2
      else case getpwnam K IFCONFIGD_USER w2 of
        (None, w3) \<Rightarrow> fatal K (Some ''getpwnam'') w3
      | (Some (pw_dir, pw_uid, pw_gid), w3) \<Rightarrow>
      case sys_ok K (EvChroot pw_dir) w3 of (ok, w4) \<Rightarrow>
      if \<not> ok then fatal K (Some ''chroot'') w4
      else case sys_ok K (EvChdir ''/'') w4 of (ok, w5) \<Rightarrow>
      if \<not> ok then fatal K (Some ''chdir(\"/\")'') w5
      else let w6 = emit (EvSetproctitle ''ifconfigd engine'') w5 in
      case sys_ok K (EvSetgroups pw_gid) w6 of (ok, w7) \<Rightarrow>
      if \<not> ok then fatal K (Some ''can't drop privileges'') w7
      else case sys_ok K (EvSetresgid pw_gid) w7 of (ok, w8) \<Rightarrow>
      if \<not> ok then fatal K (Some ''can't drop privileges'') w8
      else case sys_ok K (EvSetresuid pw_uid) w8 of (ok, w9) \<Rightarrow>
      if \<not> ok then fatal K (Some ''can't drop privileges'') w9
      else let w10 = emit EvEventInit w9 in
      case control_listen K (the ctl) w10 of (_, w11) \<Rightarrow>
      let w12 = close_fd (fst pipe_parent2ifconfigd) w11 in
      case alloc K sizeof_imsgev w12 of (ok, w13) \<Rightarrow>
      if \<not> ok then fatal K (Some ''ifconfigde'') w13
      else let iev = \<lparr>iev_ibuf = imsg_init K (snd pipe_parent2ifconfigd),
                      iev_handler = H_ifconfigd_dispatch_parent, iev_events = EV_READ\<rparr>
           in Ok (Inr \<lparr>control_state_fd = the ctl, ctl_conns = [], iev_parent = iev\<rparr>)
                (emit (EvEventAdd (im_fd (iev_ibuf iev)) (iev_events iev)) w13)))"

section \<open>Messages from the parent\<close>

definition parent_handle_imsg :: "kernel \<Rightarrow> imsg \<Rightarrow> unit \<Rightarrow> world \<Rightarrow> unit outcome" where
  "parent_handle_imsg K m s w =
     Ok () (log_debug K ''ifconfigd_dispatch_parent: unexpected imsg %d'' [AI (sint (hdr_type (msg_hdr m)))] w)"

text \<open>The second component of the result says whether the event loop was told to exit.\<close>

definition ifconfigd_dispatch_parent ::
  "kernel \<Rightarrow> nat \<Rightarrow> imsgev \<Rightarrow> world \<Rightarrow> (imsgev \<times> bool) outcome" where
  "ifconfigd_dispatch_parent K event iev w =
     (let ibuf = iev_ibuf iev;
          rest = (\<lambda>ibuf w. andthen (imsg_loop K (parent_handle_imsg K) ibuf () w) (\<lambda>(e, ib, _) w1.
             if e = - 1 then fatal K (Some ''ifconfigd_dispatch_parent: imsg_read error'') w1
             else case imsg_event_add (iev\<lparr>iev_ibuf := ib\<rparr>) w1 of (iev1, w2) \<Rightarrow> Ok (iev1, False) w2))
      in
      if event = EV_READ then
        (case imsg_read K ibuf w of (n, ib1, w1) \<Rightarrow>
           if n = - 1 then fatal K (Some ''ifconfigd_dispatch_parent: imsg_read error'') w1
           else if n = 0 then
             Ok (iev\<lparr>iev_ibuf := ib1\<rparr>, True) (emit EvLoopexit (emit (EvEventDel (im_fd ib1)) w1))
           else rest ib1 w1)
      else if event = EV_WRITE then
        (case msgbuf_write K (im_w ibuf) w of (r, m, w1) \<Rightarrow>
           if r = - 1 then fatal K (Some ''ifconfigd_dispatch_parent: msgbuf_write'') w1
           else case imsg_event_add (iev\<lparr>iev_ibuf := ibuf\<lparr>im_w := m\<rparr>\<rparr>) w1 of
             (iev1, w2) \<Rightarrow> Ok (iev1, False) w2)
      else fatalx K (Some ''ifconfigd_dispatch_parent: unknown event'') w)"

section \<open>Dropping privileges\<close>

lemma only_logs_suffix: "only_logs w w' \<Longrightarrow> \<exists>es. trace w' = es @ trace w"
  by (auto simp: only_logs_def)

lemma sys_ok_cases:
  "sys_ok K e w = (ok, w') \<Longrightarrow> trace w' = e # trace w"
  using sys_ok_trace(1)[of K e w] by simp

lemma sys_int_cases:
  "sys_int K e w = (n, w') \<Longrightarrow> trace w' = e # trace w"
  using sys_int_trace(1)[of K e w] by simp

lemma blockmode_trace:
  "session_socket_blockmode K fd bm w = Ok () w' \<Longrightarrow>
     \<exists>f. trace w' = EvFcntlSet fd f # EvFcntlGet fd # trace w"
  by (auto simp: session_socket_blockmode_def Let_def fatal_def dest!: sys_int_cases
      split: prod.splits if_splits)

text \<open>On success \<open>control_init\<close> has bound the socket with the restrictive umask, then set its
  mode to 0660 and made it non-blocking.\<close>

lemma control_init_ok:
  assumes "control_init K path w = Ok (r, ctl) w'" "r \<noteq> - 1"
  shows "\<exists>fd u f. ctl = Some fd \<and>
    trace w' = [EvFcntlSet fd f, EvFcntlGet fd, EvChmod path 432, EvUmask u,
       EvBind fd (take (sizeof_sun_path - 1) path), EvUmask 79, EvUnlink path, EvSocket] @ trace w"
proof -
  obtain fd w1 where s1: "sys_int K EvSocket w = (fd, w1)" by fastforce
  obtain unl w2 where s2: "sys_ok K (EvUnlink path) w1 = (unl, w2)" by fastforce
  obtain om w3 where s3: "sys_int K (EvUmask 79) w2 = (om, w3)" by fastforce
  obtain bnd w4 where s4: "sys_ok K (EvBind fd (take (sizeof_sun_path - 1) path)) w3 = (bnd, w4)"
    by fastforce
  obtain om' w5 where s5: "sys_int K (EvUmask (nat om)) w4 = (om', w5)" by fastforce
  obtain chm w6 where s6: "sys_ok K (EvChmod path 432) w5 = (chm, w6)" by fastforce
  have bm: "session_socket_blockmode K fd BM_NONBLOCK w6 = Ok () w'" and ctl: "ctl = Some fd"
    using assms s1 s2 s3 s4 s5 s6
    by (auto simp add: control_init_def andthen_Ok_iff split: if_splits)
  from blockmode_trace[OF bm] obtain f where "trace w' = EvFcntlSet fd f # EvFcntlGet fd # trace w6"
    by blast
  with ctl sys_int_cases[OF s1] sys_ok_cases[OF s2] sys_int_cases[OF s3] sys_ok_cases[OF s4]
    sys_int_cases[OF s5] sys_ok_cases[OF s6] show ?thesis by simp
qed

lemma control_listen_trace:
  assumes "control_listen K fd w = (r, w')"
  shows "\<exists>es. trace w' = es @ trace w"
proof -
  obtain b w1 where s: "sys_ok K (EvListen fd CONTROL_BACKLOG) w = (b, w1)" by fastforce
  have "only_logs w1 (log_warn K (Some ''control_listen: listen'') [] w1)"
    by (rule log_warn_only_logs)
  from only_logs_suffix[OF this] sys_ok_cases[OF s] s assms show ?thesis
    by (auto simp: control_listen_def split: if_splits)
qed

text \<open>Whenever the engine gets as far as its event loop it has left root behind.\<close>

lemma ifconfigde_privileges:
  assumes "ifconfigde K csock p w = Ok (Inr st) w'"
  shows "\<exists>dir uid gid es es'.
    trace w' = es @ [EvSetresuid uid, EvSetresgid gid, EvSetgroups gid,
       EvSetproctitle ''ifconfigd engine'', EvChdir ''/'', EvChroot dir,
       EvGetpwnam IFCONFIGD_USER] @ es' @ EvFork # trace w \<and>
    k_pw K (EvGetpwnam IFCONFIGD_USER # es' @ EvFork # trace w) = Some (dir, uid, gid) \<and>
    (\<forall>e\<in>set es'. \<forall>f n. e \<noteq> EvEventAdd f n \<and> e \<noteq> EvAccept f) \<and>
    (\<exists>fd. st = \<lparr>control_state_fd = fd, ctl_conns = [], iev_parent = \<lparr>iev_ibuf = imsg_init K (snd p),
        iev_handler = H_ifconfigd_dispatch_parent, iev_events = EV_READ\<rparr>\<rparr>)"
proof -
  obtain pid w1 where fork: "sys_int K EvFork w = (pid, w1)" by fastforce
  obtain r ctl w2 where ci: "control_init K csock w1 = Ok (r, ctl) w2" "r \<noteq> - 1" "pid = 0"
    using assms fork
    by (auto simp: ifconfigde_def andthen_Ok_iff fatalx_def fatal_def split: if_splits)
  from control_init_ok[OF ci(1,2)] obtain fd u f where
    t2: "trace w2 = [EvFcntlSet fd f, EvFcntlGet fd, EvChmod csock 432, EvUmask u,
       EvBind fd (take (sizeof_sun_path - 1) csock), EvUmask 79, EvUnlink csock, EvSocket] @ trace w1"
    by blast
  obtain o3 w3 where p3: "getpwnam K IFCONFIGD_USER w2 = (o3, w3)" by fastforce
  obtain dir uid gid where o3: "o3 = Some (dir, uid, gid)"
    using assms fork ci p3 by (cases o3) (auto simp: ifconfigde_def fatal_def)
  have t3: "trace w3 = EvGetpwnam IFCONFIGD_USER # trace w2"
    and kpw: "k_pw K (trace w3) = Some (dir, uid, gid)"
    using p3 o3 by (auto simp: getpwnam_def Let_def)
  obtain b4 w4 where s4: "sys_ok K (EvChroot dir) w3 = (b4, w4)" by fastforce
  obtain b5 w5 where s5: "sys_ok K (EvChdir ''/'') w4 = (b5, w5)" by fastforce
  let ?w6 = "emit (EvSetproctitle ''ifconfigd engine'') w5"
  obtain b7 w7 where s7: "sys_ok K (EvSetgroups gid) ?w6 = (b7, w7)" by fastforce
  obtain b8 w8 where s8: "sys_ok K (EvSetresgid gid) w7 = (b8, w8)" by fastforce
  obtain b9 w9 where s9: "sys_ok K (EvSetresuid uid) w8 = (b9, w9)" by fastforce
  obtain r11 w11 where cl: "control_listen K (the ctl) (emit EvEventInit w9) = (r11, w11)" by fastforce
  obtain b13 w13 where s13: "alloc K sizeof_imsgev (close_fd (fst p) w11) = (b13, w13)" by fastforce
  note run = fork ci p3 o3 s4 s5 s7 s8 s9 cl s13
  have w': "w' = emit (EvEventAdd (snd p) EV_READ) w13"
    and st: "st = \<lparr>control_state_fd = the ctl, ctl_conns = [], iev_parent = \<lparr>iev_ibuf =
      imsg_init K (snd p), iev_handler = H_ifconfigd_dispatch_parent, iev_events = EV_READ\<rparr>\<rparr>"
    using assms run by (simp_all add: ifconfigde_def Let_def fatal_def imsg_init_def split: if_splits)
  have "trace w13 = EvMalloc sizeof_imsgev # EvClose (fst p) # trace w11"
    using alloc_trace(1)[of K sizeof_imsgev "close_fd (fst p) w11"] s13 by simp
  moreover from control_listen_trace[OF cl] obtain es where "trace w11 = es @ EvEventInit # trace w9"
    by auto
  ultimately have "trace w' = (EvEventAdd (snd p) EV_READ # EvMalloc sizeof_imsgev #
      EvClose (fst p) # es @ [EvEventInit]) @ trace w9" using w' by simp
  then show ?thesis
    using t2 t3 kpw st sys_ok_cases[OF s4] sys_ok_cases[OF s5] sys_ok_cases[OF s7] sys_ok_cases[OF s8]
      sys_ok_cases[OF s9] sys_int_cases[OF fork]
    by (intro exI[of _ dir] exI[of _ uid] exI[of _ gid]
        exI[of _ "EvEventAdd (snd p) EV_READ # EvMalloc sizeof_imsgev # EvClose (fst p) # es @ [EvEventInit]"]
        exI[of _ "[EvFcntlSet fd f, EvFcntlGet fd, EvChmod csock 432, EvUmask u,
          EvBind fd (take (sizeof_sun_path - 1) csock), EvUmask 79, EvUnlink csock, EvSocket]"]) auto
qed

section \<open>The event loop\<close>

text \<open>
  One round of the event loop runs one handler to completion: a client connects, a client's
  descriptor is ready, or the pipe to the parent is ready. The kernel never hands out a
  descriptor that is still open (the premise \<open>fresh_accept\<close>).
\<close>

definition fresh_accept :: "kernel \<Rightarrow> engine \<Rightarrow> world \<Rightarrow> bool" where
  "fresh_accept K st w \<longleftrightarrow>
     (case k_int K (EvAccept (control_state_fd st) # trace w) of
        Inl _ \<Rightarrow> True
      | Inr n \<Rightarrow> int n \<notin> set (map conn_fd (ctl_conns st)))"

inductive engine_step :: "kernel \<Rightarrow> engine \<times> world \<Rightarrow> engine \<times> world \<Rightarrow> bool" for K where
  accept: "fresh_accept K st w \<Longrightarrow>
     control_accept K (control_state_fd st) (ctl_conns st) w = Ok cs w' \<Longrightarrow>
     engine_step K (st, w) (st\<lparr>ctl_conns := cs\<rparr>, w')"
| client: "control_dispatch_imsg K fd event st w = Ok st' w' \<Longrightarrow> engine_step K (st, w) (st', w')"
| parent: "ifconfigd_dispatch_parent K event (iev_parent st) w = Ok (iev, False) w' \<Longrightarrow>
     engine_step K (st, w) (st\<lparr>iev_parent := iev\<rparr>, w')"

inductive_cases engine_stepE: "engine_step K (st, w) x"

inductive engine_reachable :: "kernel \<Rightarrow> engine \<times> world \<Rightarrow> bool" for K where
  start: "ifconfigde K csock p w = Ok (Inr st) w' \<Longrightarrow> engine_reachable K (st, w')"
| step: "engine_reachable K s \<Longrightarrow> engine_step K s s' \<Longrightarrow> engine_reachable K s'"

definition conn_ok :: "kernel \<Rightarrow> imsgev \<Rightarrow> bool" where
  "conn_ok K iev \<longleftrightarrow> imsgbuf_wf (iev_ibuf iev) \<and> im_pid (iev_ibuf iev) = k_getpid K"

definition engine_inv :: "kernel \<Rightarrow> engine \<Rightarrow> bool" where
  "engine_inv K st \<longleftrightarrow> distinct (map conn_fd (ctl_conns st)) \<and>
     (\<forall>c\<in>set (ctl_conns st). conn_ok K (cc_iev c)) \<and> conn_ok K (iev_parent st)"

lemma imsg_event_add_conn_ok:
  "imsg_event_add iev w = (iev', w') \<Longrightarrow> conn_ok K iev' = conn_ok K iev"
  by (auto dest!: imsg_event_add_frame simp: conn_ok_def)

lemma compose_event_conn_ok:
  assumes "conn_ok K iev" "length d < 2 ^ 16"
    and "imsg_compose_event K iev type peerid pid fd d w = (r, iev', w')"
  shows "conn_ok K iev'"
  using imsg_compose_event_spec[OF assms(2,3)] imsg_compose_event_wf[OF _ assms(2,3)] assms(1)
  by (auto simp: conn_ok_def)

lemma control_handle_conn_ok:
  assumes "conn_ok K iev" "control_handle_imsg K m iev w = Ok iev' w'"
  shows "conn_ok K iev'"
proof (cases "iev' = iev")
  case True
  with assms show ?thesis by simp
next
  case False
  then obtain d w1 r where "ifconfigde_imsg_compose_parent K iev (hdr_type (msg_hdr m)) 0 d w1 = (r, iev', w')"
    and len: "length d < 2 ^ 16"
    using assms(2)
    by (auto simp: control_handle_imsg_def Let_def ptrsize_def split: option.splits imsg_type.splits if_splits prod.splits)
  then show ?thesis
    using compose_event_conn_ok[OF assms(1) len] by (auto simp: ifconfigde_imsg_compose_parent_def)
qed

lemma engine_inv_accept:
  assumes "engine_inv K st" "fresh_accept K st w"
    and "control_accept K (control_state_fd st) (ctl_conns st) w = Ok cs w'"
  shows "engine_inv K (st\<lparr>ctl_conns := cs\<rparr>)"
proof (cases "cs = ctl_conns st")
  case True
  with assms(1) show ?thesis by (simp add: engine_inv_def)
next
  case False
  obtain fd w1 where a: "sys_int K (EvAccept (control_state_fd st)) w = (fd, w1)" by fastforce
  have fd: "fd \<noteq> - 1" using assms(3) a False by (auto simp: control_accept_def)
  then obtain w2 where bm: "session_socket_blockmode K fd BM_NONBLOCK w1 = Ok () w2"
    using assms(3) a by (auto simp: control_accept_def andthen_Ok_iff)
  obtain got w3 where al: "alloc K sizeof_ctl_conn w2 = (got, w3)" by fastforce
  have cs: "cs = ctl_conns st @ [\<lparr>cc_iev = \<lparr>iev_ibuf = imsg_init K fd,
      iev_handler = H_control_dispatch_imsg, iev_events = EV_READ\<rparr>\<rparr>]"
    using assms(3) a False fd bm al by (auto simp: control_accept_def Let_def split: if_splits)
  have "fd \<notin> set (map conn_fd (ctl_conns st))"
    using a fd assms(2) by (auto simp: sys_int_def Let_def fresh_accept_def split: sum.splits)
  with assms(1) cs show ?thesis
    using imsg_init_wf[of K fd] by (auto simp: engine_inv_def conn_ok_def) (auto simp: imsg_init_def)
qed

lemma engine_inv_put:
  assumes "engine_inv K st" "conn_ok K iev" "im_fd (iev_ibuf iev) = fd"
  shows "engine_inv K (st\<lparr>ctl_conns := put_conn fd iev (ctl_conns st)\<rparr>)"
  using assms by (auto simp: engine_inv_def dest!: put_conn_set)

lemma engine_inv_close:
  assumes "engine_inv K st" "control_close K fd (ctl_conns st) w = (cs, w')"
  shows "engine_inv K (st\<lparr>ctl_conns := cs\<rparr>)"
  using control_close_subset[OF assms(2)] control_close_distinct[OF _ assms(2)] assms(1)
  by (auto simp: engine_inv_def)

lemma engine_inv_client:
  assumes inv: "engine_inv K st" and "control_dispatch_imsg K fd event st w = Ok st' w'"
  shows "engine_inv K st'"
proof (cases "control_connbyfd fd (ctl_conns st)")
  case None
  with assms show ?thesis by (auto simp: control_dispatch_imsg_def Let_def)
next
  case (Some c)
  let ?iev = "cc_iev c"
  have c: "conn_ok K ?iev" "im_fd (iev_ibuf ?iev) = fd"
    using Some inv byfd.look_SomeD by (auto simp: engine_inv_def)
  obtain n ib1 w1 where rd: "(if event AND EV_READ \<noteq> 0 then imsg_read K (iev_ibuf ?iev) w
      else (1, iev_ibuf ?iev, w)) = (n, ib1, w1)" by (metis prod_cases3)
  let ?iev1 = "?iev\<lparr>iev_ibuf := ib1\<rparr>"
  have ok1: "conn_ok K ?iev1" "im_fd ib1 = fd"
    using rd c imsg_read_spec[of "iev_ibuf ?iev" K w n ib1 w1]
    by (auto simp: conn_ok_def split: if_splits)
  let ?st1 = "st\<lparr>ctl_conns := put_conn fd ?iev1 (ctl_conns st)\<rparr>"
  have inv1: "engine_inv K ?st1" using engine_inv_put[OF inv ok1(1)] ok1(2) by simp
  obtain r m2 w2 where wr: "(if event AND EV_WRITE \<noteq> 0 then msgbuf_write K (im_w ib1) w1
      else (0, im_w ib1, w1)) = (r, m2, w2)" by (metis prod_cases3)
  let ?ib2 = "ib1\<lparr>im_w := m2\<rparr>"
  let ?iev2 = "?iev1\<lparr>iev_ibuf := ?ib2\<rparr>"
  have ok2: "conn_ok K ?iev2" "im_fd ?ib2 = fd"
    using wr ok1 imsg_write_wf[of ib1 K w1 r m2 w2] by (auto simp: conn_ok_def split: if_splits)
  let ?st2 = "st\<lparr>ctl_conns := put_conn fd ?iev2 (ctl_conns st)\<rparr>"
  have inv2: "engine_inv K ?st2" using engine_inv_put[OF inv ok2(1)] ok2(2) by simp
  show ?thesis
  proof (cases "n = - 1 \<or> n = 0 \<or> r = - 1")
    case True
    then obtain iev cs where "engine_inv K (st\<lparr>ctl_conns := put_conn fd iev (ctl_conns st)\<rparr>)"
      "control_close K fd (put_conn fd iev (ctl_conns st)) w1 = (cs, w') \<or>
       control_close K fd (put_conn fd iev (ctl_conns st)) w2 = (cs, w')"
      "st' = st\<lparr>ctl_conns := cs\<rparr>"
      using assms(2) Some rd wr inv1 inv2 ok1
      by (auto simp: control_dispatch_imsg_def Let_def split: prod.splits if_splits)
    then show ?thesis using engine_inv_close by fastforce
  next
    case False
    note run = assms(2)[unfolded control_dispatch_imsg_def Let_def Some option.case rd wr prod.case]
    obtain e ib3 par w3 where
      lp: "imsg_loop K (control_handle_imsg K) ?ib2 (iev_parent st) w2 = Ok (e, ib3, par) w3"
    proof (cases "imsg_loop K (control_handle_imsg K) ?ib2 (iev_parent st) w2")
      case (Ok x w3)
      then show thesis using that by (cases x) auto
    qed (use run False in simp_all)
    have pok: "conn_ok K (iev_parent st)" using inv by (simp add: engine_inv_def)
    have wf2: "imsgbuf_wf ?ib2" using ok2 by (simp add: conn_ok_def)
    note li = imsg_loop_inv[where P = "conn_ok K", OF wf2 pok lp control_handle_conn_ok]
    have ib3: "conn_ok K par" "conn_ok K (?iev2\<lparr>iev_ibuf := ib3\<rparr>)" "im_fd ib3 = fd"
      using li ok2 by (simp_all add: conn_ok_def)
    let ?st3 = "st\<lparr>ctl_conns := put_conn fd (?iev2\<lparr>iev_ibuf := ib3\<rparr>) (ctl_conns st), iev_parent := par\<rparr>"
    have "engine_inv K (st\<lparr>iev_parent := par\<rparr>)" using inv ib3 by (simp add: engine_inv_def)
    from engine_inv_put[OF this ib3(2)] ib3(3) have inv3: "engine_inv K ?st3"
      by (simp add: engine_inv_def)
    show ?thesis
    proof (cases "e = - 1")
      case True
      obtain cs w4 where cl: "control_close K fd (ctl_conns ?st3) w3 = (cs, w4)" by fastforce
      with run False lp True ok1 ok2 have "st' = ?st3\<lparr>ctl_conns := cs\<rparr>" by simp
      with engine_inv_close[OF inv3 cl] show ?thesis by simp
    next
      case ne: False
      obtain iev4 w4 where e4: "imsg_event_add (?iev2\<lparr>iev_ibuf := ib3\<rparr>) w3 = (iev4, w4)" by fastforce
      with run False lp ne ok1 ok2 ib3 have st': "st' = ?st3\<lparr>ctl_conns := put_conn fd iev4 (ctl_conns ?st3)\<rparr>"
        by simp
      have "conn_ok K iev4" "im_fd (iev_ibuf iev4) = fd"
        using imsg_event_add_conn_ok[OF e4] imsg_event_add_frame[OF e4] ib3 by auto
      from engine_inv_put[OF inv3 this] st' show ?thesis by simp
    qed
  qed
qed

lemma dispatch_parent_conn_ok:
  assumes ok: "conn_ok K iev" and "ifconfigd_dispatch_parent K event iev w = Ok (iev', x) w'"
  shows "conn_ok K iev'"
proof -
  have loop: "conn_ok K iev'" if "imsgbuf_wf ib" "im_pid ib = k_getpid K"
    "imsg_loop K (parent_handle_imsg K) ib () w1 = Ok (e, ib', u) w2"
    "imsg_event_add (iev\<lparr>iev_ibuf := ib'\<rparr>) w2 = (iev', w')" for ib w1 e ib' u w2
    using imsg_loop_inv[where P = "\<lambda>_. True", OF that(1) _ that(3)] that
      imsg_event_add_conn_ok[OF that(4), of K] by (simp add: conn_ok_def)
  consider "event = EV_READ" | "event \<noteq> EV_READ" "event = EV_WRITE" | "event \<noteq> EV_READ" "event \<noteq> EV_WRITE"
    by blast
  then show ?thesis
  proof cases
    case 1
    obtain n ib1 w1 where rd: "imsg_read K (iev_ibuf iev) w = (n, ib1, w1)" by (metis prod_cases3)
    from imsg_read_spec[OF _ rd] ok have "imsgbuf_wf ib1" "im_pid ib1 = k_getpid K"
      by (auto simp: conn_ok_def)
    with assms(2) 1 rd loop show ?thesis
      by (auto simp: ifconfigd_dispatch_parent_def Let_def fatal_def andthen_Ok_iff conn_ok_def
          split: if_splits prod.splits)
  next
    case 2
    obtain r m w1 where wr: "msgbuf_write K (im_w (iev_ibuf iev)) w = (r, m, w1)" by (metis prod_cases3)
    from imsg_write_wf[OF _ wr] ok have "conn_ok K (iev\<lparr>iev_ibuf := (iev_ibuf iev)\<lparr>im_w := m\<rparr>\<rparr>)"
      by (auto simp: conn_ok_def)
    with assms(2) 2 wr show ?thesis
      by (auto simp: ifconfigd_dispatch_parent_def Let_def fatal_def imsg_event_add_conn_ok
          split: if_splits prod.splits)
  next
    case 3
    with assms(2) show ?thesis
      by (simp add: ifconfigd_dispatch_parent_def Let_def fatalx_def fatal_def)
  qed
qed

lemma ifconfigde_start_inv:
  assumes "ifconfigde K csock p w = Ok (Inr st) w'"
  shows "engine_inv K st \<and> ctl_conns st = []"
proof -
  obtain fd where "st = \<lparr>control_state_fd = fd, ctl_conns = [], iev_parent = \<lparr>iev_ibuf =
      imsg_init K (snd p), iev_handler = H_ifconfigd_dispatch_parent, iev_events = EV_READ\<rparr>\<rparr>"
    using ifconfigde_privileges[OF assms] by blast
  with imsg_init_wf[of K "snd p"] show ?thesis
    by (simp add: engine_inv_def conn_ok_def) (simp add: imsg_init_def)
qed

lemma engine_step_inv:
  assumes "engine_inv K (fst s)" "engine_step K s s'"
  shows "engine_inv K (fst s')"
  using assms(2,1)
proof cases
  case (accept st w cs w')
  with assms(1) show ?thesis using engine_inv_accept by simp
next
  case (client fd event st w st' w')
  with assms(1) show ?thesis using engine_inv_client by simp
next
  case (parent event st w iev w')
  with assms(1) dispatch_parent_conn_ok[of K "iev_parent st"] show ?thesis
    by (auto simp: engine_inv_def)
qed

text \<open>A kernel that answers as in the child of the fork.\<close>

definition child_kernel :: kernel where
  "child_kernel = sample_kernel\<lparr>k_int := (\<lambda>t. case t of EvFork # _ \<Rightarrow> Inr 0 | _ \<Rightarrow> Inr 3)\<rparr>"

lemma child_starts: "\<exists>st w'. ifconfigde child_kernel ''/var/run/ifconfigd.sock'' (4, 5) sample_world = Ok (Inr st) w'"
  by (simp add: ifconfigde_def control_init_def session_socket_blockmode_def control_listen_def getpwnam_def sys_int_def
      sys_ok_def alloc_def child_kernel_def sample_kernel_def Let_def)

section \<open>Properties of the engine\<close>



text \<open>(C6) In every reachable state of the engine the connections have pairwise different
  descriptors, every message buffer is well-formed (its read position stays inside the 65535
  byte buffer, its queue counter counts the queued buffers), and every connection carries the
  engine's own pid.\<close>

theorem engine_reachable_inv:
  assumes "engine_reachable K (st, w)"
  shows "engine_inv K st"
proof -
  have "engine_inv K (fst s)" if "engine_reachable K s" for s
    using that by induction (auto simp: ifconfigde_start_inv dest: engine_step_inv)
  from this[OF assms] show ?thesis by simp
qed

theorem engine_reachable_inv_witness:
  "\<exists>st w. engine_reachable child_kernel (st, w) \<and> engine_inv child_kernel st"
  using child_starts engine_reachable.start[of child_kernel] engine_reachable_inv[of child_kernel] by blast

end
