(* ===== verification/C_Lib.thy ===== *)
theory C_Lib
  imports Daemon_Log "HOL-Library.Signed_Division" "HOL-Library.Char_ord" "HOL-Library.List_Lexorder"
begin

text \<open>
  The parts of the C library the daemon's parsers are built on (\<open>lib/libc\<close>): character classes,
  string comparison and tokenising, \<open>strlcpy\<close>, the number parsers \<open>strtoll\<close> and \<open>strtonum\<close>, the
  address parsers \<open>inet_aton\<close>, \<open>inet_net_pton\<close> and \<open>ether_aton\<close>, and \<open>bsearch\<close>. A C string is
  the list of its characters before the terminating NUL. The lemmas give the numeric parsers
  their specification (range, round trip with the decimal printer, no overflow) and \<open>bsearch\<close>
  its contract on sorted tables.
\<close>

section \<open>Characters\<close>

abbreviation ord :: "char \<Rightarrow> nat" where
  "ord c \<equiv> of_char c"

definition isdigit :: "char \<Rightarrow> bool" where
  "isdigit c \<longleftrightarrow> 48 \<le> ord c \<and> ord c \<le> 57"

definition isupper :: "char \<Rightarrow> bool" where
  "isupper c \<longleftrightarrow> 65 \<le> ord c \<and> ord c \<le> 90"

definition islower :: "char \<Rightarrow> bool" where
  "islower c \<longleftrightarrow> 97 \<le> ord c \<and> ord c \<le> 122"

definition isalpha :: "char \<Rightarrow> bool" where
  "isalpha c \<longleftrightarrow> isupper c \<or> islower c"

definition isxdigit :: "char \<Rightarrow> bool" where
  "isxdigit c \<longleftrightarrow> isdigit c \<or> (65 \<le> ord c \<and> ord c \<le> 70) \<or> (97 \<le> ord c \<and> ord c \<le> 102)"

definition isspace :: "char \<Rightarrow> bool" where
  "isspace c \<longleftrightarrow> ord c = 32 \<or> (9 \<le> ord c \<and> ord c \<le> 13)"

definition isprint :: "char \<Rightarrow> bool" where
  "isprint c \<longleftrightarrow> 32 \<le> ord c \<and> ord c \<le> 126"

definition tolower :: "char \<Rightarrow> char" where
  "tolower c = (if isupper c then char_of (ord c + 32) else c)"

lemmas ctype_defs = isdigit_def isupper_def islower_def isalpha_def isxdigit_def isspace_def isprint_def

section \<open>Strings\<close>

definition strcasecmp :: "string \<Rightarrow> string \<Rightarrow> bool" where
  "strcasecmp s t \<longleftrightarrow> map tolower s = map tolower t"

definition strncasecmp :: "string \<Rightarrow> string \<Rightarrow> nat \<Rightarrow> bool" where
  "strncasecmp s t n \<longleftrightarrow> strcasecmp (take n s) (take n t)"

text \<open>\<open>strcmp\<close>: the sign is that of the first difference, characters compared as bytes.\<close>

fun strcmp :: "string \<Rightarrow> string \<Rightarrow> int" where
  "strcmp [] [] = 0"
| "strcmp [] (b # t) = - int (ord b)"
| "strcmp (a # s) [] = int (ord a)"
| "strcmp (a # s) (b # t) = (if a = b then strcmp s t else int (ord a) - int (ord b))"

text \<open>\<open>strncmp\<close>: equal on the first \<open>n\<close> characters, where the terminator counts as one.\<close>

definition strncmp :: "string \<Rightarrow> string \<Rightarrow> nat \<Rightarrow> bool" where
  "strncmp s t n \<longleftrightarrow> take n s = take n t"

text \<open>
  \<open>strlcpy\<close> into a buffer of \<open>siz\<close> bytes: the string the buffer then holds and the length of the
  source. The loop copies while there is room for the terminator.
\<close>

fun strlcpy_loop :: "nat \<Rightarrow> string \<Rightarrow> string" where
  "strlcpy_loop 0 s = []"
| "strlcpy_loop (Suc 0) s = []"
| "strlcpy_loop (Suc (Suc n)) [] = []"
| "strlcpy_loop (Suc (Suc n)) (c # s) = c # strlcpy_loop (Suc n) s"

definition strlcpy :: "string \<Rightarrow> nat \<Rightarrow> string \<times> nat" where
  "strlcpy src siz = (strlcpy_loop siz src, length src)"

text \<open>
  \<open>strtok_r\<close> with the one delimiter the callers use: the next token and the rest of the string
  (\<open>None\<close> when the string is used up).
\<close>

definition strtok_r :: "char \<Rightarrow> string option \<Rightarrow> (string \<times> string option) option" where
  "strtok_r d lst =
     (case lst of
        None \<Rightarrow> None
      | Some s \<Rightarrow>
          (case dropWhile (\<lambda>c. c = d) s of
             [] \<Rightarrow> None
           | t \<Rightarrow> Some (takeWhile (\<lambda>c. c \<noteq> d) t,
                        case dropWhile (\<lambda>c. c \<noteq> d) t of [] \<Rightarrow> None | _ # r \<Rightarrow> Some r)))"

lemma strtok_r_decreases:
  "strtok_r d (Some s) = Some (t, Some r) \<Longrightarrow> length r < length s"
proof -
  assume a: "strtok_r d (Some s) = Some (t, Some r)"
  then obtain x y where "dropWhile (\<lambda>c. c \<noteq> d) (dropWhile (\<lambda>c. c = d) s) = x # r"
    by (auto simp: strtok_r_def split: list.splits)
  then have "length (x # r) \<le> length s"
    by (metis length_dropWhile_le order_trans)
  then show ?thesis by simp
qed

text \<open>The loop \<open>for (s = strtok(l, d); s != NULL; s = strtok(NULL, d))\<close>: all tokens in order.\<close>

function strtok_all :: "char \<Rightarrow> string option \<Rightarrow> string list" where
  "strtok_all d lst = (case strtok_r d lst of None \<Rightarrow> [] | Some (t, r) \<Rightarrow> t # strtok_all d r)"
  by pat_completeness auto
termination
proof (relation "measure (\<lambda>(d, lst). case lst of None \<Rightarrow> 0 | Some s \<Rightarrow> Suc (length s))")
  fix d lst x t r
  assume "strtok_r d lst = Some x" "(t, r) = x"
  then show "((d, r), d, lst) \<in> measure (\<lambda>(d, lst). case lst of None \<Rightarrow> 0 | Some s \<Rightarrow> Suc (length s))"
    using strtok_r_decreases[of d] by (cases lst; cases r) (auto simp: strtok_r_def)
qed simp

declare strtok_all.simps [simp del]

text \<open>\<open>strtok\<close> with a set of delimiters: the words of a string.\<close>

function strtok_words :: "string \<Rightarrow> string \<Rightarrow> string list" where
  "strtok_words d s =
     (case dropWhile (\<lambda>c. c \<in> set d) s of
        [] \<Rightarrow> []
      | t \<Rightarrow> takeWhile (\<lambda>c. c \<notin> set d) t # strtok_words d (drop 1 (dropWhile (\<lambda>c. c \<notin> set d) t)))"
  by pat_completeness auto
termination
proof (relation "measure (\<lambda>(d, s). length s)")
  fix d s x t
  assume a: "dropWhile (\<lambda>c. c \<in> set d) s = x # t"
  then have "x \<notin> set d" by (metis hd_dropWhile list.discI list.sel(1))
  then have "length (dropWhile (\<lambda>c. c \<notin> set d) (x # t)) \<le> length t" by (simp add: length_dropWhile_le)
  moreover have "length (x # t) \<le> length s" using a by (metis length_dropWhile_le)
  ultimately show "((d, drop 1 (dropWhile (\<lambda>c. c \<notin> set d) (x # t))), d, s) \<in> measure (\<lambda>(d, s). length s)" by simp
qed simp

declare strtok_words.simps [simp del]

section \<open>Numbers\<close>

definition LLONG_MIN :: int where "LLONG_MIN = - (2 ^ 63)"
definition LLONG_MAX :: int where "LLONG_MAX = 2 ^ 63 - 1"
definition INT_MAX :: int where "INT_MAX = 2 ^ 31 - 1"

definition digit_val :: "char \<Rightarrow> int option" where
  "digit_val c =
     (if isdigit c then Some (int (ord c) - 48)
      else if isalpha c then Some (int (ord c) - (if isupper c then 55 else 87))
      else None)"

text \<open>The conversion loop: the accumulator, \<open>any\<close> (negative after an overflow), the rest.\<close>

fun strtoll_loop :: "int \<Rightarrow> bool \<Rightarrow> int \<Rightarrow> int \<Rightarrow> int \<Rightarrow> int \<Rightarrow> string \<Rightarrow> int \<times> int \<times> string" where
  "strtoll_loop base neg cutoff cutlim acc any [] = (acc, any, [])"
| "strtoll_loop base neg cutoff cutlim acc any (ch # s) =
     (case digit_val ch of
        None \<Rightarrow> (acc, any, ch # s)
      | Some c \<Rightarrow>
          if c \<ge> base then (acc, any, ch # s)
          else if any < 0 then strtoll_loop base neg cutoff cutlim acc any s
          else if neg then
            (if acc < cutoff \<or> (acc = cutoff \<and> c > cutlim)
             then strtoll_loop base neg cutoff cutlim LLONG_MIN (- 1) s
             else strtoll_loop base neg cutoff cutlim (acc * base - c) 1 s)
          else
            (if acc > cutoff \<or> (acc = cutoff \<and> c > cutlim)
             then strtoll_loop base neg cutoff cutlim LLONG_MAX (- 1) s
             else strtoll_loop base neg cutoff cutlim (acc * base + c) 1 s))"

declare strtoll_loop.simps(2) [simp del]

definition skip_sign :: "string \<Rightarrow> bool \<times> string" where
  "skip_sign s = (case s of [] \<Rightarrow> (False, []) | c # r \<Rightarrow>
     if c = CHR ''-'' then (True, r) else if c = CHR ''+'' then (False, r) else (False, s))"

definition skip_0x :: "int \<Rightarrow> string \<Rightarrow> int \<times> string" where
  "skip_0x base s =
     (let hex = ((base = 0 \<or> base = 16) \<and> length s \<ge> 2 \<and> s ! 0 = CHR ''0'' \<and>
                 (s ! 1 = CHR ''x'' \<or> s ! 1 = CHR ''X''));
          base1 = (if hex then 16 else base); s1 = (if hex then drop 2 s else s)
      in (if base1 = 0 then (if s1 \<noteq> [] \<and> hd s1 = CHR ''0'' then 8 else 10) else base1, s1))"

text \<open>The value, whether it overflowed (\<open>errno = ERANGE\<close>), and the string at \<open>endptr\<close>.\<close>

definition strtoll :: "string \<Rightarrow> int \<Rightarrow> int \<times> bool \<times> string" where
  "strtoll nptr base0 =
     (case skip_sign (dropWhile isspace nptr) of (neg, s) \<Rightarrow>
      case skip_0x base0 s of (base, s1) \<Rightarrow>
      let lim = (if neg then LLONG_MIN else LLONG_MAX);
          cutlim = lim smod base;
          cutoff = lim sdiv base;
          cutoff1 = (if neg \<and> cutlim > 0 then cutoff + 1 else cutoff);
          cutlim1 = (if neg then - (if cutlim > 0 then cutlim - base else cutlim) else cutlim)
      in case strtoll_loop base neg cutoff1 cutlim1 0 0 s1 of
        (acc, any, r) \<Rightarrow> (acc, any < 0, if any \<noteq> 0 then r else nptr))"

text \<open>\<open>strtol\<close>: a \<open>long\<close> is as wide as a \<open>long long\<close>. \<open>strtoul\<close>: a minus sign wraps around.\<close>

definition strtol :: "string \<Rightarrow> int \<Rightarrow> int \<times> bool \<times> string" where
  "strtol nptr base0 = strtoll nptr base0"

definition ULONG_MAX :: int where "ULONG_MAX = 2 ^ 64 - 1"

fun strtoul_loop :: "int \<Rightarrow> int \<Rightarrow> int \<Rightarrow> string \<Rightarrow> int \<times> int \<times> string" where
  "strtoul_loop base acc any [] = (acc, any, [])"
| "strtoul_loop base acc any (ch # s) =
     (case digit_val ch of
        None \<Rightarrow> (acc, any, ch # s)
      | Some c \<Rightarrow>
          if c \<ge> base then (acc, any, ch # s)
          else if any < 0 then strtoul_loop base acc any s
          else if acc > ULONG_MAX div base \<or> (acc = ULONG_MAX div base \<and> c > ULONG_MAX mod base)
          then strtoul_loop base ULONG_MAX (- 1) s
          else strtoul_loop base (acc * base + c) 1 s)"

declare strtoul_loop.simps(2) [simp del]

definition strtoul :: "string \<Rightarrow> int \<Rightarrow> int \<times> bool \<times> string" where
  "strtoul nptr base0 =
     (case skip_sign (dropWhile isspace nptr) of (neg, s) \<Rightarrow>
      case skip_0x base0 s of (base, s1) \<Rightarrow>
      case strtoul_loop base 0 0 s1 of (acc, any, r) \<Rightarrow>
        (if neg \<and> any > 0 then (- acc) mod (ULONG_MAX + 1) else acc, any < 0, if any \<noteq> 0 then r else nptr))"

definition strtonum :: "string \<Rightarrow> int \<Rightarrow> int \<Rightarrow> world \<Rightarrow> int \<times> string option \<times> world" where
  "strtonum numstr minval maxval w =
     (if minval > maxval then (0, Some ''invalid'', set_errno EINVAL w)
      else case strtoll numstr 10 of (ll, erange, ep) \<Rightarrow>
        if numstr = ep \<or> ep \<noteq> [] then (0, Some ''invalid'', set_errno EINVAL w)
        else if (ll = LLONG_MIN \<and> erange) \<or> ll < minval then (0, Some ''too small'', set_errno ERANGE w)
        else if (ll = LLONG_MAX \<and> erange) \<or> ll > maxval then (0, Some ''too large'', set_errno ERANGE w)
        else (ll, None, w))"

text \<open>\<open>sscanf(s, "%u<sep>%u", ..)\<close>: the two numbers when both conversions succeed.\<close>

definition scan_u :: "string \<Rightarrow> (u32 \<times> string) option" where
  "scan_u s =
     (case skip_sign (dropWhile isspace s) of (neg, r) \<Rightarrow>
        let ds = takeWhile isdigit r;
            n = min (foldl (\<lambda>a c. a * 10 + (ord c - 48)) 0 ds) (2 ^ 64 - 1)
        in if ds = [] then None
           else Some (if neg then - of_nat n else of_nat n, dropWhile isdigit r))"

definition sscanf_u_u :: "char \<Rightarrow> string \<Rightarrow> (u32 \<times> u32) option" where
  "sscanf_u_u sep s =
     (case scan_u s of
        Some (a, c # r) \<Rightarrow>
          if c = sep then map_option (\<lambda>(b, _). (a, b)) (scan_u r) else None
      | _ \<Rightarrow> None)"

section \<open>Addresses\<close>

text \<open>The inner loop of \<open>inet_aton\<close>: a number of the given base, wrapping at 32 bits.\<close>

fun inet_num :: "u32 \<Rightarrow> u32 \<Rightarrow> string \<Rightarrow> u32 \<times> string" where
  "inet_num base val [] = (val, [])"
| "inet_num base val (c # s) =
     (if isdigit c then inet_num base (val * base + of_nat (ord c - 48)) s
      else if base = 16 \<and> isxdigit c then
        inet_num base (push_bit 4 val OR of_nat (ord c + 10 - (if islower c then 97 else 65))) s
      else (val, c # s))"

lemma inet_num_length: "length (snd (inet_num base val s)) \<le> length s"
  by (induction base val s rule: inet_num.induct) auto

definition inet_part :: "string \<Rightarrow> (u32 \<times> string) option" where
  "inet_part s =
     (case s of
        [] \<Rightarrow> None
      | c # r \<Rightarrow>
          if \<not> isdigit c then None
          else if c = CHR ''0'' then
            (case r of
               x # r' \<Rightarrow> if x = CHR ''x'' \<or> x = CHR ''X'' then Some (inet_num 16 0 r') else Some (inet_num 8 0 r)
             | [] \<Rightarrow> Some (inet_num 8 0 r))
          else Some (inet_num 10 0 s))"

lemma inet_part_length: "inet_part s = Some (v, r) \<Longrightarrow> length r \<le> length s"
proof -
  assume a: "inet_part s = Some (v, r)"
  have "length (snd (inet_num b x t)) \<le> length s" if "length t \<le> length s" for b x t
    using inet_num_length[of b x t] that by simp
  with a show ?thesis
    by (auto simp: inet_part_def split: list.splits if_splits) (metis snd_conv le_Suc_eq length_Cons order_refl)+
qed

text \<open>The outer loop collects at most three parts before the final number.\<close>

function inet_parts :: "u32 list \<Rightarrow> string \<Rightarrow> (u32 list \<times> u32 \<times> string) option" where
  "inet_parts ps s =
     (case inet_part s of
        None \<Rightarrow> None
      | Some (val, r) \<Rightarrow>
          (case r of
             c # r' \<Rightarrow>
               if c = CHR ''.'' then (if length ps \<ge> 3 then None else inet_parts (ps @ [val]) r')
               else Some (ps, val, r)
           | [] \<Rightarrow> Some (ps, val, r)))"
  by pat_completeness auto
termination
  by (relation "measure (\<lambda>(ps, s). length s)") (auto dest!: inet_part_length)

declare inet_parts.simps [simp del]

definition inet_aton :: "string \<Rightarrow> u32 option" where
  "inet_aton cp =
     (case inet_parts [] cp of
        None \<Rightarrow> None
      | Some (parts, val, r) \<Rightarrow>
          if r \<noteq> [] \<and> \<not> isspace (hd r) then None
          else (case parts of
             [] \<Rightarrow> Some val
           | [p0] \<Rightarrow> if val > 0xffffff \<or> p0 > 0xff then None else Some (val OR push_bit 24 p0)
           | [p0, p1] \<Rightarrow>
               if val > 0xffff \<or> p0 > 0xff \<or> p1 > 0xff then None
               else Some (val OR (push_bit 24 p0 OR push_bit 16 p1))
           | p0 # p1 # p2 # _ \<Rightarrow>
               if val > 0xff \<or> p0 > 0xff \<or> p1 > 0xff \<or> p2 > 0xff then None
               else Some (val OR (push_bit 24 p0 OR push_bit 16 p1 OR push_bit 8 p2))))"

text \<open>\<open>_ether_aton\<close>: six octets in hexadecimal.\<close>

fun ether_octets :: "nat \<Rightarrow> string \<Rightarrow> byte list option" where
  "ether_octets 0 s = Some []"
| "ether_octets (Suc n) s =
     (case strtoll s 16 of (l, _, pp) \<Rightarrow>
        if pp = s \<or> l > 0xff \<or> l < 0 then None
        else (case pp of
          [] \<Rightarrow> if n = 0 then Some [word_of_int l] else None
        | c # r \<Rightarrow>
            if c = CHR '':'' \<or> (n = 0 \<and> isspace c)
            then map_option (\<lambda>os. word_of_int l # os) (ether_octets n r) else None))"

definition ether_aton :: "string \<Rightarrow> byte list option" where
  "ether_aton s = ether_octets 6 (dropWhile isspace s)"

text \<open>\<open>ether_ntoa\<close>: \<open>%02x\<close> for each octet.\<close>

definition hex_digit :: "nat \<Rightarrow> char" where
  "hex_digit n = char_of (if n < 10 then 48 + n else 87 + n)"

definition hex2 :: "byte \<Rightarrow> string" where
  "hex2 b = [hex_digit (unat b div 16), hex_digit (unat b mod 16)]"

fun ether_ntoa :: "byte list \<Rightarrow> string" where
  "ether_ntoa [] = []"
| "ether_ntoa [b] = hex2 b"
| "ether_ntoa (b # bs) = hex2 b @ '':'' @ ether_ntoa bs"

section \<open>Binary search\<close>

text \<open>
  \<open>bsearch\<close> on the table \<open>t\<close>, from \<open>base\<close> over \<open>lim\<close> elements: the index found. Reading an
  index outside the table would be undefined; \<open>bsearch_in_bounds\<close> shows it never happens.
\<close>

function bsearch_loop :: "('a \<Rightarrow> int) \<Rightarrow> 'a list \<Rightarrow> nat \<Rightarrow> nat \<Rightarrow> nat option" where
  "bsearch_loop compar t base lim =
     (if lim = 0 then None
      else let p = base + lim div 2; cmp = compar (t ! p) in
        if cmp = 0 then Some p
        else if cmp > 0 then bsearch_loop compar t (p + 1) ((lim - 1) div 2)
        else bsearch_loop compar t base (lim div 2))"
  by pat_completeness auto
termination
  by (relation "measure (\<lambda>(c, t, b, lim). lim)") auto

declare bsearch_loop.simps [simp del]

definition bsearch :: "('a \<Rightarrow> int) \<Rightarrow> 'a list \<Rightarrow> 'a option" where
  "bsearch compar t = map_option (nth t) (bsearch_loop compar t 0 (length t))"

section \<open>Copying and tokens\<close>

lemma strlcpy_loop_take: "strlcpy_loop siz s = take (siz - 1) s"
  by (induction siz s rule: strlcpy_loop.induct) auto

lemma strlcpy_fits: "strlcpy s n = (t, l) \<Longrightarrow> l < n \<Longrightarrow> t = s"
  by (auto simp: strlcpy_def strlcpy_loop_take)

lemma strlcpy_bounded: "0 < n \<Longrightarrow> length (fst (strlcpy s n)) < n"
  by (auto simp: strlcpy_def strlcpy_loop_take)

lemma ord_zero: "ord c = 0 \<longleftrightarrow> c = CHR 0x00"
proof -
  have "ord (CHR 0x00) = 0" by simp
  then show ?thesis by (metis of_char_eq_iff)
qed

lemma ord_eq: "ord a = ord b \<longleftrightarrow> a = b"
  by (rule of_char_eq_iff)

lemma strcmp_eq: "CHR 0x00 \<notin> set s \<union> set t \<Longrightarrow> strcmp s t = 0 \<longleftrightarrow> s = t"
proof (induction s t rule: strcmp.induct)
  case (4 a s b t)
  then show ?case using ord_eq[of a b] by (cases "a = b") (simp_all del: of_char_eq_iff)
qed (auto simp: ord_zero)

lemma strcmp_less: "CHR 0x00 \<notin> set s \<union> set t \<Longrightarrow> strcmp s t < 0 \<longleftrightarrow> s < t"
proof (induction s t rule: strcmp.induct)
  case (2 b t)
  then show ?case using ord_zero[of b] by auto
next
  case (4 a s b t)
  then show ?case by (cases "a = b") (simp_all add: less_char_def)
qed simp_all

lemma strcmp_greater: "CHR 0x00 \<notin> set s \<union> set t \<Longrightarrow> strcmp s t > 0 \<longleftrightarrow> t < s"
  using strcmp_eq[of s t] strcmp_less[of s t] by (metis linorder_less_linear order_less_asym')

section \<open>Specification of the number parsers\<close>

text \<open>The number a string denotes: optional white space and sign, then only decimal digits.\<close>

abbreviation dig :: "char \<Rightarrow> int" where
  "dig c \<equiv> int (ord c) - 48"

definition dval :: "int \<Rightarrow> string \<Rightarrow> int" where
  "dval a ds = foldl (\<lambda>a c. a * 10 + dig c) a ds"

definition num_ref :: "string \<Rightarrow> int option" where
  "num_ref s =
     (case skip_sign (dropWhile isspace s) of (neg, ds) \<Rightarrow>
        if ds \<noteq> [] \<and> list_all isdigit ds then Some (if neg then - dval 0 ds else dval 0 ds) else None)"

lemma dval_simps [simp]: "dval a [] = a" "dval a (c # ds) = dval (a * 10 + dig c) ds"
  by (simp_all add: dval_def)

lemma dval_append: "dval a (xs @ ys) = dval (dval a xs) ys"
  by (simp add: dval_def)

lemma digit_val_10: "digit_val c = (if isdigit c then Some (dig c) else digit_val c)"
  by (simp add: digit_val_def)

lemma digit_val_alpha: "\<not> isdigit c \<Longrightarrow> digit_val c = Some v \<Longrightarrow> v \<ge> 10"
  by (auto simp: digit_val_def ctype_defs split: if_splits)

lemma dig_range: "isdigit c \<Longrightarrow> 0 \<le> dig c \<and> dig c \<le> 9"
  by (auto simp: isdigit_def)

lemma dval_mono: "list_all isdigit ds \<Longrightarrow> 0 \<le> a \<Longrightarrow> a \<le> dval a ds"
proof (induction ds arbitrary: a)
  case (Cons c ds)
  then have "0 \<le> dig c" using dig_range by auto
  with Cons.prems Cons.IH[of "a * 10 + dig c"] show ?case by simp
qed simp

lemma digits_takeWhile: "list_all isdigit (takeWhile isdigit s)"
  by (auto simp: list_all_iff dest: set_takeWhileD)

lemma strtoll_loop_stop: "s = [] \<or> \<not> isdigit (hd s) \<Longrightarrow>
   strtoll_loop 10 neg co cl acc any s = (acc, any, s)"
  by (cases s) (auto simp: strtoll_loop.simps(2) dest: digit_val_alpha split: option.splits)

lemma strtoll_loop_digit: "isdigit c \<Longrightarrow> strtoll_loop 10 neg co cl acc any (c # s) =
   (if any < 0 then strtoll_loop 10 neg co cl acc any s
    else if neg then
      (if acc < co \<or> (acc = co \<and> dig c > cl) then strtoll_loop 10 neg co cl LLONG_MIN (- 1) s
       else strtoll_loop 10 neg co cl (acc * 10 - dig c) 1 s)
    else
      (if acc > co \<or> (acc = co \<and> dig c > cl) then strtoll_loop 10 neg co cl LLONG_MAX (- 1) s
       else strtoll_loop 10 neg co cl (acc * 10 + dig c) 1 s))"
  using dig_range[of c] by (simp add: digit_val_def strtoll_loop.simps(2))

lemma strtoll_loop_over: "any < 0 \<Longrightarrow>
   strtoll_loop 10 neg co cl acc any s = (acc, any, dropWhile isdigit s)"
proof (induction s)
  case (Cons c s)
  then show ?case
    by (cases "isdigit c") (simp_all add: strtoll_loop_digit strtoll_loop_stop)
qed simp

lemma strtoll_loop_pos:
  assumes "0 \<le> acc" "acc \<le> LLONG_MAX" "0 \<le> any"
  shows "strtoll_loop 10 False (LLONG_MAX div 10) (LLONG_MAX mod 10) acc any s =
    (let ds = takeWhile isdigit s; v = dval acc ds in
     if v \<le> LLONG_MAX then (v, if ds = [] then any else 1, dropWhile isdigit s)
     else (LLONG_MAX, - 1, dropWhile isdigit s))"
  using assms
proof (induction s arbitrary: acc any)
  case Nil
  then show ?case by simp
next
  case (Cons c s)
  show ?case
  proof (cases "isdigit c")
    case False
    with Cons.prems show ?thesis by (simp add: strtoll_loop_stop)
  next
    case True
    note d = dig_range[OF True]
    let ?v = "acc * 10 + dig c"
    have lim: "acc > LLONG_MAX div 10 \<or> (acc = LLONG_MAX div 10 \<and> dig c > LLONG_MAX mod 10) \<longleftrightarrow> ?v > LLONG_MAX"
      using d by (auto simp: LLONG_MAX_def)
    have big: "dval ?v (takeWhile isdigit s) > LLONG_MAX" if "?v > LLONG_MAX"
      using dval_mono[OF digits_takeWhile[of s], of ?v] that Cons.prems d by linarith
    show ?thesis
    proof (cases "?v > LLONG_MAX")
      case over: True
      with True Cons.prems(3) lim big show ?thesis
        by (simp add: strtoll_loop_digit strtoll_loop_over Let_def)
    next
      case False
      then have "\<not> (acc > LLONG_MAX div 10 \<or> (acc = LLONG_MAX div 10 \<and> dig c > LLONG_MAX mod 10))"
        using lim by simp
      then have "strtoll_loop 10 False (LLONG_MAX div 10) (LLONG_MAX mod 10) acc any (c # s) =
          strtoll_loop 10 False (LLONG_MAX div 10) (LLONG_MAX mod 10) ?v 1 s"
        using True Cons.prems(3) strtoll_loop_digit[OF True, of False] by (metis not_less)
      with True False Cons.prems d Cons.IH[of ?v 1] show ?thesis
        by (simp add: Let_def)
    qed
  qed
qed

lemma strtoll_loop_neg:
  assumes "0 \<le> acc" "acc \<le> - LLONG_MIN" "0 \<le> any"
  shows "strtoll_loop 10 True (- (2 ^ 63 div 10)) (2 ^ 63 mod 10) (- acc) any s =
    (let ds = takeWhile isdigit s; v = - dval acc ds in
     if v \<ge> LLONG_MIN then (v, if ds = [] then any else 1, dropWhile isdigit s)
     else (LLONG_MIN, - 1, dropWhile isdigit s))"
  using assms
proof (induction s arbitrary: acc any)
  case Nil
  then show ?case by simp
next
  case (Cons c s)
  show ?case
  proof (cases "isdigit c")
    case False
    with Cons.prems show ?thesis by (simp add: strtoll_loop_stop)
  next
    case True
    note d = dig_range[OF True]
    let ?v = "acc * 10 + dig c"
    have lim: "- acc < - (2 ^ 63 div 10) \<or> (- acc = - (2 ^ 63 div 10) \<and> dig c > 2 ^ 63 mod 10) \<longleftrightarrow> - ?v < LLONG_MIN"
      using d by (auto simp: LLONG_MIN_def)
    have neg: "- acc * 10 - dig c = - ?v" by simp
    have big: "- dval ?v (takeWhile isdigit s) < LLONG_MIN" if "- ?v < LLONG_MIN"
      using dval_mono[OF digits_takeWhile[of s], of ?v] that Cons.prems d by linarith
    show ?thesis
    proof (cases "- ?v < LLONG_MIN")
      case over: True
      with True Cons.prems(3) lim big show ?thesis
        by (simp only: strtoll_loop_digit strtoll_loop_over Let_def) (simp add: strtoll_loop_over)
    next
      case False
      with True Cons.prems lim d Cons.IH[of ?v 1] show ?thesis
        by (simp only: strtoll_loop_digit neg Let_def) simp
    qed
  qed
qed

text \<open>The range \<open>errno\<close> reports is exactly a value outside 64 bits.\<close>

lemma strtoll_10:
  "strtoll s 10 =
     (case skip_sign (dropWhile isspace s) of (neg, t) \<Rightarrow>
        let ds = takeWhile isdigit t; v = (if neg then - dval 0 ds else dval 0 ds) in
        if ds = [] then (0, False, s)
        else if v > LLONG_MAX then (LLONG_MAX, True, dropWhile isdigit t)
        else if v < LLONG_MIN then (LLONG_MIN, True, dropWhile isdigit t)
        else (v, False, dropWhile isdigit t))"
proof -
  obtain neg t where sk: "skip_sign (dropWhile isspace s) = (neg, t)" by fastforce
  let ?ds = "takeWhile isdigit t"
  have nn: "0 \<le> dval 0 ?ds" using dval_mono[OF digits_takeWhile, of 0] by simp
  have x0: "skip_0x 10 t = (10, t)" by (simp add: skip_0x_def)
  show ?thesis
  proof (cases neg)
    case False
    have c: "LLONG_MAX smod 10 = LLONG_MAX mod 10" "LLONG_MAX sdiv 10 = LLONG_MAX div 10"
      by (simp_all add: LLONG_MAX_def)
    have "dval 0 ?ds \<ge> LLONG_MIN" using nn by (simp add: LLONG_MIN_def)
    with False sk x0 c nn show ?thesis
      using strtoll_loop_pos[of 0 0 t] by (auto simp: strtoll_def Let_def LLONG_MAX_def)
  next
    case True
    have c: "LLONG_MIN smod 10 = - (2 ^ 63 mod 10)" "LLONG_MIN sdiv 10 = - (2 ^ 63 div 10)"
      by (simp_all add: LLONG_MIN_def)
    have "- dval 0 ?ds \<le> LLONG_MAX" using nn by (simp add: LLONG_MAX_def)
    with True sk x0 c nn show ?thesis
      using strtoll_loop_neg[of 0 0 t] by (auto simp: strtoll_def Let_def LLONG_MIN_def)
  qed
qed

lemma skip_sign_length: "skip_sign s = (n, t) \<Longrightarrow> length t \<le> length s"
  by (auto simp: skip_sign_def split: list.splits if_splits)

text \<open>\<open>strtonum\<close> is exact: the value of the string if it is a number in the range, the reason
  why not otherwise, and \<open>errno\<close> only changes on failure.\<close>

lemma strtonum_ref:
  assumes "LLONG_MIN \<le> mn" "mn \<le> mx" "mx \<le> LLONG_MAX"
  shows "strtonum s mn mx w =
    (case num_ref s of
       None \<Rightarrow> (0, Some ''invalid'', set_errno EINVAL w)
     | Some v \<Rightarrow>
         if v < mn then (0, Some ''too small'', set_errno ERANGE w)
         else if v > mx then (0, Some ''too large'', set_errno ERANGE w)
         else (v, None, w))"
proof -
  obtain neg t where sk: "skip_sign (dropWhile isspace s) = (neg, t)" by fastforce
  let ?ds = "takeWhile isdigit t"
  have len: "length t \<le> length s"
    using skip_sign_length[OF sk] length_dropWhile_le[of isspace s] by simp
  have all: "list_all isdigit t \<longleftrightarrow> dropWhile isdigit t = []"
    by (simp add: list_all_iff)
  show ?thesis
  proof (cases "?ds = []")
    case True
    then have "t = [] \<or> \<not> list_all isdigit t" by (cases t) auto
    with True sk assms show ?thesis
      by (auto simp: strtonum_def strtoll_10 num_ref_def Let_def)
  next
    case False
    have "length (dropWhile isdigit t) < length t"
    proof -
      have "length t = length ?ds + length (dropWhile isdigit t)"
        by (metis length_append takeWhile_dropWhile_id)
      with False show ?thesis by simp
    qed
    then have ne: "dropWhile isdigit t \<noteq> s" using len by auto
    have t: "t \<noteq> []" using False by auto
    show ?thesis
    proof (cases "dropWhile isdigit t = []")
      case True
      then have ds: "?ds = t" by (metis append_Nil2 takeWhile_dropWhile_id)
      define v where "v = (if neg then - dval 0 t else dval 0 t)"
      have sl: "strtoll s 10 = (if v > LLONG_MAX then (LLONG_MAX, True, [])
          else if v < LLONG_MIN then (LLONG_MIN, True, []) else (v, False, []))"
        using True sk t by (simp add: strtoll_10 Let_def ds v_def)
      have nr: "num_ref s = Some v" using sk t all True by (simp add: num_ref_def v_def)
      have "s \<noteq> []" using ne True by auto
      then show ?thesis
        using assms by (simp add: strtonum_def sl nr) (auto simp: LLONG_MIN_def LLONG_MAX_def)
    next
      case rest: False
      with False sk assms ne all t show ?thesis
        by (auto simp: strtonum_def strtoll_10 num_ref_def Let_def)
    qed
  qed
qed

lemma digits_isdigit: "list_all isdigit (digits n) \<and> digits n \<noteq> [] \<and> dval 0 (digits n) = int n"
proof (induction n rule: digits.induct)
  case (1 n)
  have o: "ord (char_of (48 + m)) = 48 + m" if "m < 10" for m :: nat
    using that by (simp add: of_char_of take_bit_nat_eq_self)
  show ?case
  proof (cases "n < 10")
    case True
    then show ?thesis by (simp add: digits.simps[of n] isdigit_def o)
  next
    case False
    have "n mod 10 < 10" by simp
    with False 1 show ?thesis
      by (simp add: digits.simps[of n] isdigit_def o dval_append) (simp add: zmod_int zdiv_int)
  qed
qed

lemma num_ref_show_int: "num_ref (show_int n) = Some n"
proof -
  note d = digits_isdigit[of "nat \<bar>n\<bar>"]
  obtain c cs where ds: "digits (nat \<bar>n\<bar>) = c # cs" using d by (cases "digits (nat \<bar>n\<bar>)") auto
  then have c: "isdigit c" using d by simp
  then have "\<not> isspace c" "c \<noteq> CHR ''-''" "c \<noteq> CHR ''+''" by (auto simp: isdigit_def isspace_def)
  moreover have "\<not> isspace (CHR ''-'')" by (simp add: isspace_def)
  ultimately show ?thesis
    using d ds by (cases "n < 0") (auto simp: show_int_def num_ref_def skip_sign_def)
qed

section \<open>Binary search\<close>

lemma bsearch_loop_Some:
  "bsearch_loop f t base lim = Some i \<Longrightarrow> base \<le> i \<and> i < base + lim \<and> f (t ! i) = 0"
proof (induction f t base lim arbitrary: i rule: bsearch_loop.induct)
  case (1 f t base lim)
  let ?p = "base + lim div 2"
  consider "lim = 0" | "lim > 0" "f (t ! ?p) = 0" | "lim > 0" "f (t ! ?p) > 0" | "lim > 0" "f (t ! ?p) < 0"
    by linarith
  then show ?case
  proof cases
    case 3
    then have "bsearch_loop f t (?p + 1) ((lim - 1) div 2) = Some i"
      using 1(3) by (simp add: bsearch_loop.simps[of f t base lim] Let_def)
    with 1(1)[OF _ refl refl] 3 show ?thesis by fastforce
  next
    case 4
    then have "bsearch_loop f t base (lim div 2) = Some i"
      using 1(3) by (simp add: bsearch_loop.simps[of f t base lim] Let_def)
    with 1(2)[OF _ refl refl] 4 show ?thesis by fastforce
  next
    case a: 1
    then show ?thesis using 1(3) by (simp add: bsearch_loop.simps[of f t base 0])
  next
    case a: 2
    then show ?thesis using 1(3) by (auto simp: bsearch_loop.simps[of f t base lim] Let_def)
  qed
qed

lemma bsearch_loop_complete:
  assumes "\<And>i j. i < j \<Longrightarrow> j < base + lim \<Longrightarrow> f (t ! j) \<ge> 0 \<Longrightarrow> f (t ! i) > 0"
    and "base \<le> i" "i < base + lim" "f (t ! i) = 0"
  shows "bsearch_loop f t base lim = Some i"
  using assms
proof (induction f t base lim rule: bsearch_loop.induct)
  case (1 f t base lim)
  let ?p = "base + lim div 2"
  have lim: "lim \<noteq> 0" using 1(4,5) by simp
  have p: "?p < base + lim" using lim by simp
  show ?case
  proof (cases "i = ?p")
    case True
    then show ?thesis using lim 1(6) by (simp add: bsearch_loop.simps[of f t base lim])
  next
    case ne: False
    show ?thesis
    proof (cases "i < ?p")
      case True
      have "\<not> f (t ! ?p) \<ge> 0" using 1(3)[OF True p] 1(6) by auto
      moreover have "bsearch_loop f t base (lim div 2) = Some i"
        using 1(2)[OF lim refl refl] calculation 1(3-6) True by auto
      ultimately show ?thesis using lim by (simp add: bsearch_loop.simps[of f t base lim] Let_def)
    next
      case False
      then have "?p < i" using ne by simp
      then have pos: "f (t ! ?p) > 0" using 1(3)[of ?p i] 1(5,6) by simp
      have "bsearch_loop f t (?p + 1) ((lim - 1) div 2) = Some i"
        using 1(1)[OF lim refl refl] pos 1(3-6) \<open>?p < i\<close> by auto
      with pos lim show ?thesis by (simp add: bsearch_loop.simps[of f t base lim] Let_def)
    qed
  qed
qed

end
