(* ===== verification/Keywords.thy ===== *)
theory Keywords
  imports C_Lib
begin

text \<open>
  Keyword tables searched with \<open>bsearch\<close>: the contract of a table that is sorted by its keys, and
  what a lookup in it returns. The tables of \<open>ifconfigctl\<close> and of the configuration language
  are its instances.
\<close>

text \<open>A C string has no NUL in it.\<close>

definition cstr :: "string \<Rightarrow> bool" where
  "cstr s \<longleftrightarrow> CHR 0x00 \<notin> set s"

locale keyword_table =
  fixes tab :: "(string \<times> 'a) list"
  assumes tab_sorted: "sorted_wrt (<) (map fst tab)"
    and tab_cstr: "\<And>k v. (k, v) \<in> set tab \<Longrightarrow> cstr k"
begin

lemma key_cstr: "i < length tab \<Longrightarrow> cstr (fst (tab ! i))"
  using tab_cstr[of "fst (tab ! i)" "snd (tab ! i)"] nth_mem[of i tab] by simp

lemma key_less: "i < j \<Longrightarrow> j < length tab \<Longrightarrow> fst (tab ! i) < fst (tab ! j)"
  using tab_sorted by (auto simp: sorted_wrt_iff_nth_less)

lemma distinct_keys: "distinct (map fst tab)"
  using tab_sorted strict_sorted_iff by blast

lemma lookup_key:
  assumes s: "cstr s"
  shows "map_option snd (bsearch (\<lambda>e. strcmp s (fst e)) tab) = map_of tab s"
proof (cases "map_of tab s")
  case None
  have "bsearch_loop (\<lambda>e. strcmp s (fst e)) tab 0 (length tab) = None"
  proof (rule ccontr)
    assume "bsearch_loop (\<lambda>e. strcmp s (fst e)) tab 0 (length tab) \<noteq> None"
    then obtain i where i: "i < length tab" "strcmp s (fst (tab ! i)) = 0"
      using bsearch_loop_Some by fastforce
    then have "s = fst (tab ! i)" using s key_cstr[OF i(1)] by (simp add: strcmp_eq cstr_def)
    with i(1) None show False by (metis map_of_eq_None_iff image_eqI nth_mem)
  qed
  with None show ?thesis by (simp add: bsearch_def)
next
  case (Some v)
  then obtain i where i: "i < length tab" "tab ! i = (s, v)"
    by (metis map_of_SomeD in_set_conv_nth)
  have "bsearch_loop (\<lambda>e. strcmp s (fst e)) tab 0 (length tab) = Some i"
  proof (rule bsearch_loop_complete)
    fix a b
    assume ab: "a < b" "b < 0 + length tab" "strcmp s (fst (tab ! b)) \<ge> 0"
    then have "\<not> s < fst (tab ! b)" using s key_cstr[of b] strcmp_less[of s "fst (tab ! b)"] by (simp add: cstr_def)
    with key_less[of a b] ab have "fst (tab ! a) < s" by auto
    then show "strcmp s (fst (tab ! a)) > 0"
      using s key_cstr[of a] ab strcmp_greater[of s "fst (tab ! a)"] by (simp add: cstr_def)
  qed (use i s strcmp_eq[of s s] in \<open>auto simp: cstr_def\<close>)
  with i Some show ?thesis by (simp add: bsearch_def)
qed

end

end
