(* ===== verification/Ifc_Base.thy ===== *)
theory Ifc_Base
  imports C_Lib
begin

text \<open>
  The interface configuration library of the daemon (\<open>sbin/ifconfig/ifcutil.c\<close>, \<open>ifcutil.h\<close>):
  its global variables, the socket and the queries that fill them, and the setters of flags,
  metric, MTU, groups and descriptions. The daemon is built without \<open>INET6\<close> and without
  \<open>SMALL\<close>. A setter gets its argument and parameter, the globals and the world; it may return,
  exit (\<open>err\<close>, \<open>errx\<close>) or be undefined. The lemmas show which request reaches the kernel, for
  which interface and with which value.
\<close>

section \<open>Globals\<close>

text \<open>The entries of \<open>afs\<close>, without the \<open>inet6\<close> one.\<close>

datatype afswtch = AF_inet | AF_atalk

definition AF_INET :: int where "AF_INET = 2"
definition AF_APPLETALK :: int where "AF_APPLETALK = 16"
definition AF_LINK :: int where "AF_LINK = 18"

definition afs :: "(string \<times> afswtch) list" where
  "afs = [(''inet'', AF_inet), (''atalk'', AF_atalk)]"

fun af_af :: "afswtch \<Rightarrow> int" where
  "af_af AF_inet = AF_INET"
| "af_af AF_atalk = AF_APPLETALK"

text \<open>The addresses of \<open>ridreq\<close> and \<open>in_addreq\<close>, in host byte order.\<close>

record in_reqs =
  rid_addr :: u32
  ifra_addr :: u32
  ifra_mask :: u32
  ifra_broadaddr :: u32

record at_reqs =
  s_net :: u16
  s_node :: byte
  nr_firstnet :: u16
  nr_lastnet :: u16
  nr_phase :: nat

record media =
  media_current :: u32
  mediaopt_set :: u32
  mediaopt_clear :: u32

record ifc =
  ifname :: string
  ifr_name :: string
  sock :: int
  oaf :: int
  af :: int
  afp :: afswtch
  flags :: u32
  xflags :: u32
  metric :: int
  mtu :: int
  rdomainid :: int
  setaddr :: int
  setipdst :: int
  doalias :: int
  clearaddr :: int
  newaddr :: int
  explicit_prefix :: int
  actions :: u32
  shownet80211chans :: int
  shownet80211nodes :: int
  showmediaflag :: int
  have_tag :: bool
  tag :: u16
  inreq :: in_reqs
  atreq :: at_reqs
  med :: media

text \<open>
  Services of the C library that depend on the host's configuration:
  \<open>gethostbyname\<close>, \<open>getnetbyname\<close>, \<open>getaddrinfo\<close> (family, address, port and the socket
  address, or the text of the error) and \<open>arc4random_buf\<close>.
\<close>

record netdb =
  nd_host :: "string \<Rightarrow> u32 option"
  nd_net :: "string \<Rightarrow> u32 option"
  nd_gai :: "int \<Rightarrow> string \<Rightarrow> string option \<Rightarrow> string + (int \<times> u32 \<times> u16 \<times> byte list)"
  nd_random :: "nat \<Rightarrow> byte list"

definition IFNAMSIZ :: nat where "IFNAMSIZ = 16"

text \<open>\<open>strlcpy(dst, name, IFNAMSIZ)\<close> and the copy into \<open>ifr.ifr_name\<close>.\<close>

definition name_of :: "ifc \<Rightarrow> string" where
  "name_of g = fst (strlcpy (ifname g) IFNAMSIZ)"

definition set_ifr_name :: "ifc \<Rightarrow> ifc" where
  "set_ifr_name g = g\<lparr>ifr_name := name_of g\<rparr>"

section \<open>Errors\<close>

text \<open>\<open>err(3)\<close> and friends: the message on standard error, then \<open>exit(1)\<close> or on.\<close>

definition warnx :: "string \<Rightarrow> carg list \<Rightarrow> world \<Rightarrow> world" where
  "warnx fmt ap w = emit (EvStderr (vfmt fmt ap)) w"

definition warn :: "kernel \<Rightarrow> string \<Rightarrow> carg list \<Rightarrow> world \<Rightarrow> world" where
  "warn K fmt ap w = emit (EvStderr (vfmt fmt ap @ '': '' @ k_strerror K (errno w))) w"

definition errx :: "string \<Rightarrow> carg list \<Rightarrow> world \<Rightarrow> 'a outcome" where
  "errx fmt ap w = Exit 1 (warnx fmt ap w)"

definition err :: "kernel \<Rightarrow> string \<Rightarrow> carg list \<Rightarrow> world \<Rightarrow> 'a outcome" where
  "err K fmt ap w = Exit 1 (warn K fmt ap w)"

text \<open>\<open>usage\<close> of \<open>ifconfigd.c\<close>.\<close>

definition usage :: "world \<Rightarrow> 'a outcome" where
  "usage w = Exit 1 (emit (EvStderr ''usage: ifconfigd [-d] [-f file]\<newline>'') w)"

text \<open>The two ways the setters issue a request: a failure is fatal, or only reported.\<close>

definition ioctl_err ::
  "kernel \<Rightarrow> ifc \<Rightarrow> iocmd \<Rightarrow> string \<Rightarrow> ioarg \<Rightarrow> string \<Rightarrow> world \<Rightarrow> ioarg outcome" where
  "ioctl_err K g c name arg msg w =
     (case ioctl K (sock g) c name arg w of
        (None, w1) \<Rightarrow> err K msg [] w1
      | (Some r, w1) \<Rightarrow> Ok r w1)"

definition ioctl_warn ::
  "kernel \<Rightarrow> ifc \<Rightarrow> iocmd \<Rightarrow> string \<Rightarrow> ioarg \<Rightarrow> string \<Rightarrow> world \<Rightarrow> ifc outcome" where
  "ioctl_warn K g c name arg msg w =
     (case ioctl K (sock g) c name arg w of
        (None, w1) \<Rightarrow> Ok g (warn K msg [] w1)
      | (Some r, w1) \<Rightarrow> Ok g w1)"

text \<open>A number argument: \<open>strtonum\<close>, and \<open>errx\<close> on its error.\<close>

definition num_arg ::
  "string \<Rightarrow> int \<Rightarrow> int \<Rightarrow> string \<Rightarrow> world \<Rightarrow> int outcome" where
  "num_arg val mn mx fmt w =
     (case strtonum val mn mx w of
        (n, None, w1) \<Rightarrow> Ok n w1
      | (n, Some e, w1) \<Rightarrow> errx fmt [AS val, AS e] w1)"

section \<open>Socket and interface information\<close>

definition getsock :: "kernel \<Rightarrow> int \<Rightarrow> ifc \<Rightarrow> world \<Rightarrow> ifc \<times> world" where
  "getsock K naf g w =
     (if oaf g = naf then (g, w)
      else let w1 = (if oaf g \<noteq> - 1 then close_fd (sock g) w else w) in
        case sys_int K (EvDgram naf) w1 of
          (fd, w2) \<Rightarrow> (g\<lparr>sock := fd, oaf := (if fd < 0 then - 1 else naf)\<rparr>, w2))"

text \<open>\<open>is_bridge\<close> of \<open>brconfig.c\<close>.\<close>

definition is_bridge :: "kernel \<Rightarrow> ifc \<Rightarrow> string \<Rightarrow> world \<Rightarrow> bool \<times> world" where
  "is_bridge K g brdg w =
     (let n = fst (strlcpy brdg IFNAMSIZ) in
      case ioctl K (sock g) SIOCGIFFLAGS n IoNone w of
        (None, w1) \<Rightarrow> (False, w1)
      | (Some _, w1) \<Rightarrow>
          (case ioctl K (sock g) SIOCBRDGRTS n IoNone w1 of
             (None, w2) \<Rightarrow> (errno w2 = ENETDOWN, w2)
           | (Some _, w2) \<Rightarrow> (True, w2)))"

text \<open>A query whose failure stands for zero.\<close>

definition query :: "kernel \<Rightarrow> ifc \<Rightarrow> iocmd \<Rightarrow> string \<Rightarrow> world \<Rightarrow> int \<times> world" where
  "query K g c n w =
     (case ioctl K (sock g) c n IoNone w of
        (None, w1) \<Rightarrow> (0, w1)
      | (Some r, w1) \<Rightarrow> (io_int r, w1))"

text \<open>The flags query of \<open>getinfo\<close>, with the creation of a missing interface.\<close>

definition getinfo_flags :: "kernel \<Rightarrow> ifc \<Rightarrow> string \<Rightarrow> bool \<Rightarrow> world \<Rightarrow> ioarg option \<times> world" where
  "getinfo_flags K g n create w =
     (case ioctl K (sock g) SIOCGIFFLAGS n IoNone w of
        (Some r, w1) \<Rightarrow> (Some r, w1)
      | (None, w1) \<Rightarrow>
          if \<not> create then (None, w1)
          else (case ioctl K (sock g) SIOCIFCREATE n IoNone w1 of
             (None, w2) \<Rightarrow> (None, set_errno (errno w1) w2)
           | (Some _, w2) \<Rightarrow> ioctl K (sock g) SIOCGIFFLAGS n IoNone w2))"

text \<open>
  \<open>getinfo\<close> for the request with the name \<open>n\<close>. An empty \<open>name\<close> has no last character: the
  read of \<open>name[-1]\<close> is undefined.
\<close>

definition getinfo :: "kernel \<Rightarrow> string \<Rightarrow> bool \<Rightarrow> ifc \<Rightarrow> world \<Rightarrow> (int \<times> ifc) outcome" where
  "getinfo K n create g w =
     (case getsock K (af g) g w of (g1, w1) \<Rightarrow>
      if sock g1 < 0 then err K ''socket'' [] w1
      else if ifname g1 = [] then Undef ''getinfo: name[strlen(name) - 1] of an empty name'' w1
      else if \<not> isdigit (last (ifname g1)) then Ok (- 1, g1) w1
      else case getinfo_flags K g1 n create w1 of
        (None, w2) \<Rightarrow> Ok (- 1, g1) w2
      | (Some r, w2) \<Rightarrow>
          let g2 = g1\<lparr>flags := ucast (io_flags r)\<rparr> in
          case ioctl K (sock g2) SIOCGIFXFLAGS n IoNone w2 of (x, w3) \<Rightarrow>
          let g3 = g2\<lparr>xflags := (case x of None \<Rightarrow> 0 | Some r \<Rightarrow> scast (io_flags r))\<rparr> in
          case query K g3 SIOCGIFMETRIC n w3 of (m, w4) \<Rightarrow>
          case is_bridge K g3 (ifname g3) w4 of (br, w5) \<Rightarrow>
          case (if br then (0, w5) else query K g3 SIOCGIFMTU n w5) of (mt, w6) \<Rightarrow>
          case query K g3 SIOCGIFRDOMAIN n w6 of (rd, w7) \<Rightarrow>
          Ok (0, g3\<lparr>metric := m, mtu := mt, rdomainid := rd\<rparr>) w7)"

section \<open>Setters\<close>

definition clone_create :: "kernel \<Rightarrow> string \<Rightarrow> int \<Rightarrow> ifc \<Rightarrow> world \<Rightarrow> ifc outcome" where
  "clone_create K addr param g w =
     (case getsock K AF_INET g w of (g1, w1) \<Rightarrow>
      let g2 = set_ifr_name g1 in
      andthen (ioctl_err K g2 SIOCIFCREATE (ifr_name g2) IoNone ''SIOCIFCREATE'' w1) (\<lambda>_. Ok g2))"

definition clone_destroy :: "kernel \<Rightarrow> string \<Rightarrow> int \<Rightarrow> ifc \<Rightarrow> world \<Rightarrow> ifc outcome" where
  "clone_destroy K addr param g w =
     (let g1 = set_ifr_name g in
      andthen (ioctl_err K g1 SIOCIFDESTROY (ifr_name g1) IoNone ''SIOCIFDESTROY'' w) (\<lambda>_. Ok g1))"

definition setifrtlabel :: "kernel \<Rightarrow> string \<Rightarrow> int \<Rightarrow> ifc \<Rightarrow> world \<Rightarrow> ifc outcome" where
  "setifrtlabel K label d g w =
     ioctl_warn K g SIOCSIFRTLABEL (ifr_name g) (IoStr (if d \<noteq> 0 then [] else label)) ''SIOCSIFRTLABEL'' w"

definition setifdesc :: "kernel \<Rightarrow> string \<Rightarrow> int \<Rightarrow> ifc \<Rightarrow> world \<Rightarrow> ifc outcome" where
  "setifdesc K val d g w =
     ioctl_warn K g SIOCSIFDESCR (ifr_name g) (IoStr val) ''SIOCSIFDESCR'' w"

definition unsetifdesc :: "kernel \<Rightarrow> string \<Rightarrow> int \<Rightarrow> ifc \<Rightarrow> world \<Rightarrow> ifc outcome" where
  "unsetifdesc K noval d g w =
     ioctl_warn K g SIOCSIFDESCR (ifr_name g) (IoStr []) ''SIOCSIFDESCR'' w"

definition notrailers :: "string \<Rightarrow> int \<Rightarrow> ifc \<Rightarrow> world \<Rightarrow> ifc outcome" where
  "notrailers vname d g w =
     Ok g (emit (EvStdout ''Note: trailers are no longer sent, but always received\<newline>'') w)"

text \<open>
  Flags are a \<open>short\<close> in the request and an \<open>int\<close> in the globals. The flags are read for the
  interface in \<open>ifr\<close> and written for the interface in \<open>name\<close>.
\<close>

definition upd_flags :: "u32 \<Rightarrow> int \<Rightarrow> u32" where
  "upd_flags f value =
     (if value < 0 then f AND NOT (word_of_int (- value)) else f OR word_of_int value)"

definition setifflags :: "kernel \<Rightarrow> string \<Rightarrow> int \<Rightarrow> ifc \<Rightarrow> world \<Rightarrow> ifc outcome" where
  "setifflags K vname value g w =
     andthen (ioctl_err K g SIOCGIFFLAGS (ifr_name g) IoNone ''SIOCGIFFLAGS'' w) (\<lambda>r w1.
       let g1 = g\<lparr>flags := upd_flags (scast (io_flags r)) value\<rparr> in
       andthen (ioctl_err K g1 SIOCSIFFLAGS (name_of g1) (IoFlags (ucast (flags g1))) ''SIOCSIFFLAGS'' w1)
         (\<lambda>_. Ok g1))"

text \<open>A failed query leaves the copied request as it was: its union holds
  whatever \<open>ifr\<close> held.\<close>

definition setifxflags :: "kernel \<Rightarrow> string \<Rightarrow> int \<Rightarrow> ifc \<Rightarrow> world \<Rightarrow> ifc outcome" where
  "setifxflags K vname value g w =
     (case ioctl K (sock g) SIOCGIFXFLAGS (ifr_name g) IoNone w of (x, w1) \<Rightarrow>
      let w2 = (case x of None \<Rightarrow> warn K ''SIOCGIFXFLAGS'' [] w1 | Some _ \<Rightarrow> w1);
          f = (case x of None \<Rightarrow> un_le16 (junk K 2 w1) | Some r \<Rightarrow> io_flags r);
          g1 = g\<lparr>xflags := upd_flags (scast f) value\<rparr>
      in ioctl_warn K g1 SIOCSIFXFLAGS (name_of g1) (IoFlags (ucast (xflags g1))) ''SIOCSIFXFLAGS'' w2)"

definition setifmetric :: "kernel \<Rightarrow> string \<Rightarrow> int \<Rightarrow> ifc \<Rightarrow> world \<Rightarrow> ifc outcome" where
  "setifmetric K val d g w =
     (let g1 = set_ifr_name g in
      andthen (num_arg val 0 INT_MAX ''metric %s: %s'' w) (\<lambda>n.
        ioctl_warn K g1 SIOCSIFMETRIC (ifr_name g1) (IoInt n) ''SIOCSIFMETRIC''))"

definition setifmtu :: "kernel \<Rightarrow> string \<Rightarrow> int \<Rightarrow> ifc \<Rightarrow> world \<Rightarrow> ifc outcome" where
  "setifmtu K val d g w =
     (let g1 = set_ifr_name g in
      andthen (num_arg val 0 INT_MAX ''mtu %s: %s'' w) (\<lambda>n.
        ioctl_warn K g1 SIOCSIFMTU (ifr_name g1) (IoInt n) ''SIOCSIFMTU''))"

text \<open>The checks the two group commands share.\<close>

definition group_arg :: "string \<Rightarrow> string \<Rightarrow> world \<Rightarrow> string outcome" where
  "group_arg who group_name w =
     (if group_name \<noteq> [] \<and> isdigit (last group_name) then
        errx (who @ '': group names may not end in a digit'') [] w
      else case strlcpy group_name IFNAMSIZ of (gn, l) \<Rightarrow>
        if l \<ge> IFNAMSIZ then errx (who @ '': group name too long'') [] w else Ok gn w)"

definition setifgroup :: "kernel \<Rightarrow> string \<Rightarrow> int \<Rightarrow> ifc \<Rightarrow> world \<Rightarrow> ifc outcome" where
  "setifgroup K group_name d g w =
     andthen (group_arg ''setifgroup'' group_name w) (\<lambda>gn w1.
       case ioctl K (sock g) SIOCAIFGROUP (name_of g) (IoStr gn) w1 of
         (None, w2) \<Rightarrow> if errno w2 \<noteq> EEXIST then err K '' SIOCAIFGROUP'' [] w2 else Ok g w2
       | (Some _, w2) \<Rightarrow> Ok g w2)"

definition unsetifgroup :: "kernel \<Rightarrow> string \<Rightarrow> int \<Rightarrow> ifc \<Rightarrow> world \<Rightarrow> ifc outcome" where
  "unsetifgroup K group_name d g w =
     andthen (group_arg ''unsetifgroup'' group_name w) (\<lambda>gn w1.
       andthen (ioctl_err K g SIOCDIFGROUP (name_of g) (IoStr gn) ''SIOCDIFGROUP'' w1) (\<lambda>_. Ok g))"

definition setifpriority :: "kernel \<Rightarrow> string \<Rightarrow> int \<Rightarrow> ifc \<Rightarrow> world \<Rightarrow> ifc outcome" where
  "setifpriority K val d g w =
     andthen (num_arg val 0 15 ''priority %s: %s'' w) (\<lambda>n.
       let g1 = set_ifr_name g in
       ioctl_warn K g1 SIOCSIFPRIORITY (ifr_name g1) (IoInt n) ''SIOCSIFPRIORITY'')"

definition RT_TABLEID_MAX :: int where "RT_TABLEID_MAX = 255"

definition setinstance :: "kernel \<Rightarrow> string \<Rightarrow> int \<Rightarrow> ifc \<Rightarrow> world \<Rightarrow> ifc outcome" where
  "setinstance K val d g w =
     andthen (num_arg val 0 RT_TABLEID_MAX ''rdomain %s: %s'' w) (\<lambda>n.
       let g1 = set_ifr_name g in
       ioctl_warn K g1 SIOCSIFRDOMAIN (ifr_name g1) (IoInt n) ''SIOCSIFRDOMAIN'')"

definition setiflladdr :: "kernel \<Rightarrow> netdb \<Rightarrow> string \<Rightarrow> int \<Rightarrow> ifc \<Rightarrow> world \<Rightarrow> ifc outcome" where
  "setiflladdr K N addr d g w =
     (case (if addr = ''random''
            then (case nd_random N 6 of b # bs \<Rightarrow> Some ((b AND 0xfc) # bs) | [] \<Rightarrow> Some [])
            else ether_aton addr) of
        None \<Rightarrow> Ok g (warnx ''malformed link-level address'' [] w)
      | Some ea \<Rightarrow>
          let g1 = set_ifr_name g in
          ioctl_warn K g1 SIOCSIFLLADDR (ifr_name g1) (IoBytes ea) ''SIOCSIFLLADDR'' w)"

section \<open>What a setter asks of the kernel\<close>

lemma ioctl_err_Ok:
  "ioctl_err K g c n a m w = Ok r w' \<longleftrightarrow> ioctl K (sock g) c n a w = (Some r, w')"
  by (auto simp: ioctl_err_def err_def split: prod.splits option.splits)

lemma ioctl_warn_trace:
  "\<exists>w' es. ioctl_warn K g c n a m w = Ok g w' \<and> trace w' = es @ EvIoctl (sock g) c n a # trace w \<and>
     (es = [] \<or> (\<exists>t. es = [EvStderr t]))"
proof -
  obtain r w1 where i: "ioctl K (sock g) c n a w = (r, w1)" by fastforce
  with ioctl_cases[OF i] show ?thesis
    by (cases r) (auto simp: ioctl_warn_def warn_def intro: exI[of _ "[]"])
qed

lemma num_arg_spec:
  assumes "LLONG_MIN \<le> mn" "mn \<le> mx" "mx \<le> LLONG_MAX"
  shows "num_arg val mn mx fmt w =
     (case num_ref val of
        Some n \<Rightarrow> if n < mn then errx fmt [AS val, AS ''too small''] (set_errno ERANGE w)
           else if n > mx then errx fmt [AS val, AS ''too large''] (set_errno ERANGE w) else Ok n w
      | None \<Rightarrow> errx fmt [AS val, AS ''invalid''] (set_errno EINVAL w))"
  by (simp add: num_arg_def strtonum_ref[OF assms] split: option.split)

lemma num_arg_Ok:
  assumes "num_arg val mn mx fmt w = Ok n w'" "LLONG_MIN \<le> mn" "mn \<le> mx" "mx \<le> LLONG_MAX"
  shows "num_ref val = Some n \<and> mn \<le> n \<and> n \<le> mx \<and> w' = w"
  using assms(1) by (auto simp: num_arg_spec[OF assms(2-)] errx_def split: option.splits if_splits)

lemma name_of_take: "name_of g = take 15 (ifname g)"
  by (simp add: name_of_def strlcpy_def strlcpy_loop_take IFNAMSIZ_def)

text \<open>The bits of a flag update: exactly those of the parameter change.\<close>

lemma upd_flags_bit:
  "bit (upd_flags f v) n \<longleftrightarrow>
     (if v < 0 then bit f n \<and> \<not> bit (word_of_int (- v) :: u32) n
      else bit f n \<or> bit (word_of_int v :: u32) n)"
proof (cases "n < 32")
  case True
  then show ?thesis by (auto simp: upd_flags_def bit_simps)
next
  case False
  then have "\<not> bit x n" for x :: u32 by (auto dest: bit_imp_le_length)
  then show ?thesis by simp
qed

lemma upd_flags_short:
  assumes "n < 16"
  shows "bit (ucast (upd_flags (scast (f :: u16)) v) :: u16) n \<longleftrightarrow>
     (if v < 0 then bit f n \<and> \<not> bit (- v) n else bit f n \<or> bit v n)"
proof -
  have a: "bit (ucast (upd_flags (scast f) v) :: u16) n = bit (upd_flags (scast f) v) n"
    using assms by (simp add: bit_ucast_iff)
  have b: "bit (scast f :: u32) n = bit f n"
  proof -
    have "n < 15 \<or> n = 15" using assms by auto
    then show ?thesis by (auto simp: bit_simps min_def)
  qed
  have c: "bit (word_of_int x :: u32) n = bit x n" for x :: int
    using assms by (simp add: bit_simps)
  show ?thesis unfolding a upd_flags_bit b c ..
qed

section \<open>Samples\<close>

text \<open>A host without name services, and the globals as the program starts with them.\<close>

definition sample_netdb :: netdb where
  "sample_netdb = \<lparr>nd_host = (\<lambda>_. None), nd_net = (\<lambda>_. None), nd_gai = (\<lambda>_ _ _. Inl ''no name service''),
     nd_random = (\<lambda>n. replicate n 0)\<rparr>"

definition sample_ifc :: ifc where
  "sample_ifc = \<lparr>ifname = [], ifr_name = [], sock = 0, oaf = - 1, af = AF_INET, afp = AF_inet, flags = 0, xflags = 0,
     metric = 0, mtu = 0, rdomainid = 0, setaddr = 0, setipdst = 0, doalias = 0, clearaddr = 0, newaddr = 0,
     explicit_prefix = 0, actions = 0, shownet80211chans = 0, shownet80211nodes = 0, showmediaflag = 0,
     have_tag = False, tag = 0,
     inreq = \<lparr>rid_addr = 0, ifra_addr = 0, ifra_mask = 0, ifra_broadaddr = 0\<rparr>,
     atreq = \<lparr>s_net = 0, s_node = 0, nr_firstnet = 0, nr_lastnet = 0, nr_phase = 0\<rparr>,
     med = \<lparr>media_current = 0, mediaopt_set = 0, mediaopt_clear = 0\<rparr>\<rparr>"

end
