(* ===== verification/Conf_Lex.thy ===== *)
theory Conf_Lex
  imports Keywords Ifc_Base
begin

text \<open>
  The lexical part of the configuration parser (\<open>ifconfigd/parse.y\<close>, the C code after the
  grammar): the stack of input files, characters with their push back, variables, keywords and
  \<open>yylex\<close>. Characters are ints as in C: \<open>getc\<close> returns 0 to 255 or \<open>EOF\<close>, a character that
  passes through a \<open>char\<close> (the push back buffer, the value of a variable) comes back signed. The
  lemmas show that \<open>yylex\<close> ends, that a variable has the value it was given, that the keyword
  search finds the table's entries, and what \<open>yylex\<close> returns for words, numbers and quoted strings.
\<close>

section \<open>State\<close>

definition EOF :: int where "EOF = - 1"

record conf_file =
  fl_name :: string
  fl_lineno :: int
  fl_errors :: int
  fl_rest :: string

record sym =
  sy_nam :: string
  sy_val :: string
  sy_used :: int
  sy_persist :: int

text \<open>
  The globals: the files being read (the current one, \<open>file\<close>, first), the value of a variable being
  read, the push back buffer (last character first), the line of the token, the variables.
\<close>

record lexer =
  lx_files :: "conf_file list"
  parsebuf :: "string option"
  parseindex :: int
  pushback :: "int list"
  yylineno :: int
  symhead :: "sym list"

definition MAXPUSHBACK :: nat where "MAXPUSHBACK = 128"
definition sizeof_buf :: nat where "sizeof_buf = 8096"

text \<open>A character code as a \<open>char\<close>, and the value of a \<open>char\<close>, which is signed.\<close>

definition cch :: "int \<Rightarrow> char" where "cch c = char_of (nat (c mod 256))"

definition schar :: "int \<Rightarrow> int" where "schar c = (let b = c mod 256 in if b < 128 then b else b - 256)"

definition isalnum :: "char \<Rightarrow> bool" where "isalnum c \<longleftrightarrow> isalpha c \<or> isdigit c"

definition ispunct :: "char \<Rightarrow> bool" where "ispunct c \<longleftrightarrow> 33 \<le> ord c \<and> ord c \<le> 126 \<and> \<not> isalnum c"

section \<open>Variables and keywords\<close>

fun sym_find :: "string \<Rightarrow> sym list \<Rightarrow> sym option" where
  "sym_find nam [] = None"
| "sym_find nam (s # r) = (if sy_nam s = nam then Some s else sym_find nam r)"

definition symset :: "kernel \<Rightarrow> string \<Rightarrow> string \<Rightarrow> int \<Rightarrow> lexer \<Rightarrow> world \<Rightarrow> int \<times> lexer \<times> world" where
  "symset K nam val persist L w =
     (let old = sym_find nam (symhead L) in
      if (case old of None \<Rightarrow> False | Some s \<Rightarrow> sy_persist s = 1) then (0, L, w)
      else
        let L1 = (case old of None \<Rightarrow> L | Some s \<Rightarrow> L\<lparr>symhead := remove1 s (symhead L)\<rparr>) in
        case alloc K 40 w of (ok, w1) \<Rightarrow>
          if \<not> ok then (- 1, L1, w1)
          else case alloc K (length nam + 1) w1 of (ok2, w2) \<Rightarrow>
            if \<not> ok2 then (- 1, L1, w2)
            else case alloc K (length val + 1) w2 of (ok3, w3) \<Rightarrow>
              if \<not> ok3 then (- 1, L1, w3)
              else (0, L1\<lparr>symhead := symhead L1 @ [\<lparr>sy_nam = nam, sy_val = val, sy_used = 0, sy_persist = persist\<rparr>]\<rparr>, w3))"

fun sym_use :: "string \<Rightarrow> sym list \<Rightarrow> sym list" where
  "sym_use nam [] = []"
| "sym_use nam (s # r) = (if sy_nam s = nam then s\<lparr>sy_used := 1\<rparr> # r else s # sym_use nam r)"

definition symget :: "string \<Rightarrow> lexer \<Rightarrow> string option \<times> lexer" where
  "symget nam L =
     (case sym_find nam (symhead L) of
        None \<Rightarrow> (None, L)
      | Some s \<Rightarrow> (Some (sy_val s), L\<lparr>symhead := sym_use nam (symhead L)\<rparr>))"

text \<open>\<open>cmdline_symset\<close>: a variable given as \<open>name=value\<close>, split at the last \<open>=\<close>.\<close>

definition cmdline_symset :: "kernel \<Rightarrow> string \<Rightarrow> lexer \<Rightarrow> world \<Rightarrow> (int \<times> lexer) outcome" where
  "cmdline_symset K s L w =
     (if CHR ''='' \<notin> set s then Ok (- 1, L) w
      else
        let val = rev (takeWhile (\<lambda>c. c \<noteq> CHR ''='') (rev s));
            nam = take (length s - length val - 1) s in
        case alloc K (length nam + 1) w of (ok, w1) \<Rightarrow>
          if \<not> ok then errx ''cmdline_symset: malloc'' [] w1
          else case symset K nam val 1 L w1 of (r, L1, w2) \<Rightarrow> Ok (r, L1) w2)"

datatype (plugins only: code size) kw =
    BSSID | CHANNEL | DHCP | DOMAINNAME | DOMAINNAMESERVERS | ERROR | ETHERNETNAME | INCLUDE | INET
  | INTERFACE | LLADDR | MINSIGNAL | NETMASK | NETWORK | NO | NWID | PRIORITY | RUNDOWN | RUNUP
  | UPDATEINTERVAL | WEP | WEPKEY | WIRELESSNAME | WPA | WPAAKMS | WPACIPHERS | WPAGROUPCIPHER
  | WPAKEY | YES

text \<open>A token: the end of the input (0), a character, a keyword, a string or a number.\<close>

datatype token = TEnd | TChr int | TKw kw | STRING string | NUMBER int

definition conf_keywords :: "(string \<times> kw) list" where
  "conf_keywords = [
     (''bssid'', BSSID), (''chan'', CHANNEL), (''dhcp'', DHCP), (''domain-name'', DOMAINNAME),
     (''domain-name-servers'', DOMAINNAMESERVERS), (''error'', ERROR), (''ethernet'', ETHERNETNAME),
     (''include'', INCLUDE), (''inet'', INET), (''interface'', INTERFACE), (''lladdr'', LLADDR),
     (''minsignal'', MINSIGNAL), (''netmask'', NETMASK), (''network'', NETWORK), (''no'', NO),
     (''nwid'', NWID), (''priority'', PRIORITY), (''run-down'', RUNDOWN), (''run-up'', RUNUP),
     (''update_interval'', UPDATEINTERVAL), (''wep'', WEP), (''wepkey'', WEPKEY),
     (''wireless'', WIRELESSNAME), (''wpa'', WPA), (''wpaakms'', WPAAKMS), (''wpaciphers'', WPACIPHERS),
     (''wpagroupcipher'', WPAGROUPCIPHER), (''wpakey'', WPAKEY), (''yes'', YES)]"

definition kw_cmp :: "string \<Rightarrow> string \<times> kw \<Rightarrow> int" where
  "kw_cmp k e = strcmp k (fst e)"

definition lookup :: "string \<Rightarrow> token" where
  "lookup s = (case bsearch (kw_cmp s) conf_keywords of Some p \<Rightarrow> TKw (snd p) | None \<Rightarrow> STRING s)"

section \<open>Characters\<close>

definition yyerror :: "string \<Rightarrow> carg list \<Rightarrow> lexer \<Rightarrow> world \<Rightarrow> lexer \<times> world" where
  "yyerror fmt ap L w =
     (case lx_files L of
        [] \<Rightarrow> (L, w)
      | f # fs \<Rightarrow>
          (L\<lparr>lx_files := f\<lparr>fl_errors := fl_errors f + 1\<rparr> # fs\<rparr>,
           emit (EvStderr (vfmt ''%s: %d: '' [AS (fl_name f), AI (yylineno L)] @ vfmt fmt ap @ ''\<newline>'')) w))"

text \<open>\<open>popfile\<close> says whether there is no file to return to.\<close>

definition popfile :: "lexer \<Rightarrow> world \<Rightarrow> bool \<times> lexer \<times> world" where
  "popfile L w =
     (case lx_files L of
        f # prev # fs \<Rightarrow>
          (False, L\<lparr>lx_files := prev\<lparr>fl_errors := fl_errors prev + fl_errors f\<rparr> # fs\<rparr>,
           emit (EvFclose (fl_name f)) w)
      | _ \<Rightarrow> (True, L, w))"

definition getc :: "lexer \<Rightarrow> int \<times> lexer" where
  "getc L =
     (case lx_files L of
        [] \<Rightarrow> (EOF, L)
      | f # fs \<Rightarrow>
          (case fl_rest f of
             [] \<Rightarrow> (EOF, L)
           | c # r \<Rightarrow> (int (ord c), L\<lparr>lx_files := f\<lparr>fl_rest := r\<rparr> # fs\<rparr>)))"

text \<open>\<open>file->lineno++\<close>, and \<open>yylval.lineno = file->lineno\<close>.\<close>

definition next_line :: "lexer \<Rightarrow> lexer" where
  "next_line L = (case lx_files L of [] \<Rightarrow> L | f # fs \<Rightarrow> L\<lparr>lx_files := f\<lparr>fl_lineno := fl_lineno f + 1\<rparr> # fs\<rparr>)"

definition note_line :: "lexer \<Rightarrow> lexer" where
  "note_line L = (case lx_files L of [] \<Rightarrow> L | f # _ \<Rightarrow> L\<lparr>yylineno := fl_lineno f\<rparr>)"

text \<open>
  What is left to read: characters and files, without the value of the variable being read, and
  that value.
\<close>

definition nu :: "lexer \<Rightarrow> nat" where
  "nu L = sum_list (map (\<lambda>f. length (fl_rest f) + 1) (lx_files L)) + length (pushback L)"

definition rem_buf :: "lexer \<Rightarrow> nat" where
  "rem_buf L = (case parsebuf L of None \<Rightarrow> 0 | Some s \<Rightarrow> Suc (length s) - nat (parseindex L))"

lemma nu_simps [simp]:
  "nu (next_line L) = nu L" "nu (note_line L) = nu L" "nu (L\<lparr>yylineno := n\<rparr>) = nu L"
  "nu (L\<lparr>parsebuf := b\<rparr>) = nu L" "nu (L\<lparr>parseindex := i\<rparr>) = nu L" "nu (L\<lparr>symhead := h\<rparr>) = nu L"
  "nu (L\<lparr>pushback := p\<rparr>) + length (pushback L) = nu L + length p"
  "rem_buf (next_line L) = rem_buf L" "rem_buf (note_line L) = rem_buf L"
  "parsebuf (next_line L) = parsebuf L" "parsebuf (note_line L) = parsebuf L"
  by (simp_all add: nu_def next_line_def note_line_def rem_buf_def split: list.split option.split)

lemma getc_decr:
  assumes "getc L = (c, L')"
  shows "nu L' \<le> nu L" "c \<noteq> EOF \<Longrightarrow> nu L' < nu L" "parsebuf L' = parsebuf L" "rem_buf L' = rem_buf L"
  using assms by (auto simp: getc_def nu_def rem_buf_def split: list.splits option.split)

lemma getc_two: "getc L = (92, L1) \<Longrightarrow> getc L1 = (c, L2) \<Longrightarrow> nu L2 < nu L"
  using getc_decr(2)[of L 92 L1] getc_decr(1)[of L1 c L2] by (simp add: EOF_def)

text \<open>The loops of \<open>lgetc\<close>: continuation lines, and the ends of included files.\<close>

function lgetc_cont :: "lexer \<Rightarrow> int \<times> lexer" where
  "lgetc_cont L =
     (case getc L of (c, L1) \<Rightarrow>
        if c \<noteq> 92 then (c, L1)
        else case getc L1 of (nxt, L2) \<Rightarrow>
          if nxt \<noteq> 10 then (nxt, L2) else lgetc_cont (next_line (note_line L2)))"
  by pat_completeness auto
termination
  by (relation "measure nu") (auto dest!: getc_two[OF sym sym])

declare lgetc_cont.simps [simp del]

function lgetc_eof :: "int \<Rightarrow> lexer \<Rightarrow> world \<Rightarrow> int \<times> lexer \<times> world" where
  "lgetc_eof c L w =
     (if c \<noteq> EOF then (c, L, w)
      else case popfile L w of (eof, L1, w1) \<Rightarrow>
        if eof then (EOF, L1, w1)
        else case getc L1 of (c1, L2) \<Rightarrow> lgetc_eof c1 L2 w1)"
  by pat_completeness auto
termination
  by (relation "measure (\<lambda>(c, L, w). length (lx_files L))")
     (auto simp: popfile_def getc_def split: list.splits)

declare lgetc_eof.simps [simp del]

definition lgetc_file :: "int \<Rightarrow> lexer \<Rightarrow> world \<Rightarrow> int \<times> lexer \<times> world" where
  "lgetc_file quotec L w =
     (if quotec \<noteq> 0 then
        case getc L of (c, L1) \<Rightarrow>
          if c = EOF then
            case yyerror ''reached end of file while parsing quoted string'' [] L1 w of (L2, w1) \<Rightarrow>
              case popfile L2 w1 of (eof, L3, w2) \<Rightarrow> (if eof then EOF else quotec, L3, w2)
          else (c, L1, w)
      else case lgetc_cont L of (c, L1) \<Rightarrow> lgetc_eof c L1 w)"

definition lgetc :: "int \<Rightarrow> lexer \<Rightarrow> world \<Rightarrow> int \<times> lexer \<times> world" where
  "lgetc quotec L w =
     (let rest = (\<lambda>L1. case pushback L1 of
                     c # p \<Rightarrow> (schar c, L1\<lparr>pushback := p\<rparr>, w)
                   | [] \<Rightarrow> lgetc_file quotec L1 w) in
      case parsebuf L of
        None \<Rightarrow> rest L
      | Some s \<Rightarrow>
          if parseindex L \<ge> 0 then
            (if nat (parseindex L) < length s \<and> ord (s ! nat (parseindex L)) \<noteq> 0 then
               (schar (int (ord (s ! nat (parseindex L)))), L\<lparr>parseindex := parseindex L + 1\<rparr>, w)
             else rest (L\<lparr>parsebuf := None, parseindex := parseindex L + 1\<rparr>))
          else rest (L\<lparr>parseindex := parseindex L + 1\<rparr>))"

definition lungetc :: "int \<Rightarrow> lexer \<Rightarrow> lexer" where
  "lungetc c L =
     (if c = EOF then L
      else
        let L1 = (if parsebuf L \<noteq> None then L\<lparr>parseindex := parseindex L - 1\<rparr> else L) in
        if parsebuf L \<noteq> None \<and> parseindex L1 \<ge> 0 then L1
        else if length (pushback L1) < MAXPUSHBACK - 1 then L1\<lparr>pushback := c # pushback L1\<rparr>
        else L1)"

text \<open>Reading a character makes the input shorter.\<close>

definition mu :: "lexer \<Rightarrow> nat" where
  "mu L = nu L + rem_buf L"

lemma yyerror_nu [simp]: "nu (fst (yyerror f a L w)) = nu L" "parsebuf (fst (yyerror f a L w)) = parsebuf L"
  "rem_buf (fst (yyerror f a L w)) = rem_buf L"
  by (simp_all add: yyerror_def nu_def rem_buf_def split: list.split option.split)

lemma popfile_decr:
  assumes "popfile L w = (eof, L', w')"
  shows "nu L' \<le> nu L" "\<not> eof \<Longrightarrow> nu L' < nu L" "parsebuf L' = parsebuf L" "rem_buf L' = rem_buf L"
  using assms by (auto simp: popfile_def nu_def rem_buf_def split: list.splits option.split)

lemma lgetc_cont_decr:
  "lgetc_cont L = (c, L') \<Longrightarrow>
     nu L' \<le> nu L \<and> (c \<noteq> EOF \<longrightarrow> nu L' < nu L) \<and> parsebuf L' = parsebuf L \<and> rem_buf L' = rem_buf L"
proof (induction L rule: lgetc_cont.induct)
  case (1 L)
  obtain c1 L1 where g: "getc L = (c1, L1)" by fastforce
  show ?case
  proof (cases "c1 = 92")
    case False
    with 1 g getc_decr[OF g] show ?thesis by (simp add: lgetc_cont.simps[of L])
  next
    case True
    obtain n L2 where h: "getc L1 = (n, L2)" by fastforce
    note d = getc_two[OF g[unfolded True] h] getc_decr(3,4)[OF g] getc_decr(3,4)[OF h]
    show ?thesis
    proof (cases "n = 10")
      case False
      with 1(2) g h True d show ?thesis by (simp add: lgetc_cont.simps[of L])
    next
      case n: True
      with 1(2) g h True have "lgetc_cont (next_line (note_line L2)) = (c, L')"
        by (simp add: lgetc_cont.simps[of L])
      with 1(1)[OF g[symmetric] _ h[symmetric]] True n d show ?thesis by simp
    qed
  qed
qed

lemma lgetc_eof_decr:
  "lgetc_eof c L w = (c', L', w') \<Longrightarrow>
     nu L' \<le> nu L \<and> (c' \<noteq> EOF \<longrightarrow> c = EOF \<longrightarrow> nu L' < nu L) \<and> parsebuf L' = parsebuf L \<and> rem_buf L' = rem_buf L"
proof (induction c L w rule: lgetc_eof.induct)
  case (1 c L w)
  obtain e L1 w1 where p: "popfile L w = (e, L1, w1)" by (metis prod_cases3)
  obtain c1 L2 where g: "getc L1 = (c1, L2)" by fastforce
  note d = popfile_decr[OF p] getc_decr[OF g]
  show ?case
  proof (cases "c = EOF \<and> \<not> e")
    case False
    with 1(2) p d show ?thesis by (auto simp: lgetc_eof.simps[of c L w] split: if_splits)
  next
    case True
    with 1(2) p g have "lgetc_eof c1 L2 w1 = (c', L', w')" by (simp add: lgetc_eof.simps[of EOF L w])
    with 1(1)[OF _ p[symmetric] refl _ g[symmetric]] True d show ?thesis by fastforce
  qed
qed

lemma lgetc_file_decr:
  assumes "lgetc_file q L w = (c, L', w')"
  shows "nu L' \<le> nu L \<and> (c \<noteq> EOF \<longrightarrow> nu L' < nu L) \<and> parsebuf L' = parsebuf L \<and> rem_buf L' = rem_buf L"
proof (cases "q = 0")
  case True
  obtain c1 L1 where g: "lgetc_cont L = (c1, L1)" by fastforce
  with assms True have e: "lgetc_eof c1 L1 w = (c, L', w')" by (simp add: lgetc_file_def)
  have "c1 \<noteq> EOF \<Longrightarrow> L' = L1" using e by (simp add: lgetc_eof.simps)
  with lgetc_cont_decr[OF g] lgetc_eof_decr[OF e] show ?thesis by fastforce
next
  case False
  obtain c1 L1 where g: "getc L = (c1, L1)" by fastforce
  obtain L2 w1 where y: "yyerror ''reached end of file while parsing quoted string'' [] L1 w = (L2, w1)" by fastforce
  obtain e L3 w2 where p: "popfile L2 w1 = (e, L3, w2)" by (metis prod_cases3)
  show ?thesis
    using assms False g y p getc_decr[OF g] popfile_decr[OF p]
      yyerror_nu[of "''reached end of file while parsing quoted string''" "[]" L1 w]
    by (auto simp: lgetc_file_def split: if_splits)
qed

lemma lgetc_decr:
  assumes "lgetc q L w = (c, L', w')"
  shows "nu L' \<le> nu L" "rem_buf L' \<le> rem_buf L" "c \<noteq> EOF \<Longrightarrow> mu L' < mu L"
    "parsebuf L = None \<Longrightarrow> parsebuf L' = None" "c \<noteq> EOF \<Longrightarrow> parsebuf L' = None \<Longrightarrow> nu L' < nu L"
proof -
  define rest where "rest = (\<lambda>L1. case pushback L1 of
                     c # p \<Rightarrow> (schar c, L1\<lparr>pushback := p\<rparr>, w)
                   | [] \<Rightarrow> lgetc_file q L1 w)"
  have r: "nu M' \<le> nu M \<and> (d \<noteq> EOF \<longrightarrow> nu M' < nu M) \<and> parsebuf M' = parsebuf M \<and> rem_buf M' = rem_buf M"
    if "rest M = (d, M', v)" for M d M' v
    using that lgetc_file_decr[of q M w d M' v]
    by (auto simp: rest_def nu_def rem_buf_def split: list.splits option.split)
  consider (none) "parsebuf L = None" "rest L = (c, L', w')"
    | (buf) s where "parsebuf L = Some s" "parseindex L \<ge> 0" "nat (parseindex L) < length s"
        "L' = L\<lparr>parseindex := parseindex L + 1\<rparr>"
    | (fin) s where "parsebuf L = Some s" "rest (L\<lparr>parsebuf := None, parseindex := parseindex L + 1\<rparr>) = (c, L', w')"
    | (neg) s where "parsebuf L = Some s" "parseindex L < 0" "rest (L\<lparr>parseindex := parseindex L + 1\<rparr>) = (c, L', w')"
    using assms unfolding rest_def lgetc_def by (auto simp: Let_def split: option.splits if_splits)
  then have "nu L' \<le> nu L \<and> rem_buf L' \<le> rem_buf L \<and> (c \<noteq> EOF \<longrightarrow> mu L' < mu L) \<and>
     (parsebuf L = None \<longrightarrow> parsebuf L' = None) \<and> (c \<noteq> EOF \<longrightarrow> parsebuf L' = None \<longrightarrow> nu L' < nu L)"
  proof cases
    case none then show ?thesis using r[of L c L' w'] by (auto simp: mu_def)
  next
    case buf then show ?thesis by (auto simp: mu_def rem_buf_def nat_add_distrib)
  next
    case fin then show ?thesis using r[OF fin(2)] by (auto simp: mu_def rem_buf_def nu_def)
  next
    case neg then show ?thesis using r[OF neg(3)] by (auto simp: mu_def rem_buf_def nu_def)
  qed
  then show "nu L' \<le> nu L" "rem_buf L' \<le> rem_buf L" "c \<noteq> EOF \<Longrightarrow> mu L' < mu L"
    "parsebuf L = None \<Longrightarrow> parsebuf L' = None" "c \<noteq> EOF \<Longrightarrow> parsebuf L' = None \<Longrightarrow> nu L' < nu L" by blast+
qed

lemma lgetc_mu: "lgetc q L w = (c, L', w') \<Longrightarrow> mu L' \<le> mu L"
  using lgetc_decr(1,2)[of q L w c L' w'] by (simp add: mu_def)

lemma lungetc_incr:
  "mu (lungetc c L) \<le> mu L + 1" "parsebuf (lungetc c L) = parsebuf L"
  "parsebuf L = None \<Longrightarrow> nu (lungetc c L) \<le> nu L + 1"
  by (auto simp: lungetc_def mu_def nu_def rem_buf_def Let_def nat_diff_distrib split: option.splits)

section \<open>Tokens\<close>

text \<open>\<open>findeol\<close>: the rest of the line is skipped, and the token is an error.\<close>

function findeol_loop :: "lexer \<Rightarrow> world \<Rightarrow> lexer \<times> world" where
  "findeol_loop L w =
     (case (case pushback L of c # p \<Rightarrow> (schar c, L\<lparr>pushback := p\<rparr>, w) | [] \<Rightarrow> lgetc 0 L w) of (c, L1, w1) \<Rightarrow>
        if c = 10 then (next_line L1, w1)
        else if c = EOF then (L1, w1)
        else findeol_loop L1 w1)"
  by pat_completeness auto
termination
  by (relation "measure (mu \<circ> fst)")
     (auto simp: mu_def nu_def rem_buf_def dest!: lgetc_decr(3)[OF sym, unfolded mu_def] split: list.splits option.splits)

declare findeol_loop.simps [simp del]

definition findeol :: "lexer \<Rightarrow> world \<Rightarrow> token \<times> lexer \<times> world" where
  "findeol L w = (case findeol_loop (L\<lparr>parsebuf := None\<rparr>) w of (L1, w1) \<Rightarrow> (TKw ERROR, L1, w1))"

definition lex_error :: "string \<Rightarrow> carg list \<Rightarrow> lexer \<Rightarrow> world \<Rightarrow> (token + 'a) \<times> lexer \<times> world" where
  "lex_error fmt ap L w =
     (case yyerror fmt ap L w of (L1, w1) \<Rightarrow> case findeol L1 w1 of (t, L2, w2) \<Rightarrow> (Inl t, L2, w2))"

text \<open>The loops of \<open>yylex\<close>: blanks, a comment, the name of a variable, a quoted string.\<close>

function lex_blank :: "lexer \<Rightarrow> world \<Rightarrow> int \<times> lexer \<times> world" where
  "lex_blank L w =
     (case lgetc 0 L w of (c, L1, w1) \<Rightarrow> if c = 32 \<or> c = 9 then lex_blank L1 w1 else (c, L1, w1))"
  by pat_completeness auto
termination
  by (relation "measure (mu \<circ> fst)") (auto simp: EOF_def dest!: lgetc_decr(3)[OF sym])

function lex_comment :: "lexer \<Rightarrow> world \<Rightarrow> int \<times> lexer \<times> world" where
  "lex_comment L w =
     (case lgetc 0 L w of (c, L1, w1) \<Rightarrow> if c \<noteq> 10 \<and> c \<noteq> EOF then lex_comment L1 w1 else (c, L1, w1))"
  by pat_completeness auto
termination
  by (relation "measure (mu \<circ> fst)") (auto simp: EOF_def dest!: lgetc_decr(3)[OF sym])

function lex_name :: "string \<Rightarrow> lexer \<Rightarrow> world \<Rightarrow> (token + string) \<times> lexer \<times> world" where
  "lex_name buf L w =
     (case lgetc 0 L w of (c, L1, w1) \<Rightarrow>
        if c = EOF then (Inl TEnd, L1, w1)
        else if length buf + 1 \<ge> sizeof_buf - 1 then lex_error ''string too long'' [] L1 w1
        else if isalnum (cch c) \<or> c = 95 then lex_name (buf @ [cch c]) L1 w1
        else (Inr buf, lungetc c L1, w1))"
  by pat_completeness auto
termination
  by (relation "measure (\<lambda>(buf, L, w). mu L)") (auto dest!: lgetc_decr(3)[OF sym])

lemma lex_escape_decr:
  assumes "lgetc q L w = (c, L1, w1)" "c \<noteq> EOF" "lgetc q L1 w1 = (n, L2, w2)" "n \<noteq> EOF"
  shows "mu L2 < mu L" "mu (lungetc n L2) < mu L"
  using lgetc_decr(3)[OF assms(1,2)] lgetc_decr(3)[OF assms(3,4)] lungetc_incr(1)[of n L2] by simp_all

text \<open>
  After a backslash the code asks whether the backslash itself is a blank or a tab; it never is.
\<close>

function lex_quoted :: "int \<Rightarrow> string \<Rightarrow> lexer \<Rightarrow> world \<Rightarrow> (token + string) \<times> lexer \<times> world" where
  "lex_quoted quotec buf L w =
     (case lgetc quotec L w of (c, L1, w1) \<Rightarrow>
        if c = EOF then (Inl TEnd, L1, w1)
        else if c = 10 then lex_quoted quotec buf (next_line L1) w1
        else if c = 92 then
          case lgetc quotec L1 w1 of (nxt, L2, w2) \<Rightarrow>
            if nxt = EOF then (Inl TEnd, L2, w2)
            else if nxt \<noteq> quotec \<and> nxt = 10 then lex_quoted quotec buf (next_line L2) w2
            else if length buf + 1 \<ge> sizeof_buf - 1 then
              lex_error ''string too long'' [] (if nxt = quotec then L2 else lungetc nxt L2) w2
            else if nxt = quotec then lex_quoted quotec (buf @ [cch nxt]) L2 w2
            else lex_quoted quotec (buf @ [cch c]) (lungetc nxt L2) w2
        else if c = quotec then (Inr buf, L1, w1)
        else if length buf + 1 \<ge> sizeof_buf - 1 then lex_error ''string too long'' [] L1 w1
        else lex_quoted quotec (buf @ [cch c]) L1 w1)"
  by pat_completeness auto
termination
  by (relation "measure (\<lambda>(q, buf, L, w). mu L)")
     (auto simp: mu_def EOF_def dest: lgetc_decr(3)[OF sym] lex_escape_decr[OF sym _ sym])

declare lex_blank.simps [simp del] lex_comment.simps [simp del] lex_name.simps [simp del]
  lex_quoted.simps [simp del]

text \<open>Digits, and the characters of a word; with the character that ends them.\<close>

definition allowed_to_end_number :: "int \<Rightarrow> bool" where
  "allowed_to_end_number x \<longleftrightarrow> isspace (cch x) \<or> x = 41 \<or> x = 44 \<or> x = 47 \<or> x = 125 \<or> x = 61"

definition allowed_in_string :: "int \<Rightarrow> bool" where
  "allowed_in_string x \<longleftrightarrow> isalnum (cch x) \<or>
     (ispunct (cch x) \<and> x \<noteq> 40 \<and> x \<noteq> 41 \<and> x \<noteq> 123 \<and> x \<noteq> 125 \<and> x \<noteq> 33 \<and> x \<noteq> 61 \<and> x \<noteq> 35 \<and> x \<noteq> 44)"

function lex_chars :: "(int \<Rightarrow> bool) \<Rightarrow> int \<Rightarrow> string \<Rightarrow> lexer \<Rightarrow> world \<Rightarrow> (token + string \<times> int) \<times> lexer \<times> world" where
  "lex_chars ok c buf L w =
     (let buf1 = buf @ [cch c] in
      if length buf1 \<ge> sizeof_buf then lex_error ''string too long'' [] L w
      else case lgetc 0 L w of (c1, L1, w1) \<Rightarrow>
        if c1 \<noteq> EOF \<and> ok c1 then lex_chars ok c1 buf1 L1 w1
        else (Inr (buf1, c1), lungetc c1 L1, w1))"
  by pat_completeness auto
termination
  by (relation "measure (\<lambda>(ok, c, buf, L, w). mu L)") (auto dest!: lgetc_decr(3)[OF sym])

declare lex_chars.simps [simp del]

text \<open>A number, or the character to go on with: the digits are pushed back if they are no number.\<close>

definition lex_number :: "int \<Rightarrow> lexer \<Rightarrow> world \<Rightarrow> (token + int) \<times> lexer \<times> world" where
  "lex_number c L w =
     (if c = 45 \<or> isdigit (cch c) then
        case lex_chars (\<lambda>x. isdigit (cch x)) c [] L w of
          (Inl t, L1, w1) \<Rightarrow> (Inl t, L1, w1)
        | (Inr (buf, c1), L1, w1) \<Rightarrow>
            if buf \<noteq> ''-'' \<and> (c1 = EOF \<or> allowed_to_end_number c1) then
              (case strtonum buf LLONG_MIN LLONG_MAX w1 of
                 (n, None, w2) \<Rightarrow> (Inl (NUMBER n), L1, w2)
               | (n, Some e, w2) \<Rightarrow> lex_error ''\"%s\" invalid number: %s'' [AS buf, AS e] L1 w2)
            else
              let L2 = fold lungetc (map (\<lambda>x. int (ord x)) (rev (tl buf))) L1 in
              if hd buf = CHR ''-'' then (Inl (TChr 45), L2, w1) else (Inr (int (ord (hd buf))), L2, w1)
      else (Inr c, L, w))"

text \<open>\<open>strdup\<close> of the buffer: a NUL in a quoted string ends it.\<close>

definition lex_strdup :: "kernel \<Rightarrow> string \<Rightarrow> lexer \<Rightarrow> world \<Rightarrow> (token \<times> lexer) outcome" where
  "lex_strdup K buf L w =
     (let s = takeWhile (\<lambda>c. c \<noteq> CHR 0x00) buf in
      case alloc K (length s + 1) w of (ok, w1) \<Rightarrow>
        if ok then Ok (STRING s, L) w1 else err K ''yylex: strdup'' [] w1)"

definition lex_word :: "kernel \<Rightarrow> int \<Rightarrow> lexer \<Rightarrow> world \<Rightarrow> (token \<times> lexer) outcome" where
  "lex_word K c L w =
     (if isalnum (cch c) \<or> c = 58 \<or> c = 95 then
        case lex_chars allowed_in_string c [] L w of
          (Inl t, L1, w1) \<Rightarrow> Ok (t, L1) w1
        | (Inr (buf, _), L1, w1) \<Rightarrow>
            (case lookup buf of
               STRING _ \<Rightarrow> lex_strdup K buf L1 w1
             | t \<Rightarrow> Ok (t, L1) w1)
      else
        let L1 = (if c = 10 then next_line (note_line L) else L) in
        Ok (if c = EOF then TEnd else TChr c, L1) w)"

definition lex_char :: "kernel \<Rightarrow> int \<Rightarrow> lexer \<Rightarrow> world \<Rightarrow> (token \<times> lexer) outcome" where
  "lex_char K c L w =
     (if c = 39 \<or> c = 34 then
        case lex_quoted c [] L w of
          (Inl t, L1, w1) \<Rightarrow> Ok (t, L1) w1
        | (Inr buf, L1, w1) \<Rightarrow> lex_strdup K buf L1 w1
      else case lex_number c L w of
          (Inl t, L1, w1) \<Rightarrow> Ok (t, L1) w1
        | (Inr c1, L1, w1) \<Rightarrow> lex_word K c1 L1 w1)"

lemma lex_blank_nu:
  "lex_blank L w = (c, L', w') \<Longrightarrow> nu L' \<le> nu L \<and> (c \<noteq> EOF \<longrightarrow> parsebuf L' = None \<longrightarrow> nu L' < nu L)"
proof (induction L w rule: lex_blank.induct)
  case (1 L w)
  obtain c1 L1 w1 where g: "lgetc 0 L w = (c1, L1, w1)" by (metis prod_cases3)
  note d = lgetc_decr(1,5)[OF g]
  show ?case
  proof (cases "c1 = 32 \<or> c1 = 9")
    case True
    with 1(2) g have "lex_blank L1 w1 = (c, L', w')" by (subst (asm) lex_blank.simps) auto
    with 1(1)[OF g[symmetric] refl True] d show ?thesis by auto
  next
    case False
    with 1(2) g d show ?thesis by (subst (asm) lex_blank.simps) auto
  qed
qed

lemma lex_comment_ends: "lex_comment L w = (c, L', w') \<Longrightarrow> c = 10 \<or> c = EOF"
proof (induction L w rule: lex_comment.induct)
  case (1 L w)
  obtain c1 L1 w1 where g: "lgetc 0 L w = (c1, L1, w1)" by (metis prod_cases3)
  with 1 show ?case by (subst (asm) (2) lex_comment.simps) (auto split: if_splits)
qed

lemma lex_name_nu:
  "lex_name buf L w = (Inr nm, L', w') \<Longrightarrow> parsebuf L = None \<Longrightarrow> nu L' \<le> nu L"
proof (induction buf L w rule: lex_name.induct)
  case (1 buf L w)
  obtain c1 L1 w1 where g: "lgetc 0 L w = (c1, L1, w1)" by (metis prod_cases3)
  note d = lgetc_decr[OF g] lungetc_incr(3)[of L1 c1]
  show ?case
  proof (cases "c1 \<noteq> EOF \<and> \<not> length buf + 1 \<ge> sizeof_buf - 1 \<and> (isalnum (cch c1) \<or> c1 = 95)")
    case True
    with 1(2) g have "lex_name (buf @ [cch c1]) L1 w1 = (Inr nm, L', w')" by (subst (asm) lex_name.simps) auto
    with 1(1)[OF g[symmetric] refl] True d 1(3) show ?thesis by auto
  next
    case False
    with 1(2,3) g d show ?thesis
      by (subst (asm) lex_name.simps) (auto simp: lex_error_def split: if_splits prod.splits)
  qed
qed

lemma symget_nu: "symget nm L = (r, L') \<Longrightarrow> nu L' = nu L"
  by (auto simp: symget_def split: option.splits)

lemma yylex_macro_decr:
  assumes "lex_blank L w = (c0, L1, w1)"
    "(36, L2, w2) = (if c0 = 35 then lex_comment (note_line L1) w1 else (c0, note_line L1, w1))"
    "parsebuf L2 = None" "lex_name [] L2 w2 = (Inr buf, L3, w3)" "symget buf L3 = (r, L4)"
  shows "nu L4 < nu L"
proof -
  have "c0 = 36" "L2 = note_line L1"
    using assms(2) lex_comment_ends[of "note_line L1" w1 36 L2 w2] by (auto simp: EOF_def split: if_splits)
  moreover from this assms(3) lex_blank_nu[OF assms(1)] have "nu L2 < nu L" by (simp add: EOF_def)
  ultimately show ?thesis using lex_name_nu[OF assms(4,3)] symget_nu[OF assms(5)] by simp
qed

text \<open>\<open>yylex\<close>. A variable is read in place of its name; there is no second level of variables.\<close>

definition quoted_macro :: string where
  "quoted_macro = ''macro '' @ [CHR 0x27] @ ''%s'' @ [CHR 0x27] @ '' not defined''"

function yylex :: "kernel \<Rightarrow> lexer \<Rightarrow> world \<Rightarrow> (token \<times> lexer) outcome" where
  "yylex K L w =
     (case lex_blank L w of (c0, L1, w1) \<Rightarrow>
      case (if c0 = 35 then lex_comment (note_line L1) w1 else (c0, note_line L1, w1)) of (c, L2, w2) \<Rightarrow>
      if c = 36 \<and> parsebuf L2 = None then
        case lex_name [] L2 w2 of
          (Inl t, L3, w3) \<Rightarrow> Ok (t, L3) w3
        | (Inr buf, L3, w3) \<Rightarrow>
            (case symget buf L3 of
               (None, L4) \<Rightarrow>
                 (case yyerror quoted_macro [AS buf] L4 w3 of (L5, w4) \<Rightarrow>
                  case findeol L5 w4 of (t, L6, w5) \<Rightarrow> Ok (t, L6) w5)
             | (Some val, L4) \<Rightarrow> yylex K (L4\<lparr>parsebuf := Some val, parseindex := 0\<rparr>) w3)
      else lex_char K c L2 w2)"
  by pat_completeness auto
termination
  by (relation "measure (\<lambda>(K, L, w). nu L)") (auto dest: yylex_macro_decr[OF sym _ _ sym sym])

declare yylex.simps [simp del]

section \<open>Files\<close>

definition check_file_secrecy :: "kernel \<Rightarrow> string \<Rightarrow> world \<Rightarrow> bool \<times> world" where
  "check_file_secrecy K fname w =
     (case fstat K fname w of
        (None, w1) \<Rightarrow> (False, warn K ''cannot stat %s'' [AS fname] w1)
      | (Some (uid, mode), w1) \<Rightarrow>
          (case (if uid \<noteq> 0 then sys_int K EvGetuid w1 else (0, w1)) of (me, w2) \<Rightarrow>
             if uid \<noteq> 0 \<and> int uid \<noteq> me then
               (False, warnx ''%s: owner not root or current user'' [AS fname] w2)
             else if mode mod 64 \<noteq> 0 then
               (False, warnx ''%s: group/world readable/writeable'' [AS fname] w2)
             else (True, w2)))"

text \<open>\<open>pushfile\<close>, with the assignment of its result to \<open>file\<close> that follows it wherever it succeeds.\<close>

definition pushfile :: "kernel \<Rightarrow> string \<Rightarrow> bool \<Rightarrow> lexer \<Rightarrow> world \<Rightarrow> lexer option \<times> world" where
  "pushfile K name secret L w =
     (case alloc K 48 w of (ok, w1) \<Rightarrow>
      if \<not> ok then (None, warn K ''malloc'' [] w1)
      else case alloc K (length name + 1) w1 of (ok2, w2) \<Rightarrow>
      if \<not> ok2 then (None, warn K ''malloc'' [] w2)
      else
        let open_as = (\<lambda>nm s w. (Some (L\<lparr>lx_files := \<lparr>fl_name = nm, fl_lineno = 1, fl_errors = 0, fl_rest = s\<rparr> # lx_files L\<rparr>), w)) in
        if lx_files L = [] \<and> name = ''-'' then
          case alloc K 6 w2 of (ok3, w3) \<Rightarrow>
            if \<not> ok3 then (None, warn K ''strdup'' [] w3)
            else case fopen K ''-'' w3 of
              (None, w4) \<Rightarrow> open_as ''stdin'' [] w4
            | (Some s, w4) \<Rightarrow> open_as ''stdin'' s w4
        else case fopen K name w2 of
          (None, w3) \<Rightarrow> (None, warn K ''%s'' [AS name] w3)
        | (Some s, w3) \<Rightarrow>
            if secret then
              case check_file_secrecy K name w3 of
                (True, w4) \<Rightarrow> open_as name s w4
              | (False, w4) \<Rightarrow> (None, emit (EvFclose name) w4)
            else open_as name s w3)"

section \<open>Variables and keywords are found\<close>

interpretation vars: keyed_list sy_nam sym_find
  by unfold_locales auto

interpretation conf_tab: keyword_table conf_keywords
proof
  show "sorted_wrt (<) (map fst conf_keywords)" by (simp add: conf_keywords_def)
  show "cstr k" if "(k, v) \<in> set conf_keywords" for k v
    using that by (auto simp: conf_keywords_def cstr_def)
qed

lemma lookup_keyword:
  assumes "cstr s"
  shows "lookup s = (case map_of conf_keywords s of None \<Rightarrow> STRING s | Some k \<Rightarrow> TKw k)"
  using conf_tab.lookup_key[OF assms]
  by (cases "map_of conf_keywords s") (auto simp: lookup_def kw_cmp_def[abs_def])

lemma sym_find_use [simp]: "map_option sy_val (sym_find n (sym_use m h)) = map_option sy_val (sym_find n h)"
  by (induction h) auto

lemma symset_ok:
  assumes "k_mem K = (\<lambda>_. True)" "symset K nam val persist L w = (r, L', w')"
    "\<not> (\<exists>s. sym_find nam (symhead L) = Some s \<and> sy_persist s = 1)" "distinct (map sy_nam (symhead L))"
  shows "r = 0" "fst (symget nm L') = (if nm = nam then Some val else fst (symget nm L))"
    "distinct (map sy_nam (symhead L'))"
proof -
  let ?h = "case sym_find nam (symhead L) of None \<Rightarrow> symhead L | Some s \<Rightarrow> remove1 s (symhead L)"
  let ?s = "\<lparr>sy_nam = nam, sy_val = val, sy_used = 0, sy_persist = persist\<rparr>"
  have r: "r = 0" and h: "symhead L' = ?h @ [?s]"
    using assms by (auto simp: symset_def alloc_def Let_def split: option.splits)
  show "r = 0" by (rule r)
  have d: "distinct (map sy_nam ?h) \<and> nam \<notin> sy_nam ` set ?h \<and>
    (nm \<noteq> nam \<longrightarrow> sym_find nm ?h = sym_find nm (symhead L))"
  proof (cases "sym_find nam (symhead L)")
    case None
    then show ?thesis using assms(4) vars.look_None_iff[of nam "symhead L"] by simp
  next
    case (Some x)
    note rm = vars.look_remove1[OF assms(4) Some]
    have "sym_find nam (remove1 x (symhead L)) = None" using rm(1)[of nam] by simp
    then show ?thesis using Some rm(1)[of nm] assms(4) vars.look_None_iff[of nam "remove1 x (symhead L)"]
      by (simp add: rm(2))
  qed
  show "distinct (map sy_nam (symhead L'))" using d by (simp add: h)
  show "fst (symget nm L') = (if nm = nam then Some val else fst (symget nm L))"
    using d vars.look_None_iff[of nam ?h] h
    by (auto simp: symget_def vars.look_append split: option.splits)
qed

section \<open>What is read\<close>

text \<open>
  A single file without errors is being read, \<open>s\<close> is what is left of it and \<open>n\<close> characters of it
  are in the push back buffer. The text is plain: no backslash, no byte above 127 and no NUL.
\<close>

definition plain_char :: "char \<Rightarrow> bool" where
  "plain_char c \<longleftrightarrow> 0 < ord c \<and> ord c < 128 \<and> ord c \<noteq> 92"

definition reads :: "string \<Rightarrow> nat \<Rightarrow> lexer \<Rightarrow> bool" where
  "reads s n L \<longleftrightarrow> parsebuf L = None \<and> list_all plain_char s \<and>
     (\<exists>f. lx_files L = [f] \<and> fl_errors f = 0 \<and> length (pushback L) = n \<and>
        (\<exists>p. pushback L = map (int \<circ> ord) p \<and> p @ fl_rest f = s))"

lemma cch_ord [simp]: "cch (int (ord c)) = c"
  by (simp add: cch_def nat_mod_distrib)

lemma schar_plain: "plain_char c \<Longrightarrow> schar (int (ord c)) = int (ord c)"
  by (simp add: schar_def plain_char_def)

lemma lgetc_reads:
  assumes "reads (c # s) n L"
  shows "\<exists>L'. lgetc q L w = (int (ord c), L', w) \<and> reads s (n - 1) L'"
proof -
  from assms obtain f p where f: "lx_files L = [f]" "fl_errors f = 0" "length (pushback L) = n"
      "pushback L = map (int \<circ> ord) p" "p @ fl_rest f = c # s" "parsebuf L = None"
    and c: "plain_char c" "list_all plain_char s"
    by (auto simp: reads_def)
  show ?thesis
  proof (cases p)
    case Nil
    then have r: "fl_rest f = c # s" using f by simp
    then have g: "getc L = (int (ord c), L\<lparr>lx_files := [f\<lparr>fl_rest := s\<rparr>]\<rparr>)" using f by (simp add: getc_def)
    have "lgetc q L w = (int (ord c), L\<lparr>lx_files := [f\<lparr>fl_rest := s\<rparr>]\<rparr>, w)"
      using f Nil g c(1)
      by (simp add: lgetc_def lgetc_file_def lgetc_cont.simps[of L] lgetc_eof.simps plain_char_def EOF_def)
    then show ?thesis using f Nil c by (auto simp: reads_def)
  next
    case (Cons d p')
    then have "lgetc q L w = (int (ord c), L\<lparr>pushback := map (int \<circ> ord) p'\<rparr>, w)"
      using f c(1) by (simp add: lgetc_def schar_plain)
    then show ?thesis using f Cons c by (auto simp: reads_def)
  qed
qed

lemma lungetc_reads:
  assumes "reads s n L" "plain_char c" "n < 127"
  shows "reads (c # s) (Suc n) (lungetc (int (ord c)) L)"
  using assms by (auto simp: reads_def lungetc_def EOF_def MAXPUSHBACK_def Let_def intro!: exI[of _ "c # _"])

lemma reads_lines [simp]: "reads s n (next_line L) \<longleftrightarrow> reads s n L" "reads s n (note_line L) \<longleftrightarrow> reads s n L"
  by (auto simp: reads_def next_line_def note_line_def split: list.split)

lemma reads_plain: "reads (c # s) n L \<Longrightarrow> plain_char c"
  by (simp add: reads_def)

text \<open>Blanks are skipped; a token starts at the first other character.\<close>

lemma lex_blank_reads:
  assumes "reads (c # s) n L"
  shows "\<exists>L'. reads s (n - 1) L' \<and>
     lex_blank L w = (if ord c = 32 \<or> ord c = 9 then lex_blank L' w else (int (ord c), L', w))"
  using lgetc_reads[OF assms, of 0 w] by (subst lex_blank.simps) auto

lemma yylex_blank:
  assumes "reads (c # s) n L" "ord c = 32 \<or> ord c = 9"
  shows "\<exists>L'. yylex K L w = yylex K L' w \<and> reads s (n - 1) L'"
proof -
  from lex_blank_reads[OF assms(1), of w] assms(2)
  obtain L' where "reads s (n - 1) L'" "lex_blank L w = lex_blank L' w" by auto
  then show ?thesis by (intro exI[of _ L']) (simp add: yylex.simps[of K L] yylex.simps[of K L'])
qed

lemma yylex_char:
  assumes "reads (c # s) n L" "ord c \<noteq> 32" "ord c \<noteq> 9" "ord c \<noteq> 35" "ord c \<noteq> 36"
  shows "\<exists>L'. yylex K L w = lex_char K (int (ord c)) L' w \<and> reads s (n - 1) L'"
proof -
  from lex_blank_reads[OF assms(1), of w] assms(2,3)
  obtain L' where "reads s (n - 1) L'" "lex_blank L w = (int (ord c), L', w)" by auto
  then show ?thesis using assms by (intro exI[of _ "note_line L'"]) (simp add: yylex.simps[of K L])
qed

text \<open>Single characters: the end of a line and the braces.\<close>

lemma yylex_punct:
  assumes "reads (c # s) n L" "ord c = 10 \<or> ord c = 123 \<or> ord c = 125"
  shows "\<exists>L'. yylex K L w = Ok (TChr (int (ord c)), L') w \<and> reads s (n - 1) L'"
proof -
  have nd: "\<not> isdigit c" "\<not> isalnum c" using assms(2) by (auto simp: isdigit_def isalnum_def isalpha_def isupper_def islower_def)
  obtain L' where L': "yylex K L w = lex_char K (int (ord c)) L' w" "reads s (n - 1) L'"
    using yylex_char[OF assms(1), of K w] assms(2) by auto
  have "lex_char K (int (ord c)) L' w =
      Ok (TChr (int (ord c)), if ord c = 10 then next_line (note_line L') else L') w"
    using assms(2) nd by (auto simp: lex_char_def lex_number_def lex_word_def EOF_def)
  with L' show ?thesis by auto
qed

text \<open>The characters of a word or a number.\<close>

lemma lex_chars_reads:
  assumes "reads (cs @ d # s) n L" "n \<le> Suc (length cs)" "\<forall>c\<in>set cs. ok (int (ord c))" "\<not> ok (int (ord d))"
    "length buf + length cs + 1 < sizeof_buf"
  shows "\<exists>L'. lex_chars ok (int (ord c)) buf L w = (Inr (buf @ c # cs, int (ord d)), L', w) \<and> reads (d # s) 1 L'"
  using assms
proof (induction cs arbitrary: c buf n L)
  case Nil
  from lgetc_reads[OF Nil(1)[simplified], of 0 w] obtain L' where
    L': "lgetc 0 L w = (int (ord d), L', w)" "reads s (n - 1) L'" by auto
  have "reads (d # s) (Suc (n - 1)) (lungetc (int (ord d)) L')"
    using lungetc_reads[OF L'(2) reads_plain[OF Nil(1)[simplified]]] Nil(2) by simp
  moreover have "Suc (n - 1) = 1" using Nil(2) by simp
  ultimately show ?case using Nil L' by (subst lex_chars.simps) (simp add: Let_def)
next
  case (Cons a cs)
  from lgetc_reads[OF Cons(2)[simplified], of 0 w] obtain L' where
    L': "lgetc 0 L w = (int (ord a), L', w)" "reads (cs @ d # s) (n - 1) L'" by auto
  from Cons(1)[OF L'(2), of "buf @ [c]" a] Cons(3-) obtain L'' where
    "lex_chars ok (int (ord a)) (buf @ [c]) L' w = (Inr (buf @ c # a # cs, int (ord d)), L'', w)" "reads (d # s) 1 L''"
    by force
  then show ?case using Cons(4,6) L' by (subst lex_chars.simps) (auto simp: Let_def EOF_def)
qed

lemma lex_strdup_ok:
  assumes "k_mem K = (\<lambda>_. True)" "CHR 0x00 \<notin> set buf"
  shows "\<exists>w'. lex_strdup K buf L w = Ok (STRING buf, L) w'"
proof -
  from assms(2) have "takeWhile (\<lambda>c. c \<noteq> CHR 0x00) buf = buf" by (auto simp: takeWhile_eq_all_conv)
  with assms(1) show ?thesis by (simp add: lex_strdup_def alloc_def Let_def)
qed

text \<open>A word: a keyword or a string.\<close>

lemma yylex_word:
  assumes "k_mem K = (\<lambda>_. True)" "reads (c # cs @ d # s) n L" "n \<le> 1" "isalpha c"
    "\<forall>x\<in>set cs. allowed_in_string (int (ord x))" "\<not> allowed_in_string (int (ord d))" "length cs + 1 < sizeof_buf"
  shows "\<exists>L' w'. yylex K L w = Ok (lookup (c # cs), L') w' \<and> reads (d # s) 1 L'"
proof -
  have c: "isalnum c" "\<not> isdigit c" "ord c \<noteq> 32" "ord c \<noteq> 9" "ord c \<noteq> 35" "ord c \<noteq> 36" "ord c \<noteq> 39"
      "ord c \<noteq> 34" "ord c \<noteq> 45"
    using assms(4) by (auto simp: isalnum_def isalpha_def isdigit_def isupper_def islower_def)
  obtain L1 where L1: "yylex K L w = lex_char K (int (ord c)) L1 w" "reads (cs @ d # s) (n - 1) L1"
    using yylex_char[OF assms(2) c(3-6), of K w] by auto
  from lex_chars_reads[OF L1(2), of allowed_in_string "[]" c w] assms(3,5-7) obtain L2 where
    L2: "lex_chars allowed_in_string (int (ord c)) [] L1 w = (Inr (c # cs, int (ord d)), L2, w)" "reads (d # s) 1 L2"
    by auto
  have nz: "CHR 0x00 \<notin> set (c # cs)"
    using assms(4,5) by (auto simp: allowed_in_string_def ispunct_def isalnum_def isalpha_def isdigit_def isupper_def islower_def)
  have "lookup (c # cs) = STRING x \<Longrightarrow> x = c # cs" for x by (auto simp: lookup_def split: option.splits)
  then show ?thesis
    using L1 L2 c lex_strdup_ok[OF assms(1) nz, of L2 w]
    by (auto simp: lex_char_def lex_number_def lex_word_def split: token.split)
qed

text \<open>A quoted string.\<close>

lemma lex_quoted_reads:
  assumes "reads (cs @ CHR 0x22 # s) n L" "\<forall>c\<in>set cs. ord c \<noteq> 10 \<and> ord c \<noteq> 34" "length buf + length cs + 2 < sizeof_buf"
  shows "\<exists>L'. lex_quoted 34 buf L w = (Inr (buf @ cs), L', w) \<and> reads s (n - Suc (length cs)) L'"
  using assms
proof (induction cs arbitrary: buf n L)
  case Nil
  from lgetc_reads[OF Nil(1)[simplified], of 34 w] show ?case
    by (subst lex_quoted.simps) (auto simp: EOF_def)
next
  case (Cons a cs)
  from lgetc_reads[OF Cons(2)[simplified], of 34 w] obtain L' where
    L': "lgetc 34 L w = (int (ord a), L', w)" "reads (cs @ CHR 0x22 # s) (n - 1) L'" by auto
  have a: "ord a \<noteq> 92" using reads_plain[OF Cons(2)[simplified]] by (simp add: plain_char_def)
  from Cons(1)[OF L'(2), of "buf @ [a]"] Cons(3-) obtain L'' where
    "lex_quoted 34 (buf @ [a]) L' w = (Inr (buf @ a # cs), L'', w)" "reads s (n - Suc (length (a # cs))) L''" by auto
  then show ?case using Cons(3,4) L' a by (subst lex_quoted.simps) (auto simp: EOF_def)
qed

lemma yylex_quoted:
  assumes "k_mem K = (\<lambda>_. True)" "reads (CHR 0x22 # cs @ CHR 0x22 # s) n L" "n \<le> 1"
    "\<forall>c\<in>set cs. ord c \<noteq> 10 \<and> ord c \<noteq> 34" "length cs + 2 < sizeof_buf"
  shows "\<exists>L' w'. yylex K L w = Ok (STRING cs, L') w' \<and> reads s 0 L'"
proof -
  obtain L1 where L1: "yylex K L w = lex_char K 34 L1 w" "reads (cs @ CHR 0x22 # s) (n - 1) L1"
    using yylex_char[OF assms(2), of K w] by auto
  from lex_quoted_reads[OF L1(2), of "[]" w] assms(3-5) obtain L2 where
    L2: "lex_quoted 34 [] L1 w = (Inr cs, L2, w)" "reads s 0 L2" by auto
  have "list_all plain_char cs" using assms(2) by (simp add: reads_def)
  then have nz: "CHR 0x00 \<notin> set cs" by (force simp: list_all_iff plain_char_def)
  from L1 L2 lex_strdup_ok[OF assms(1) nz, of L2 w] show ?thesis by (auto simp: lex_char_def)
qed

text \<open>A number.\<close>

lemma length_digits: "n < 10 ^ Suc k \<Longrightarrow> length (digits n) \<le> Suc k"
proof (induction k arbitrary: n)
  case 0
  then show ?case by (simp add: digits.simps)
next
  case (Suc k)
  from Suc(2) have "n div 10 < 10 ^ Suc k" by (simp add: less_mult_imp_div_less)
  from Suc(1)[OF this] show ?case by (subst digits.simps) simp
qed

lemma yylex_number:
  assumes "reads (digits m @ d # s) n L" "n \<le> 1" "int m \<le> LLONG_MAX" "allowed_to_end_number (int (ord d))" "\<not> isdigit d"
  shows "\<exists>L'. yylex K L w = Ok (NUMBER (int m), L') w \<and> reads (d # s) 1 L'"
proof -
  note dd = digits_isdigit[of m]
  obtain c cs where ds: "digits m = c # cs" using dd by (cases "digits m") auto
  have c: "isdigit c" "\<forall>x\<in>set cs. isdigit x" using dd ds by (auto simp: list_all_iff)
  then have oc: "ord c \<noteq> 32" "ord c \<noteq> 9" "ord c \<noteq> 35" "ord c \<noteq> 36" "ord c \<noteq> 39" "ord c \<noteq> 34" "ord c \<noteq> 45"
    by (auto simp: isdigit_def)
  have "length (digits m) \<le> Suc 18" by (rule length_digits) (use assms(3) in \<open>simp add: LLONG_MAX_def\<close>)
  then have len: "length cs + 1 < sizeof_buf" by (simp add: ds sizeof_buf_def)
  obtain L1 where L1: "yylex K L w = lex_char K (int (ord c)) L1 w" "reads (cs @ d # s) (n - 1) L1"
    using yylex_char[OF assms(1)[unfolded ds append_Cons] oc(1-4), of K w] by auto
  from lex_chars_reads[OF L1(2), of "\<lambda>x. isdigit (cch x)" "[]" c w] assms(2,5) c len obtain L2 where
    L2: "lex_chars (\<lambda>x. isdigit (cch x)) (int (ord c)) [] L1 w = (Inr (c # cs, int (ord d)), L2, w)" "reads (d # s) 1 L2"
    by auto
  have "strtonum (c # cs) LLONG_MIN LLONG_MAX w = (int m, None, w)"
    using strtonum_ref[of LLONG_MIN LLONG_MAX "digits m" w] num_ref_show_int[of "int m"] assms(3) ds
    by (simp add: show_int_def LLONG_MIN_def LLONG_MAX_def)
  moreover have "c # cs \<noteq> ''-''" using c(1) by (auto simp: isdigit_def)
  ultimately show ?thesis using L1 L2 c(1) oc assms(4) by (simp add: lex_char_def lex_number_def)
qed

end
