(* ===== verification/Ifc_Addr.thy ===== *)
theory Ifc_Addr
  imports Ifc_Base
begin

text \<open>
  Addresses in \<open>ifcutil.c\<close>: the address and prefix parsers of the inet and AppleTalk families,
  the setters that record an address for the request issued at the end of a command, and
  aliases. The lemmas relate the prefix loop to the netmask it should build and show how the
  deferred address request is set up.
\<close>

section \<open>Network numbers\<close>

text \<open>
  \<open>inet_net_pton_ipv4\<close> with a destination of four bytes: the bytes written so far
  (\<open>dst - odst\<close>), a pending half octet, and the characters left.
\<close>

fun pton_hex :: "nat \<Rightarrow> byte list \<Rightarrow> byte option \<Rightarrow> string \<Rightarrow> (byte list \<times> byte option \<times> string) option" where
  "pton_hex siz dst cur [] = Some (dst, cur, [])"
| "pton_hex siz dst cur (ch # src) =
     (if \<not> isxdigit ch then Some (dst, cur, ch # src)
      else let c = tolower ch;
               n = (if isdigit c then of_nat (ord c - 48) else of_nat (ord c - 87)) :: byte in
        case cur of
          None \<Rightarrow> pton_hex siz dst (Some (push_bit 4 n)) src
        | Some b \<Rightarrow>
            if siz > 0 then pton_hex (siz - 1) (dst @ [b OR n]) None src else None)"

text \<open>A decimal number with the bound \<open>mx\<close>, at least one digit.\<close>

fun pton_num :: "nat \<Rightarrow> nat \<Rightarrow> string \<Rightarrow> (nat \<times> string) option" where
  "pton_num mx tmp [] = Some (tmp, [])"
| "pton_num mx tmp (ch # src) =
     (if \<not> isdigit ch then Some (tmp, ch # src)
      else let t = tmp * 10 + (ord ch - 48) in if t > mx then None else pton_num mx t src)"

lemma pton_num_length: "pton_num mx t s = Some (v, r) \<Longrightarrow> length r \<le> length s"
  by (induction mx t s rule: pton_num.induct) (auto simp: Let_def split: if_splits)

function pton_dec :: "nat \<Rightarrow> byte list \<Rightarrow> string \<Rightarrow> (byte list \<times> string) option" where
  "pton_dec siz dst src =
     (if src = [] \<or> \<not> isdigit (hd src) then None
      else case pton_num 255 0 src of
        None \<Rightarrow> None
      | Some (tmp, r) \<Rightarrow>
          if siz = 0 then None
          else let dst1 = dst @ [of_nat tmp] in
            (case r of
               [] \<Rightarrow> Some (dst1, [])
             | ch # r' \<Rightarrow>
                 if ch = CHR ''/'' then Some (dst1, r)
                 else if ch = CHR ''.'' then pton_dec (siz - 1) dst1 r' else None))"
  by pat_completeness auto
termination
  by (relation "measure (\<lambda>(siz, dst, src). length src)") (auto dest!: pton_num_length)

declare pton_dec.simps [simp del]

text \<open>The width: given after a slash, or that of the address class.\<close>

definition pton_class :: "byte \<Rightarrow> nat" where
  "pton_class b = (if b \<ge> 240 then 32 else if b \<ge> 224 then 4 else if b \<ge> 192 then 24
     else if b \<ge> 128 then 16 else 8)"

text \<open>Number of bits and the four bytes of the address.\<close>

definition inet_net_pton :: "string \<Rightarrow> (nat \<times> byte list) option" where
  "inet_net_pton src =
     (let hex = (length src \<ge> 3 \<and> src ! 0 = CHR ''0'' \<and> (src ! 1 = CHR ''x'' \<or> src ! 1 = CHR ''X'') \<and>
                 isxdigit (src ! 2)) in
      case (if hex then pton_hex 4 [] None (drop 2 src)
            else map_option (\<lambda>(d, r). (d, None, r)) (pton_dec 4 [] src)) of
        None \<Rightarrow> None
      | Some (dst, cur, r) \<Rightarrow>
          let left = 4 - length dst - (if cur = None then 0 else 1);
              width = (case r of
                 [] \<Rightarrow> Some None
               | ch # r' \<Rightarrow>
                   if ch = CHR ''/'' \<and> r' \<noteq> [] \<and> isdigit (hd r') \<and> dst \<noteq> [] then
                     (case pton_num 32 0 r' of Some (b, []) \<Rightarrow> Some (Some b) | _ \<Rightarrow> None)
                   else None)
          in case width of
            None \<Rightarrow> None
          | Some ob \<Rightarrow>
              if dst = [] then None
              else let bits = (case ob of Some b \<Rightarrow> b | None \<Rightarrow> max (pton_class (hd dst)) (length dst * 8));
                       ext = (bits + 7) div 8 - length dst
                   in if ext > left then None
                      else Some (bits, take 4 (dst @ (if ext > 0 then replicate ext 0
                             else (case cur of None \<Rightarrow> [] | Some c \<Rightarrow> [c])) @ replicate 4 0)))"

definition be32 :: "byte list \<Rightarrow> u32" where
  "be32 bs = foldl (\<lambda>a b. push_bit 8 a OR ucast b) 0 (take 4 (bs @ replicate 4 0))"

section \<open>The inet family\<close>

definition RIDADDR :: nat where "RIDADDR = 0"
definition ADDR :: nat where "ADDR = 1"
definition MASK :: nat where "MASK = 2"
definition DSTADDR :: nat where "DSTADDR = 3"

lemmas which_defs = RIDADDR_def ADDR_def MASK_def DSTADDR_def

text \<open>Storing through \<open>sintab[which]\<close>.\<close>

definition set_sin :: "nat \<Rightarrow> u32 \<Rightarrow> ifc \<Rightarrow> ifc" where
  "set_sin which a g = g\<lparr>inreq :=
     (if which = RIDADDR then (inreq g)\<lparr>rid_addr := a\<rparr>
      else if which = ADDR then (inreq g)\<lparr>ifra_addr := a\<rparr>
      else if which = MASK then (inreq g)\<lparr>ifra_mask := a\<rparr>
      else (inreq g)\<lparr>ifra_broadaddr := a\<rparr>)\<rparr>"

text \<open>The bytes the prefix loop stores.\<close>

fun prefix_fill :: "nat \<Rightarrow> byte list" where
  "prefix_fill len =
     (if len > 7 then 0xff # prefix_fill (len - 8)
      else if len \<noteq> 0 then [push_bit (8 - len) 0xff] else [])"

declare prefix_fill.simps [simp del]

definition in_getprefix :: "string \<Rightarrow> nat \<Rightarrow> ifc \<Rightarrow> world \<Rightarrow> ifc outcome" where
  "in_getprefix plen which g w =
     andthen (num_arg plen 0 32 ''prefix %s: %s'' w) (\<lambda>len w1.
       if len = 0 \<or> len = 32 then Ok (set_sin which 0xffffffff g) w1
       else Ok (set_sin which (be32 (prefix_fill (nat len))) g) w1)"

definition in_getaddr :: "netdb \<Rightarrow> string \<Rightarrow> nat \<Rightarrow> ifc \<Rightarrow> world \<Rightarrow> ifc outcome" where
  "in_getaddr N s which g w =
     (case (if which = ADDR \<and> CHR ''/'' \<in> set s then inet_net_pton s else None) of
        Some (bits, a) \<Rightarrow>
          if length (show_int (int bits)) \<ge> 3 then errx ''%i: bad prefixlen'' [AI (int bits)] w
          else andthen (in_getprefix (show_int (int bits)) MASK g w) (\<lambda>g1 w1.
            Ok (set_sin which (be32 a) g1) w1)
      | None \<Rightarrow>
          (case inet_aton s of
             Some a \<Rightarrow> Ok (set_sin which a g) w
           | None \<Rightarrow>
               (case nd_host N s of
                  Some a \<Rightarrow> Ok (set_sin which a g) w
                | None \<Rightarrow>
                    (case nd_net N s of
                       Some a \<Rightarrow> Ok (set_sin which a g) w
                     | None \<Rightarrow> errx ''%s: bad value'' [AS s] w))))"

section \<open>The AppleTalk family\<close>

definition at_getaddr :: "string \<Rightarrow> nat \<Rightarrow> ifc \<Rightarrow> world \<Rightarrow> ifc outcome" where
  "at_getaddr addr which g w =
     (if which = MASK then errx ''AppleTalk does not use netmasks'' [] w
      else case sscanf_u_u (CHR ''.'') addr of
        None \<Rightarrow> errx ''%s: illegal address'' [AS addr] w
      | Some (net, node) \<Rightarrow>
          if net = 0 \<or> net > 0xffff \<or> node = 0 \<or> node > 0xfe then errx ''%s: illegal address'' [AS addr] w
          else Ok (g\<lparr>atreq := (atreq g)\<lparr>s_net := ucast net, s_node := ucast node\<rparr>\<rparr>) w)"

definition setatrange :: "string \<Rightarrow> int \<Rightarrow> ifc \<Rightarrow> world \<Rightarrow> ifc outcome" where
  "setatrange rng d g w =
     (case sscanf_u_u (CHR ''-'') rng of
        None \<Rightarrow> errx ''%s: illegal net range'' [AS rng] w
      | Some (first, lst) \<Rightarrow>
          if first = 0 \<or> first > 0xffff \<or> lst = 0 \<or> lst > 0xffff \<or> first > lst
          then errx ''%s: illegal net range'' [AS rng] w
          else Ok (g\<lparr>atreq := (atreq g)\<lparr>nr_firstnet := ucast first, nr_lastnet := ucast lst\<rparr>\<rparr>) w)"

definition setatphase :: "string \<Rightarrow> int \<Rightarrow> ifc \<Rightarrow> world \<Rightarrow> ifc outcome" where
  "setatphase phase d g w =
     (if phase = ''1'' then Ok (g\<lparr>atreq := (atreq g)\<lparr>nr_phase := 1\<rparr>\<rparr>) w
      else if phase = ''2'' then Ok (g\<lparr>atreq := (atreq g)\<lparr>nr_phase := 2\<rparr>\<rparr>) w
      else errx ''%s: illegal phase'' [AS phase] w)"

section \<open>Setters of addresses\<close>

fun af_getaddr :: "netdb \<Rightarrow> afswtch \<Rightarrow> string \<Rightarrow> nat \<Rightarrow> ifc \<Rightarrow> world \<Rightarrow> ifc outcome" where
  "af_getaddr N AF_inet = in_getaddr N"
| "af_getaddr N AF_atalk = at_getaddr"

definition setifaddr :: "netdb \<Rightarrow> string \<Rightarrow> int \<Rightarrow> ifc \<Rightarrow> world \<Rightarrow> ifc outcome" where
  "setifaddr N addr param g w =
     (let g1 = g\<lparr>setaddr := setaddr g + 1\<rparr>;
          g2 = (if doalias g1 \<ge> 0 then g1\<lparr>newaddr := 1\<rparr> else g1);
          g3 = (if doalias g2 = 0 then g2\<lparr>clearaddr := 1\<rparr> else g2)
      in af_getaddr N (afp g3) addr (if doalias g3 \<ge> 0 then ADDR else RIDADDR) g3 w)"

definition setifnetmask :: "netdb \<Rightarrow> string \<Rightarrow> int \<Rightarrow> ifc \<Rightarrow> world \<Rightarrow> ifc outcome" where
  "setifnetmask N addr d g w = af_getaddr N (afp g) addr MASK g w"

definition setifbroadaddr :: "netdb \<Rightarrow> string \<Rightarrow> int \<Rightarrow> ifc \<Rightarrow> world \<Rightarrow> ifc outcome" where
  "setifbroadaddr N addr d g w = af_getaddr N (afp g) addr DSTADDR g w"

definition setifipdst :: "netdb \<Rightarrow> string \<Rightarrow> int \<Rightarrow> ifc \<Rightarrow> world \<Rightarrow> ifc outcome" where
  "setifipdst N addr d g w =
     andthen (in_getaddr N addr DSTADDR g w) (\<lambda>g1.
       Ok (g1\<lparr>setipdst := setipdst g1 + 1, clearaddr := 0, newaddr := 0\<rparr>))"

definition setifdstaddr :: "netdb \<Rightarrow> string \<Rightarrow> int \<Rightarrow> ifc \<Rightarrow> world \<Rightarrow> ifc outcome" where
  "setifdstaddr N addr param g w =
     (let g1 = g\<lparr>setaddr := setaddr g + 1\<rparr> in af_getaddr N (afp g1) addr DSTADDR g1 w)"

text \<open>Both requests of AppleTalk are the same object: the copy changes nothing there.\<close>

definition notealias :: "string \<Rightarrow> int \<Rightarrow> ifc \<Rightarrow> world \<Rightarrow> ifc outcome" where
  "notealias addr param g w =
     (let g1 = (if setaddr g \<noteq> 0 \<and> doalias g = 0 \<and> param < 0 \<and> afp g = AF_inet
                then set_sin RIDADDR (ifra_addr (inreq g)) g else g);
          g2 = g1\<lparr>doalias := param\<rparr>
      in Ok (if param < 0 then g2\<lparr>clearaddr := 1, newaddr := 0\<rparr> else g2\<lparr>clearaddr := 0\<rparr>) w)"

definition setifprefixlen :: "string \<Rightarrow> int \<Rightarrow> ifc \<Rightarrow> world \<Rightarrow> ifc outcome" where
  "setifprefixlen addr d g w =
     andthen (case afp g of AF_inet \<Rightarrow> in_getprefix addr MASK g w | AF_atalk \<Rightarrow> Ok g w)
       (\<lambda>g1. Ok (g1\<lparr>explicit_prefix := 1\<rparr>))"

section \<open>Lemmas\<close>

text \<open>The loop builds the mask of the given width.\<close>

lemma replicate_numeral2:
  "replicate 4 x = [x, x, x, x]" "replicate 3 x = [x, x, x]" "replicate 2 x = [x, x]"
  by (simp_all add: numeral_eq_Suc)

lemma prefix_fill_mask_all:
  "list_all (\<lambda>len. be32 (prefix_fill len) = NOT (mask (32 - len))) [0..<33]"
  by (simp add: upt_rec be32_def prefix_fill.simps mask_eq_exp_minus_1 replicate_numeral2)

lemma prefix_fill_mask: "len \<le> 32 \<Longrightarrow> be32 (prefix_fill len) = NOT (mask (32 - len))"
  using prefix_fill_mask_all by (simp add: list_all_iff)

lemma in_getprefix_spec:
  "in_getprefix plen which g w =
     (case num_ref plen of
        Some n \<Rightarrow> if n < 0 then errx ''prefix %s: %s'' [AS plen, AS ''too small''] (set_errno ERANGE w)
           else if n > 32 then errx ''prefix %s: %s'' [AS plen, AS ''too large''] (set_errno ERANGE w)
           else Ok (set_sin which (if n = 0 then NOT 0 else NOT (mask (32 - nat n))) g) w
      | None \<Rightarrow> errx ''prefix %s: %s'' [AS plen, AS ''invalid''] (set_errno EINVAL w))"
proof -
  have r: "LLONG_MIN \<le> 0" "(0::int) \<le> 32" "32 \<le> LLONG_MAX" by (simp_all add: LLONG_MIN_def LLONG_MAX_def)
  have m: "(0xffffffff :: u32) = - 1" by simp
  show ?thesis
    unfolding in_getprefix_def m
    by (auto simp: num_arg_spec[OF r] errx_def prefix_fill_mask split: option.split)
qed

end
