(* ===== verification/Ifc_Media.thy ===== *)
theory Ifc_Media
  imports Ifc_Base
begin

text \<open>
  Media selection in \<open>ifcutil.c\<close>: the description tables of \<open>net/if_media.h\<close>, the setters that
  collect a media word, and \<open>process_media_commands\<close>, which sends it. A lemma shows
  which word is sent at the end.
\<close>

section \<open>Media words\<close>

definition IFM_NMASK :: u32 where "IFM_NMASK = 0x000000e0"
definition IFM_TMASK :: u32 where "IFM_TMASK = 0x0000001f"
definition IFM_IMASK :: u32 where "IFM_IMASK = 0xf0000000"
definition IFM_OGMASK :: u32 where "IFM_OGMASK = 0x0ff0ff00"
definition IFM_MMASK :: u32 where "IFM_MMASK = 0x00070000"

lemmas ifm_masks = IFM_NMASK_def IFM_TMASK_def IFM_IMASK_def IFM_OGMASK_def IFM_MMASK_def

definition IFM_TYPE :: "u32 \<Rightarrow> u32" where "IFM_TYPE x = x AND IFM_NMASK"
definition IFM_SUBTYPE :: "u32 \<Rightarrow> u32" where "IFM_SUBTYPE x = x AND IFM_TMASK"
definition IFM_INST :: "u32 \<Rightarrow> u32" where "IFM_INST x = drop_bit 28 (x AND IFM_IMASK)"
definition IFM_OPTIONS :: "u32 \<Rightarrow> u32" where "IFM_OPTIONS x = x AND IFM_OGMASK"

definition IFM_MAKEWORD :: "u32 \<Rightarrow> u32 \<Rightarrow> u32 \<Rightarrow> u32 \<Rightarrow> u32" where
  "IFM_MAKEWORD ty subtype options ins = ty OR subtype OR options OR push_bit 28 ins"

definition IFM_TYPE_MATCH :: "u32 \<Rightarrow> u32 \<Rightarrow> bool" where
  "IFM_TYPE_MATCH dt t \<longleftrightarrow> IFM_TYPE dt = 0 \<or> IFM_TYPE dt = IFM_TYPE t"

section \<open>Tables\<close>

definition ifm_type_descriptions :: "(u32 \<times> string) list" where
  "ifm_type_descriptions = [
    (0x20, ''Ethernet''), (0x20, ''ether''), (0x60, ''FDDI''), (0x80, ''IEEE802.11''),
    (0xa0, ''TDM''), (0xc0, ''CARP'')]"

definition ifm_subtype_descriptions :: "(u32 \<times> string) list" where
  "ifm_subtype_descriptions = [
    (0x0, ''autoselect''), (0x0, ''auto''), (0x1, ''manual''), (0x2, ''none''), (0x23, ''10baseT''),
    (0x23, ''10baseT/UTP''), (0x23, ''UTP''), (0x23, ''10UTP''), (0x24, ''10base2''),
    (0x24, ''10base2/BNC''), (0x24, ''BNC''), (0x24, ''10BNC''), (0x25, ''10base5''),
    (0x25, ''10base5/AUI''), (0x25, ''AUI''), (0x25, ''10AUI''), (0x26, ''100baseTX''),
    (0x26, ''100TX''), (0x27, ''100baseFX''), (0x27, ''100FX''), (0x28, ''100baseT4''),
    (0x28, ''100T4''), (0x29, ''100baseVG''), (0x29, ''100VG''), (0x2a, ''100baseT2''),
    (0x2a, ''100T2''), (0x2b, ''1000baseSX''), (0x2b, ''1000SX''), (0x2c, ''10baseSTP''),
    (0x2c, ''STP''), (0x2c, ''10STP''), (0x2d, ''10baseFL''), (0x2d, ''FL''), (0x2d, ''10FL''),
    (0x2e, ''1000baseLX''), (0x2e, ''1000LX''), (0x2f, ''1000baseCX''), (0x2f, ''1000CX''),
    (0x30, ''1000baseT''), (0x30, ''1000T''), (0x30, ''1000baseTX''), (0x30, ''1000TX''),
    (0x31, ''HomePNA1''), (0x31, ''HPNA1''), (0x32, ''10GbaseLR''), (0x32, ''10GLR''),
    (0x32, ''10GBASE-LR''), (0x33, ''10GbaseSR''), (0x33, ''10GSR''), (0x33, ''10GBASE-SR''),
    (0x34, ''10GbaseCX4''), (0x34, ''10GCX4''), (0x34, ''10GBASE-CX4''), (0x35, ''2500baseSX''),
    (0x35, ''2500SX''), (0x36, ''10GbaseT''), (0x36, ''10GT''), (0x36, ''10GBASE-T''),
    (0x37, ''10GSFP+Cu''), (0x37, ''10GCu''), (0x63, ''Single-mode''), (0x63, ''SMF''),
    (0x64, ''Multi-mode''), (0x64, ''MMF''), (0x65, ''UTP''), (0x65, ''CDDI''), (0x83, ''FH1''),
    (0x84, ''FH2''), (0x85, ''DS2''), (0x86, ''DS5''), (0x87, ''DS11''), (0x88, ''DS1''),
    (0x89, ''DS22''), (0x8a, ''OFDM6''), (0x8b, ''OFDM9''), (0x8c, ''OFDM12''), (0x8d, ''OFDM18''),
    (0x8e, ''OFDM24''), (0x8f, ''OFDM36''), (0x90, ''OFDM48''), (0x91, ''OFDM54''),
    (0x92, ''OFDM72''), (0xa3, ''t1''), (0xa4, ''t1-ami''), (0xa5, ''e1''), (0xa6, ''e1-g.704''),
    (0xa7, ''e1-ami''), (0xa8, ''e1-ami-g.704''), (0xa9, ''t3''), (0xaa, ''t3-m13''),
    (0xab, ''e3''), (0xac, ''e3-g.751''), (0xad, ''e3-g.832''), (0xae, ''e1-g.704-crc4'')]"

definition ifm_mode_descriptions :: "(u32 \<times> string) list" where
  "ifm_mode_descriptions = [
    (0x0, ''autoselect''), (0x0, ''auto''), (0x10080, ''11a''), (0x20080, ''11b''),
    (0x30080, ''11g''), (0x40080, ''fh''), (0x100a0, ''master'')]"

definition ifm_option_descriptions :: "(u32 \<times> string) list" where
  "ifm_option_descriptions = [
    (0x100000, ''full-duplex''), (0x100000, ''fdx''), (0x200000, ''half-duplex''),
    (0x200000, ''hdx''), (0x1000000, ''flag0''), (0x2000000, ''flag1''), (0x4000000, ''flag2''),
    (0x8000000, ''loopback''), (0x8000000, ''hw-loopback''), (0x8000000, ''loop''),
    (0x120, ''master''), (0x220, ''rxpause''), (0x420, ''txpause''), (0x160, ''dual-attach''),
    (0x160, ''das''), (0x180, ''adhoc''), (0x280, ''hostap''), (0x480, ''ibss''),
    (0x880, ''ibss-master''), (0x1080, ''monitor''), (0x2080, ''turbo''), (0x1a0, ''hdlc-crc16''),
    (0x2a0, ''ppp''), (0x4a0, ''framerelay-ansi''), (0x8a0, ''framerelay-cisco''),
    (0x4a0, ''framerelay-itu'')]"

definition get_media_type_string :: "u32 \<Rightarrow> string" where
  "get_media_type_string mword =
     (case find (\<lambda>(wd, t). IFM_TYPE mword = wd) ifm_type_descriptions of
        Some (_, t) \<Rightarrow> t | None \<Rightarrow> ''<unknown type>'')"

definition get_media_subtype_string :: "u32 \<Rightarrow> string" where
  "get_media_subtype_string mword =
     (case find (\<lambda>(wd, t). IFM_TYPE_MATCH wd mword \<and> IFM_SUBTYPE wd = IFM_SUBTYPE mword)
             ifm_subtype_descriptions of
        Some (_, t) \<Rightarrow> t | None \<Rightarrow> ''<unknown subtype>'')"

definition lookup_media_word :: "(u32 \<times> string) list \<Rightarrow> u32 \<Rightarrow> string \<Rightarrow> u32 option" where
  "lookup_media_word desc ty val =
     map_option fst (find (\<lambda>(wd, t). IFM_TYPE_MATCH wd ty \<and> strcasecmp t val) desc)"

definition get_media_subtype :: "u32 \<Rightarrow> string \<Rightarrow> world \<Rightarrow> u32 outcome" where
  "get_media_subtype ty val w =
     (case lookup_media_word ifm_subtype_descriptions ty val of
        None \<Rightarrow> errx ''unknown %s media subtype: %s'' [AS (get_media_type_string ty), AS val] w
      | Some r \<Rightarrow> Ok r w)"

definition get_media_mode :: "u32 \<Rightarrow> string \<Rightarrow> world \<Rightarrow> u32 outcome" where
  "get_media_mode ty val w =
     (case lookup_media_word ifm_mode_descriptions ty val of
        None \<Rightarrow> errx ''unknown %s media mode: %s'' [AS (get_media_type_string ty), AS val] w
      | Some r \<Rightarrow> Ok r w)"

fun or_options :: "u32 \<Rightarrow> string list \<Rightarrow> u32 \<Rightarrow> world \<Rightarrow> u32 outcome" where
  "or_options ty [] rval w = Ok rval w"
| "or_options ty (str # ts) rval w =
     (case lookup_media_word ifm_option_descriptions ty str of
        None \<Rightarrow> errx ''unknown %s media option: %s'' [AS (get_media_type_string ty), AS str] w
      | Some opt \<Rightarrow> or_options ty ts (rval OR IFM_OPTIONS opt) w)"

definition get_media_options :: "kernel \<Rightarrow> u32 \<Rightarrow> string \<Rightarrow> world \<Rightarrow> u32 outcome" where
  "get_media_options K ty val w =
     (case alloc K (length val + 1) w of (ok, w1) \<Rightarrow>
        if \<not> ok then err K ''strdup'' [] w1
        else or_options ty (strtok_all (CHR '','') (Some val)) 0 w1)"

section \<open>Commands\<close>

definition A_MEDIA :: u32 where "A_MEDIA = 1"
definition A_MEDIAOPTSET :: u32 where "A_MEDIAOPTSET = 2"
definition A_MEDIAOPTCLR :: u32 where "A_MEDIAOPTCLR = 4"
definition A_MEDIAOPT :: u32 where "A_MEDIAOPT = 6"
definition A_MEDIAINST :: u32 where "A_MEDIAINST = 8"
definition A_MEDIAMODE :: u32 where "A_MEDIAMODE = 16"
definition A_SILENT :: u32 where "A_SILENT = 0x8000000"

lemmas action_defs = A_MEDIA_def A_MEDIAOPTSET_def A_MEDIAOPTCLR_def A_MEDIAOPT_def A_MEDIAINST_def
  A_MEDIAMODE_def A_SILENT_def

abbreviation done_action :: "ifc \<Rightarrow> u32 \<Rightarrow> bool" where
  "done_action g a \<equiv> actions g AND a \<noteq> 0"

definition set_current :: "u32 \<Rightarrow> ifc \<Rightarrow> ifc" where
  "set_current m g = g\<lparr>med := (med g)\<lparr>media_current := m\<rparr>\<rparr>"

text \<open>When the query fails with \<open>E2BIG\<close> the kernel has filled in the current word.\<close>

definition init_current_media :: "kernel \<Rightarrow> ifc \<Rightarrow> world \<Rightarrow> ifc outcome" where
  "init_current_media K g w =
     andthen
       (if actions g AND (A_MEDIA OR A_MEDIAOPT OR A_MEDIAMODE) = 0 then
          (case ioctl K (sock g) SIOCGIFMEDIA (name_of g) IoNone w of
             (None, w1) \<Rightarrow>
               if errno w1 \<noteq> E2BIG then err K ''SIOCGIFMEDIA'' [] w1
               else Ok (set_current (un_le32 (junk K 4 w1)) g) w1
           | (Some r, w1) \<Rightarrow> Ok (set_current (word_of_int (io_int r)) g) w1)
        else Ok g w)
       (\<lambda>g1 w1. if IFM_TYPE (media_current (med g1)) = 0 then errx ''%s: no link type?'' [AS (ifname g1)] w1
                 else Ok g1 w1)"

definition process_media_commands :: "kernel \<Rightarrow> ifc \<Rightarrow> world \<Rightarrow> ifc \<times> world" where
  "process_media_commands K g w =
     (if actions g AND (A_MEDIA OR A_MEDIAOPT) = 0 then (g, w)
      else let m = (media_current (med g) OR mediaopt_set (med g)) AND NOT (mediaopt_clear (med g));
               g1 = set_ifr_name (set_current m g)
           in (g1, snd (ioctl K (sock g1) SIOCSIFMEDIA (ifr_name g1) (IoInt (sint m)) w)))"

definition setmedia :: "kernel \<Rightarrow> string option \<Rightarrow> int \<Rightarrow> ifc \<Rightarrow> world \<Rightarrow> ifc outcome" where
  "setmedia K val d g w =
     (case val of
        None \<Rightarrow> if showmediaflag g \<noteq> 0 then usage w else Ok (g\<lparr>showmediaflag := 1\<rparr>) w
      | Some v \<Rightarrow>
          andthen (init_current_media K g w) (\<lambda>g1 w1.
            if done_action g1 A_MEDIA then errx ''only one `media' command may be issued'' [] w1
            else if done_action g1 A_MEDIAMODE then errx ''may not issue `media' after `mode' commands'' [] w1
            else if done_action g1 A_MEDIAOPT then errx ''may not issue `media' after `mediaopt' commands'' [] w1
            else let cur = media_current (med g1) in
              andthen (get_media_subtype (IFM_TYPE cur) v w1) (\<lambda>subtype.
                Ok (set_current (IFM_MAKEWORD (IFM_TYPE cur) subtype 0 (IFM_INST cur)) g1))))"

definition setmediamode :: "kernel \<Rightarrow> string \<Rightarrow> int \<Rightarrow> ifc \<Rightarrow> world \<Rightarrow> ifc outcome" where
  "setmediamode K val d g w =
     andthen (init_current_media K g w) (\<lambda>g1 w1.
       if done_action g1 A_MEDIAMODE then errx ''only one `mode' command may be issued'' [] w1
       else let cur = media_current (med g1) in
         andthen (get_media_mode (IFM_TYPE cur) val w1) (\<lambda>mode.
           Ok (set_current (IFM_MAKEWORD (IFM_TYPE cur) (IFM_SUBTYPE cur) (IFM_OPTIONS cur) (IFM_INST cur)
                 OR mode) g1)))"

definition setmediaopt :: "kernel \<Rightarrow> string \<Rightarrow> int \<Rightarrow> ifc \<Rightarrow> world \<Rightarrow> ifc outcome" where
  "setmediaopt K val d g w =
     andthen (init_current_media K g w) (\<lambda>g1 w1.
       if done_action g1 A_MEDIAOPTSET then errx ''only one `mediaopt' command may be issued'' [] w1
       else if done_action g1 A_MEDIAINST then errx ''may not issue `mediaopt' after `instance' '' [] w1
       else andthen (get_media_options K (IFM_TYPE (media_current (med g1))) val w1) (\<lambda>m.
         Ok (g1\<lparr>med := (med g1)\<lparr>mediaopt_set := m\<rparr>\<rparr>)))"

definition unsetmediaopt :: "kernel \<Rightarrow> string \<Rightarrow> int \<Rightarrow> ifc \<Rightarrow> world \<Rightarrow> ifc outcome" where
  "unsetmediaopt K val d g w =
     andthen (init_current_media K g w) (\<lambda>g1 w1.
       if done_action g1 A_MEDIAOPTCLR then errx ''only one `-mediaopt' command may be issued'' [] w1
       else if done_action g1 A_MEDIA then errx ''may not issue both `media' and `-mediaopt' '' [] w1
       else andthen (get_media_options K (IFM_TYPE (media_current (med g1))) val w1) (\<lambda>m.
         Ok (g1\<lparr>med := (med g1)\<lparr>mediaopt_clear := m\<rparr>\<rparr>)))"

definition setmediainst :: "kernel \<Rightarrow> string \<Rightarrow> int \<Rightarrow> ifc \<Rightarrow> world \<Rightarrow> ifc outcome" where
  "setmediainst K val d g w =
     andthen (init_current_media K g w) (\<lambda>g1 w1.
       if done_action g1 A_MEDIAINST then errx ''only one `instance' command may be issued'' [] w1
       else if \<not> done_action g1 A_MEDIA then errx ''must specify `media' before `instance' '' [] w1
       else let cur = media_current (med g1) in
         andthen (num_arg val 0 15 ''media instance %s: %s'' w1) (\<lambda>n.
           Ok (set_current (IFM_MAKEWORD (IFM_TYPE cur) (IFM_SUBTYPE cur) (IFM_OPTIONS cur) (word_of_int n)) g1)))"

section \<open>Time slots\<close>

text \<open>
  \<open>get_ts_map\<close> shifts an \<open>int\<close>: a shift by 32 or more (or by a negative number) is undefined.
  The result is widened to \<open>unsigned long\<close>, with the sign.
\<close>

function ts_range :: "int \<Rightarrow> int \<Rightarrow> 64 word \<Rightarrow> world \<Rightarrow> (64 word) outcome" where
  "ts_range i ts_stop mp w =
     (if i > ts_stop then Ok mp w
      else if i < 0 \<or> i > 31 then Undef ''get_ts_map: shift count'' w
      else ts_range (i + 1) ts_stop (mp OR scast (push_bit (nat i) 1 :: u32)) w)"
  by pat_completeness auto
termination
  by (relation "measure (\<lambda>(i, ts_stop, mp, w). nat (ts_stop + 1 - i))") auto

declare ts_range.simps [simp del]

definition get_ts_map :: "bool \<Rightarrow> bool \<Rightarrow> int \<Rightarrow> int \<Rightarrow> world \<Rightarrow> (64 word) outcome" where
  "get_ts_map single rng ts_start ts_stop w =
     (if \<not> single \<and> \<not> rng then Ok 0 w
      else if rng then ts_range ts_start ts_stop 0 w
      else ts_range ts_stop ts_stop 0 w)"

text \<open>The scanner: \<open>ts_flag\<close> as its two bits, the start of a range, the last number. \<open>strtoul\<close>
  on decimal digits, cut to an \<open>int\<close>.\<close>

definition ts_num :: "string \<Rightarrow> int" where
  "ts_num ds = sint (of_nat (min (foldl (\<lambda>a c. a * 10 + (ord c - 48)) 0 ds) (2 ^ 64 - 1)) :: u32)"

function ts_scan ::
  "bool \<Rightarrow> bool \<Rightarrow> int \<Rightarrow> int \<Rightarrow> 64 word \<Rightarrow> string \<Rightarrow> world \<Rightarrow> (64 word) outcome" where
  "ts_scan single rng ts_start ts mp ptr w =
     (case ptr of
        [] \<Rightarrow>
          if single \<or> rng then andthen (get_ts_map single rng ts_start ts w) (\<lambda>m. Ok (mp OR m))
          else Ok mp w
      | c # r \<Rightarrow>
          if isdigit c then
            ts_scan True rng ts_start (ts_num (takeWhile isdigit (c # r))) mp (dropWhile isdigit r) w
          else if c = CHR ''-'' then ts_scan single True ts ts mp r w
          else (case get_ts_map single rng ts_start ts w of
             Ok m w1 \<Rightarrow> ts_scan False False ts_start ts (mp OR m) r w1
           | Exit e w1 \<Rightarrow> Exit e w1
           | Undef u w1 \<Rightarrow> Undef u w1))"
  by pat_completeness auto
termination
  by (relation "measure (\<lambda>(s, g, b, t, m, ptr, w). length ptr)")
     (auto simp: le_imp_less_Suc length_dropWhile_le)

declare ts_scan.simps [simp del]

definition settimeslot :: "kernel \<Rightarrow> string \<Rightarrow> int \<Rightarrow> ifc \<Rightarrow> world \<Rightarrow> ifc outcome" where
  "settimeslot K val d g w =
     andthen (if val = ''all'' then Ok 0xffffffff w else ts_scan False False 0 0 0 val w) (\<lambda>m w1.
       let g1 = set_ifr_name g in
       andthen (ioctl_err K g1 SIOCSIFTIMESLOT (ifr_name g1) (IoMap m) ''SIOCSIFTIMESLOT'' w1) (\<lambda>_. Ok g1))"

section \<open>Link state\<close>

text \<open>\<open>get_linkstate\<close> with the descriptions of \<open>net/if.h\<close>: type, state and text. The types are
  \<open>IFT_ETHER\<close>, \<open>IFT_IEEE80211\<close>, \<open>IFT_PPP\<close> and \<open>IFT_CARP\<close>; 0 matches any.\<close>

definition if_status_descriptions :: "(int \<times> int \<times> string) list" where
  "if_status_descriptions =
     [(0x06, 2, ''no carrier''), (0x47, 2, ''no network''), (0x17, 2, ''no carrier''),
      (0xf7, 2, ''backup''), (0xf7, 4, ''master''), (0xf7, 5, ''master''), (0xf7, 6, ''master''),
      (0, 4, ''active''), (0, 5, ''active''), (0, 6, ''active''),
      (0, 0, ''unknown''), (0, 1, ''invalid''), (0, 2, ''down''), (0, 3, ''keepalive down'')]"

definition get_linkstate :: "int \<Rightarrow> int \<Rightarrow> string" where
  "get_linkstate mt link_state =
     (case find (\<lambda>(t, st, txt). (t = mt \<or> t = 0) \<and> st = link_state) if_status_descriptions of
        Some (_, _, txt) \<Rightarrow> txt
      | None \<Rightarrow> take 7 (vfmt ''[#%d]'' [AI link_state]))"

section \<open>Lemmas\<close>

text \<open>What \<open>process_media_commands\<close> sends.\<close>

lemma process_media_word:
  assumes "done_action g (A_MEDIA OR A_MEDIAOPT)" "process_media_commands K g w = (g', w')"
  shows "trace w' = EvIoctl (sock g) SIOCSIFMEDIA (name_of g)
      (IoInt (sint ((media_current (med g) OR mediaopt_set (med g)) AND NOT (mediaopt_clear (med g))))) # trace w"
  using assms
  by (auto simp: process_media_commands_def Let_def set_ifr_name_def set_current_def name_of_def ioctl_trace)

end
