(* ===== verification/Sha1.thy ===== *)
theory Sha1
  imports Ifc_Prelude
begin

text \<open>
  SHA-1 (\<open>lib/libc/hash/sha1.c\<close>), which the daemon needs to make a key of a passphrase. The code
  expands the message while it goes through the rounds, in a ring of sixteen words, and takes its
  input in pieces of any size. The lemmas show that both are what FIPS 180-1 defines on the whole
  message: the compression function is the one of the standard, and a sequence of updates followed
  by \<open>SHA1Final\<close> is the digest of the concatenation.
\<close>

section \<open>The compression function\<close>

definition rol :: "u32 \<Rightarrow> nat \<Rightarrow> u32" where
  "rol v n = push_bit n v OR drop_bit (32 - n) v"

text \<open>
  \<open>blk0\<close> brings a word of the block, read in the little endian order of the platform, into the
  order of the standard; \<open>blk\<close> expands. Both store the word and return it.
\<close>

definition blk0 :: "nat \<Rightarrow> u32 list \<Rightarrow> u32 \<times> u32 list" where
  "blk0 i l = (let x = (rol (l ! i) 24 AND 0xFF00FF00) OR (rol (l ! i) 8 AND 0x00FF00FF) in (x, l[i := x]))"

definition blk :: "nat \<Rightarrow> u32 list \<Rightarrow> u32 \<times> u32 list" where
  "blk i l = (let x = rol (l ! ((i + 13) mod 16) XOR l ! ((i + 8) mod 16) XOR l ! ((i + 2) mod 16) XOR l ! (i mod 16)) 1
     in (x, l[i mod 16 := x]))"

text \<open>
  The rounds. The code writes them out with the five variables in turn as arguments; the result
  here has them in the order of the next round's arguments.
\<close>

type_synonym regs = "u32 \<times> u32 \<times> u32 \<times> u32 \<times> u32"

definition R0 :: "nat \<Rightarrow> regs \<times> u32 list \<Rightarrow> regs \<times> u32 list" where
  "R0 i s = (case s of ((v, w, x, y, z), l) \<Rightarrow> case blk0 i l of (b, l1) \<Rightarrow>
     ((z + (((w AND (x XOR y)) XOR y) + b + 0x5A827999 + rol v 5), v, rol w 30, x, y), l1))"

definition R1 :: "nat \<Rightarrow> regs \<times> u32 list \<Rightarrow> regs \<times> u32 list" where
  "R1 i s = (case s of ((v, w, x, y, z), l) \<Rightarrow> case blk i l of (b, l1) \<Rightarrow>
     ((z + (((w AND (x XOR y)) XOR y) + b + 0x5A827999 + rol v 5), v, rol w 30, x, y), l1))"

definition R2 :: "nat \<Rightarrow> regs \<times> u32 list \<Rightarrow> regs \<times> u32 list" where
  "R2 i s = (case s of ((v, w, x, y, z), l) \<Rightarrow> case blk i l of (b, l1) \<Rightarrow>
     ((z + ((w XOR x XOR y) + b + 0x6ED9EBA1 + rol v 5), v, rol w 30, x, y), l1))"

definition R3 :: "nat \<Rightarrow> regs \<times> u32 list \<Rightarrow> regs \<times> u32 list" where
  "R3 i s = (case s of ((v, w, x, y, z), l) \<Rightarrow> case blk i l of (b, l1) \<Rightarrow>
     ((z + ((((w OR x) AND y) OR (w AND x)) + b + 0x8F1BBCDC + rol v 5), v, rol w 30, x, y), l1))"

definition R4 :: "nat \<Rightarrow> regs \<times> u32 list \<Rightarrow> regs \<times> u32 list" where
  "R4 i s = (case s of ((v, w, x, y, z), l) \<Rightarrow> case blk i l of (b, l1) \<Rightarrow>
     ((z + ((w XOR x XOR y) + b + 0xCA62C1D6 + rol v 5), v, rol w 30, x, y), l1))"

text \<open>The 64 bytes of the buffer as sixteen words of the platform (\<open>CHAR64LONG16\<close>).\<close>

definition CHAR64LONG16 :: "byte list \<Rightarrow> u32 list" where
  "CHAR64LONG16 c = map (\<lambda>i. un_le32 (drop (4 * i) c)) [0..<16]"

definition SHA1Transform :: "u32 list \<Rightarrow> byte list \<Rightarrow> u32 list" where
  "SHA1Transform state buffer =
     (let s0 = ((state ! 0, state ! 1, state ! 2, state ! 3, state ! 4), CHAR64LONG16 buffer);
          s1 = fold R0 [0..<16] s0;
          s2 = fold R1 [16..<20] s1;
          s3 = fold R2 [20..<40] s2;
          s4 = fold R3 [40..<60] s3
      in case fold R4 [60..<80] s4 of ((a, b, c, d, e), _) \<Rightarrow>
        [state ! 0 + a, state ! 1 + b, state ! 2 + c, state ! 3 + d, state ! 4 + e])"

section \<open>Contexts\<close>

record SHA1_CTX =
  sh_state :: "u32 list"
  sh_count :: "64 word"
  sh_buffer :: "byte list"

definition SHA1Init :: "SHA1_CTX \<Rightarrow> SHA1_CTX" where
  "SHA1Init ctx = ctx\<lparr>sh_count := 0, sh_state := [0x67452301, 0xEFCDAB89, 0x98BADCFE, 0x10325476, 0xC3D2E1F0]\<rparr>"

function sha1_blocks :: "u32 list \<Rightarrow> byte list \<Rightarrow> nat \<Rightarrow> u32 list \<times> nat" where
  "sha1_blocks st data i =
     (if i + 63 < length data then sha1_blocks (SHA1Transform st (take 64 (drop i data))) data (i + 64) else (st, i))"
  by pat_completeness auto
termination
  by (relation "measure (\<lambda>(st, data, i). length data - i)") auto

declare sha1_blocks.simps [simp del]

definition SHA1Update :: "byte list \<Rightarrow> SHA1_CTX \<Rightarrow> SHA1_CTX" where
  "SHA1Update data ctx =
     (let len = length data;
          j = unat (drop_bit 3 (sh_count ctx) AND 63);
          ctx1 = ctx\<lparr>sh_count := sh_count ctx + push_bit 3 (of_nat len)\<rparr>
      in if j + len > 63 then
           let b = memput (sh_buffer ctx) j (take (64 - j) data) in
           case sha1_blocks (SHA1Transform (sh_state ctx) b) data (64 - j) of (st, i) \<Rightarrow>
             ctx1\<lparr>sh_state := st, sh_buffer := memput b 0 (drop i data)\<rparr>
         else ctx1\<lparr>sh_buffer := memput (sh_buffer ctx) j data\<rparr>)"

text \<open>The position in the block, in bytes, moves on by the length of what is added.\<close>

lemma sha1_pos: "unat (drop_bit 3 c AND 63) = unat (c :: 64 word) div 8 mod 64"
proof -
  have "drop_bit 3 c AND 63 = take_bit 6 (drop_bit 3 c)" by (simp add: take_bit_eq_mask mask_eq_exp_minus_1)
  then show ?thesis by (simp add: take_bit_eq_mod drop_bit_eq_div unat_mod unat_div)
qed

lemma sha1_pos_add:
  "unat (drop_bit 3 (c + push_bit 3 (of_nat n)) AND 63) = (unat (drop_bit 3 (c :: 64 word) AND 63) + n) mod 64"
proof -
  have div8: "a mod (8 * m) div 8 = a div 8 mod m" for a m :: nat by (simp add: mod_mult2_eq)
  have "unat (push_bit 3 (of_nat n :: 64 word)) = (8 * n) mod 2 ^ 64"
    by (simp add: push_bit_eq_mult unat_word_ariths unat_of_nat mod_mult_right_eq mult.commute)
  then have "unat (c + push_bit 3 (of_nat n)) = (unat c + 8 * n) mod (8 * 2 ^ 61)"
    by (simp add: unat_word_ariths mod_add_right_eq)
  then have "unat (c + push_bit 3 (of_nat n)) div 8 mod 64 = (unat c + 8 * n) div 8 mod 2 ^ 61 mod 64"
    by (simp only: div8)
  also have "\<dots> = (unat c div 8 + n) mod 64" by (subst mod_mod_cancel) (simp_all add: add.commute)
  finally show ?thesis by (simp add: sha1_pos mod_add_left_eq)
qed

lemma sha1_448: "drop_bit 3 (448 :: 64 word) = 56" "push_bit 3 (56 :: 64 word) = 448"
  by simp_all

lemma sha1_count_504: "(c :: 64 word) AND 504 = 448 \<longleftrightarrow> unat (drop_bit 3 c AND 63) = 56"
proof -
  have m: "(504 :: 64 word) = push_bit 3 (mask 6)" "(63 :: 64 word) = mask 6" by (simp_all add: mask_eq_exp_minus_1)
  have "push_bit 3 (drop_bit 3 c AND 63) = c AND 504"
    unfolding m by (rule bit_word_eqI) (auto simp: bit_simps)
  moreover have "drop_bit 3 (c AND 504) = drop_bit 3 c AND 63"
    unfolding m by (rule bit_word_eqI) (auto simp: bit_simps)
  ultimately have "c AND 504 = 448 \<longleftrightarrow> drop_bit 3 c AND 63 = 56" by (metis sha1_448)
  also have "\<dots> \<longleftrightarrow> unat (drop_bit 3 c AND 63) = 56" by (simp add: word_unat_eq_iff)
  finally show ?thesis .
qed

lemma sha1_pad_arith: "(j :: nat) \<noteq> 56 \<Longrightarrow> j < 64 \<Longrightarrow> (120 - (j + 1) mod 64) mod 64 < (120 - j) mod 64"
proof -
  assume j: "j \<noteq> 56" "j < 64"
  then consider "j < 56" | "56 < j" "j < 63" | "j = 63" by linarith
  then show ?thesis
  proof cases
    case 1
    then have e: "120 - j = (56 - j) + 64" "120 - (j + 1) mod 64 = (55 - j) + 64" by simp_all
    show ?thesis unfolding e mod_add_self2 using 1 by simp
  qed simp_all
qed

function sha1_pad_loop :: "SHA1_CTX \<Rightarrow> SHA1_CTX" where
  "sha1_pad_loop ctx = (if sh_count ctx AND 504 \<noteq> 448 then sha1_pad_loop (SHA1Update [0] ctx) else ctx)"
  by pat_completeness auto
termination
proof (relation "measure (\<lambda>ctx. (120 - unat (drop_bit 3 (sh_count ctx) AND 63)) mod 64)", simp_all)
  fix ctx :: SHA1_CTX
  let ?j = "unat (drop_bit 3 (sh_count ctx) AND 63)"
  assume "sh_count ctx AND 504 \<noteq> 448"
  then have j: "?j \<noteq> 56" "?j < 64" by (simp_all add: sha1_count_504 sha1_pos)
  have u: "unat (drop_bit 3 (sh_count (SHA1Update [0] ctx)) AND 63) = (?j + 1) mod 64"
    using sha1_pos_add[of "sh_count ctx" 1] by (simp add: SHA1Update_def Let_def split: prod.split)
  show "(120 - unat (drop_bit 3 (sh_count (SHA1Update [0] ctx)) AND 63)) mod 64 < (120 - ?j) mod 64"
    unfolding u by (rule sha1_pad_arith[OF j])
qed

declare sha1_pad_loop.simps [simp del]

definition SHA1Pad :: "SHA1_CTX \<Rightarrow> SHA1_CTX" where
  "SHA1Pad ctx =
     (let finalcount = map (\<lambda>i. ucast (drop_bit ((7 - i) * 8) (sh_count ctx) AND 255)) [0..<8]
      in SHA1Update finalcount (sha1_pad_loop (SHA1Update [0x80] ctx)))"

text \<open>\<open>SHA1Final\<close> with a buffer for the digest, the only way it is called; the context is wiped.\<close>

definition SHA1_DIGEST_LENGTH :: nat where "SHA1_DIGEST_LENGTH = 20"
definition SHA1_BLOCK_LENGTH :: nat where "SHA1_BLOCK_LENGTH = 64"

definition SHA1Final :: "SHA1_CTX \<Rightarrow> byte list \<times> SHA1_CTX" where
  "SHA1Final ctx =
     (let ctx1 = SHA1Pad ctx in
      (map (\<lambda>i. ucast (drop_bit ((3 - i mod 4) * 8) (sh_state ctx1 ! (i div 4)) AND 255)) [0..<SHA1_DIGEST_LENGTH],
       \<lparr>sh_state = replicate 5 0, sh_count = 0, sh_buffer = replicate SHA1_BLOCK_LENGTH 0\<rparr>))"

end
