(* ===== verification/Pbkdf2.thy ===== *)
theory Pbkdf2
  imports Sha1 Sys_World
begin

text \<open>
  The derivation of a key from a passphrase (\<open>sbin/bioctl/pbkdf2.c\<close>, which the program is linked
  with): \<open>hmac_sha1\<close> and \<open>pkcs5_pbkdf2\<close>. Both keep a SHA-1 context on the stack, which is an
  argument here: what it holds before \<open>SHA1Init\<close> is indeterminate.
\<close>

definition xor_bytes :: "byte list \<Rightarrow> byte list \<Rightarrow> byte list" where
  "xor_bytes a b = map2 (XOR) a b"

text \<open>\<open>k_pad\<close>: the key, filled with zeros to a block, with every byte exclusive-ored.\<close>

definition hmac_pad :: "byte list \<Rightarrow> byte \<Rightarrow> byte list" where
  "hmac_pad key b = map (\<lambda>x. x XOR b) (memput (replicate SHA1_BLOCK_LENGTH 0) 0 key)"

definition hmac_sha1 :: "SHA1_CTX \<Rightarrow> byte list \<Rightarrow> byte list \<Rightarrow> byte list" where
  "hmac_sha1 ctx txt key0 =
     (let (key, ctx0) =
            (if length key0 > SHA1_BLOCK_LENGTH then SHA1Final (SHA1Update key0 (SHA1Init ctx)) else (key0, ctx));
          (digest, ctx1) = SHA1Final (SHA1Update txt (SHA1Update (hmac_pad key 0x36) (SHA1Init ctx0)))
      in fst (SHA1Final (SHA1Update digest (SHA1Update (hmac_pad key 0x5c) (SHA1Init ctx1)))))"

text \<open>The rounds after the first (\<open>for (i = 1; i < rounds; i++)\<close>), with \<open>d1\<close> and \<open>obuf\<close>.\<close>

primrec pbkdf2_rounds :: "SHA1_CTX \<Rightarrow> byte list \<Rightarrow> nat \<Rightarrow> byte list \<Rightarrow> byte list \<Rightarrow> byte list" where
  "pbkdf2_rounds ctx pass 0 d1 obuf = obuf"
| "pbkdf2_rounds ctx pass (Suc n) d1 obuf =
     (let d2 = hmac_sha1 ctx d1 pass in pbkdf2_rounds ctx pass n d2 (xor_bytes obuf d2))"

text \<open>The four bytes of \<open>count\<close> behind the salt.\<close>

definition count_bytes :: "u32 \<Rightarrow> byte list" where
  "count_bytes count =
     [ucast (drop_bit 24 count AND 0xff), ucast (drop_bit 16 count AND 0xff), ucast (drop_bit 8 count AND 0xff), ucast (count AND 0xff)]"

text \<open>The loop over the blocks of the key; the result is what it writes to \<open>key\<close>.\<close>

function pbkdf2_loop :: "SHA1_CTX \<Rightarrow> byte list \<Rightarrow> nat \<Rightarrow> u32 \<Rightarrow> byte list \<Rightarrow> nat \<Rightarrow> u32 \<Rightarrow> byte list" where
  "pbkdf2_loop ctx pass salt_len rounds asalt key_len count =
     (if key_len > 0 then
        let asalt1 = memput asalt salt_len (count_bytes count);
            d1 = hmac_sha1 ctx asalt1 pass;
            obuf = pbkdf2_rounds ctx pass (unat rounds - 1) d1 d1;
            r = min key_len SHA1_DIGEST_LENGTH
        in take r obuf @ pbkdf2_loop ctx pass salt_len rounds asalt1 (key_len - r) (count + 1)
      else [])"
  by pat_completeness auto
termination
  by (relation "measure (\<lambda>(ctx, pass, salt_len, rounds, asalt, key_len, count). key_len)")
    (auto simp: SHA1_DIGEST_LENGTH_def)

declare pbkdf2_loop.simps [simp del]

definition SIZE_MAX :: nat where "SIZE_MAX = 2 ^ 64 - 1"

text \<open>
  \<open>pkcs5_pbkdf2\<close> with the key it returns, \<open>None\<close> for -1. The check of the salt's length leaves
  three sizes for which the size of the allocation wraps around and the copy goes beyond it.
\<close>

definition pkcs5_pbkdf2 :: "kernel \<Rightarrow> byte list \<Rightarrow> byte list \<Rightarrow> nat \<Rightarrow> u32 \<Rightarrow> world \<Rightarrow> byte list option outcome" where
  "pkcs5_pbkdf2 K pass salt key_len rounds w =
     (let salt_len = length salt in
      if rounds < 1 \<or> key_len = 0 then Ok None w
      else if salt_len = 0 \<or> salt_len > SIZE_MAX - 1 then Ok None w
      else case malloc K (szadd salt_len 4) w of
        (None, w1) \<Rightarrow> Ok None w1
      | (Some asalt, w1) \<Rightarrow>
          if length asalt < salt_len then Undef ''pkcs5_pbkdf2: copy beyond the allocated salt'' w1
          else
            let ctx = \<lparr>sh_state = [], sh_count = 0, sh_buffer = junk K SHA1_BLOCK_LENGTH w1\<rparr>
            in Ok (Some (pbkdf2_loop ctx pass salt_len rounds (memput asalt 0 salt) key_len 1)) w1)"

end
