(* ===== verification/Ifc_Wireless.thy ===== *)
theory Ifc_Wireless
  imports Ifc_Base Pbkdf2
begin

text \<open>
  The wireless setters of \<open>ifcutil.c\<close>: the string parser \<open>get_string\<close> and its printer, network
  id, BSSID, WEP keys, the WPA parameters, channel, transmit power, flags and power saving. The
  lemmas bound what \<open>get_string\<close> stores, relate it to the printer, and characterise the keys
  that \<open>setifwpakey\<close> hands to the kernel.
\<close>

section \<open>Strings and keys\<close>

definition char_byte :: "char \<Rightarrow> byte" where
  "char_byte c = of_nat (ord c)"

definition byte_char :: "byte \<Rightarrow> char" where
  "byte_char b = char_of (unat b)"

definition tohex :: "char \<Rightarrow> byte" where
  "tohex c = (if isdigit c then of_nat (ord c - 48) else of_nat (ord (tolower c) - 97 + 10))"

text \<open>
  The loop of \<open>get_string\<close> over a buffer of \<open>len\<close> bytes, with the bytes stored so far. The check
  \<open>p > buf + len\<close> lets \<open>p = buf + len\<close> pass; the store there is outside the buffer. With a
  separator, \<open>strchr\<close> also finds the terminating NUL, so a backslash at the end of the string
  makes the loop go on behind the string.
\<close>

fun get_string_loop ::
  "bool \<Rightarrow> string option \<Rightarrow> nat \<Rightarrow> byte list \<Rightarrow> string \<Rightarrow> world \<Rightarrow> (string \<times> byte list) option outcome" where
  "get_string_loop hexstr sep len p [] w = Ok (Some ([], p)) w"
| "get_string_loop hexstr sep len p (c # val) w =
     (if (case sep of None \<Rightarrow> False | Some cs \<Rightarrow> c \<in> set cs) then Ok (Some (val, p)) w
      else if hexstr then
        (case val of
           [] \<Rightarrow> Ok None (warnx ''bad hexadecimal digits'' [] w)
         | d # val' \<Rightarrow>
             if \<not> isxdigit c \<or> \<not> isxdigit d then Ok None (warnx ''bad hexadecimal digits'' [] w)
             else if length p > len then Ok None (warnx ''hexadecimal digits too long'' [] w)
             else if length p = len then Undef ''get_string: store behind the buffer'' w
             else get_string_loop hexstr sep len (p @ [push_bit 4 (tohex c) OR tohex d]) val' w)
      else if length p > len then Ok None (warnx ''strings too long'' [] w)
      else if length p = len then Undef ''get_string: store behind the buffer'' w
      else if c = CHR 0x5C \<and> sep \<noteq> None then
        (case val of
           [] \<Rightarrow> Undef ''get_string: read behind the string'' w
         | d # val' \<Rightarrow>
             if d \<in> set (the sep) then get_string_loop hexstr sep len (p @ [char_byte d]) val' w
             else get_string_loop hexstr sep len (p @ [char_byte c]) val w)
      else get_string_loop hexstr sep len (p @ [char_byte c]) val w)"

definition is_hexstr :: "string \<Rightarrow> bool" where
  "is_hexstr val \<longleftrightarrow> length val \<ge> 2 \<and> val ! 0 = CHR ''0'' \<and> tolower (val ! 1) = CHR ''x''"

text \<open>The rest of the string and the bytes; the remainder of the buffer is cleared.\<close>

definition get_string ::
  "string \<Rightarrow> string option \<Rightarrow> nat \<Rightarrow> world \<Rightarrow> (string \<times> byte list) option outcome" where
  "get_string val sep len w =
     get_string_loop (is_hexstr val) sep len [] (if is_hexstr val then drop 2 val else val) w"

definition pad :: "nat \<Rightarrow> byte list \<Rightarrow> byte list" where
  "pad n b = b @ replicate (n - length b) 0"

text \<open>\<open>print_string\<close>: what it prints.\<close>

definition plain :: "byte list \<Rightarrow> bool" where
  "plain b \<longleftrightarrow> \<not> is_hexstr (map byte_char b) \<and> list_all (\<lambda>x. isprint (byte_char x)) b"

definition print_string :: "byte list \<Rightarrow> string" where
  "print_string b =
     (if plain b \<or> b = [] then
        (if list_ex (\<lambda>x. isspace (byte_char x)) b \<or> b = []
         then [CHR 0x22] @ map byte_char b @ [CHR 0x22] else map byte_char b)
      else ''0x'' @ concat (map hex2 b))"

section \<open>Network id, BSSID and WEP keys\<close>

definition IEEE80211_NWID_LEN :: nat where "IEEE80211_NWID_LEN = 32"

definition setifnwid :: "kernel \<Rightarrow> string \<Rightarrow> int \<Rightarrow> ifc \<Rightarrow> world \<Rightarrow> ifc outcome" where
  "setifnwid K val d g w =
     andthen (if d \<noteq> 0 then Ok (Some ([], [])) w else get_string val None IEEE80211_NWID_LEN w) (\<lambda>r w1.
       case r of
         None \<Rightarrow> Ok g w1
       | Some (_, b) \<Rightarrow>
           let g1 = set_ifr_name g in
           ioctl_warn K g1 SIOCS80211NWID (ifr_name g1)
             (IoNwid (of_nat (length b)) (pad IEEE80211_NWID_LEN b)) ''SIOCS80211NWID'' w1)"

definition setifbssid :: "kernel \<Rightarrow> string \<Rightarrow> int \<Rightarrow> ifc \<Rightarrow> world \<Rightarrow> ifc outcome" where
  "setifbssid K val d g w =
     (case (if d \<noteq> 0 then Some (replicate 6 0) else ether_aton val) of
        None \<Rightarrow> Ok g (warnx ''malformed BSSID: %s'' [AS val] w)
      | Some b \<Rightarrow> ioctl_warn K g SIOCS80211BSSID (name_of g) (IoBytes b) ''SIOCS80211BSSID'' w)"

definition IEEE80211_WEP_NKID :: nat where "IEEE80211_WEP_NKID = 4"
definition NWKEY_WEP :: int where "NWKEY_WEP = 1"
definition NWKEY_PERSIST :: int where "NWKEY_PERSIST = 256"

text \<open>The full set of keys, separated by commas, 16 bytes of buffer for each.\<close>

fun nwkey_set ::
  "nat \<Rightarrow> string \<Rightarrow> world \<Rightarrow> (string \<times> (int \<times> byte list) list) option outcome" where
  "nwkey_set 0 val w = Ok (Some (val, [])) w"
| "nwkey_set (Suc n) val w =
     andthen (get_string val (Some '','') 16 w) (\<lambda>r w1.
       case r of
         None \<Rightarrow> Ok None w1
       | Some (val1, b) \<Rightarrow>
           andthen (nwkey_set n val1 w1) (\<lambda>r2 w2.
             Ok (map_option (\<lambda>(v, ks). (v, (int (length b), pad 16 b) # ks)) r2) w2))"

definition nwkey_send :: "kernel \<Rightarrow> ieee80211_nwkey \<Rightarrow> ifc \<Rightarrow> world \<Rightarrow> ifc outcome" where
  "nwkey_send K nwkey g w =
     ioctl_warn K g SIOCS80211NWKEY (name_of g) (IoNwkey nwkey) ''SIOCS80211NWKEY'' w"

definition setifnwkey :: "kernel \<Rightarrow> string \<Rightarrow> int \<Rightarrow> ifc \<Rightarrow> world \<Rightarrow> ifc outcome" where
  "setifnwkey K val d g w =
     (let nokeys = replicate IEEE80211_WEP_NKID (0, []) in
      if d = - 1 then nwkey_send K \<lparr>i_wepon = 0, i_defkid = 1, i_key = nokeys\<rparr> g w
      else if strcasecmp ''persist'' val then
        nwkey_send K \<lparr>i_wepon = or NWKEY_WEP NWKEY_PERSIST, i_defkid = 0,
          i_key = replicate IEEE80211_WEP_NKID (- 1, [])\<rparr> g w
      else
        let persist = strncasecmp ''persist:'' val 8;
            val1 = (if persist then drop 8 val else val);
            wepon = (if persist then or NWKEY_WEP NWKEY_PERSIST else NWKEY_WEP)
        in if length val1 \<ge> 2 \<and> isdigit (val1 ! 0) \<and> val1 ! 1 = CHR '':'' then
             andthen (nwkey_set IEEE80211_WEP_NKID (drop 2 val1) w) (\<lambda>r w1.
               case r of
                 None \<Rightarrow> Ok g w1
               | Some (rest, ks) \<Rightarrow>
                   if rest \<noteq> [] then Ok g (warnx ''SIOCS80211NWKEY: too many keys.'' [] w1)
                   else nwkey_send K \<lparr>i_wepon = wepon, i_defkid = int (ord (val1 ! 0)) - 48, i_key = ks\<rparr> g w1)
           else
             andthen (get_string val1 None 16 w) (\<lambda>r w1.
               case r of
                 None \<Rightarrow> Ok g w1
               | Some (_, b) \<Rightarrow>
                   nwkey_send K \<lparr>i_wepon = wepon, i_defkid = 1,
                     i_key = nokeys[0 := (int (length b), pad 16 b)]\<rparr> g w1))"

section \<open>WPA\<close>

text \<open>Reading the parameters of the interface, changing them, writing them back.\<close>

definition wpa_update ::
  "kernel \<Rightarrow> (ieee80211_wpaparams \<Rightarrow> ieee80211_wpaparams) \<Rightarrow> ifc \<Rightarrow> world \<Rightarrow> ifc outcome" where
  "wpa_update K f g w =
     andthen (ioctl_err K g SIOCG80211WPAPARMS (name_of g) (IoWpa wpa_zero) ''SIOCG80211WPAPARMS'' w) (\<lambda>r w1.
       andthen (ioctl_err K g SIOCS80211WPAPARMS (name_of g) (IoWpa (f (io_wpa r))) ''SIOCS80211WPAPARMS'' w1)
         (\<lambda>_. Ok g))"

definition setifwpa :: "kernel \<Rightarrow> string \<Rightarrow> int \<Rightarrow> ifc \<Rightarrow> world \<Rightarrow> ifc outcome" where
  "setifwpa K val d g w = wpa_update K (\<lambda>p. p\<lparr>wpa_enabled := d\<rparr>) g w"

definition strdup :: "kernel \<Rightarrow> string \<Rightarrow> world \<Rightarrow> unit outcome" where
  "strdup K val w =
     (case alloc K (length val + 1) w of (ok, w1) \<Rightarrow> if ok then Ok () w1 else err K ''strdup'' [] w1)"

text \<open>The loop over a comma separated list of names; an unknown name (0) is an error.\<close>

fun or_names :: "(string \<Rightarrow> u32) \<Rightarrow> string \<Rightarrow> string list \<Rightarrow> u32 \<Rightarrow> world \<Rightarrow> u32 outcome" where
  "or_names look fmt [] rval w = Ok rval w"
| "or_names look fmt (str # ts) rval w =
     (if look str = 0 then errx fmt [AS str] w else or_names look fmt ts (rval OR look str) w)"

definition wpa_proto :: "string \<Rightarrow> u32" where
  "wpa_proto str = (if strcasecmp str ''wpa1'' then 1 else if strcasecmp str ''wpa2'' then 2 else 0)"

definition setifwpaprotos :: "kernel \<Rightarrow> string \<Rightarrow> int \<Rightarrow> ifc \<Rightarrow> world \<Rightarrow> ifc outcome" where
  "setifwpaprotos K val d g w =
     andthen (strdup K val w) (\<lambda>_ w1.
       andthen (or_names wpa_proto ''wpaprotos: unknown protocol: %s'' (strtok_all (CHR '','') (Some val)) 0 w1)
         (\<lambda>rval. wpa_update K (\<lambda>p. p\<lparr>wpa_protos := rval\<rparr>) g))"

definition wpa_akm :: "string \<Rightarrow> u32" where
  "wpa_akm str = (if strcasecmp str ''psk'' then 1 else if strcasecmp str ''802.1x'' then 2 else 0)"

definition setifwpaakms :: "kernel \<Rightarrow> string \<Rightarrow> int \<Rightarrow> ifc \<Rightarrow> world \<Rightarrow> ifc outcome" where
  "setifwpaakms K val d g w =
     andthen (strdup K val w) (\<lambda>_ w1.
       andthen (or_names wpa_akm ''wpaakms: unknown akm: %s'' (strtok_all (CHR '','') (Some val)) 0 w1)
         (\<lambda>rval. wpa_update K (\<lambda>p. p\<lparr>wpa_akms := rval\<rparr>) g))"

definition ciphers :: "(string \<times> u32) list" where
  "ciphers = [(''usegroup'', 0x01), (''wep40'', 0x02), (''tkip'', 0x04), (''ccmp'', 0x08), (''wep104'', 0x10)]"

definition getwpacipher :: "string \<Rightarrow> u32" where
  "getwpacipher name =
     (case find (\<lambda>(n, c). strcasecmp name n) ciphers of Some (n, c) \<Rightarrow> c | None \<Rightarrow> 0)"

definition setifwpaciphers :: "kernel \<Rightarrow> string \<Rightarrow> int \<Rightarrow> ifc \<Rightarrow> world \<Rightarrow> ifc outcome" where
  "setifwpaciphers K val d g w =
     andthen (strdup K val w) (\<lambda>_ w1.
       andthen (or_names getwpacipher ''wpaciphers: unknown cipher: %s'' (strtok_all (CHR '','') (Some val)) 0 w1)
         (\<lambda>rval. wpa_update K (\<lambda>p. p\<lparr>wpa_ciphers := rval\<rparr>) g))"

definition setifwpagroupcipher :: "kernel \<Rightarrow> string \<Rightarrow> int \<Rightarrow> ifc \<Rightarrow> world \<Rightarrow> ifc outcome" where
  "setifwpagroupcipher K val d g w =
     (if getwpacipher val = 0 then errx ''wpagroupcipher: unknown cipher: %s'' [AS val] w
      else wpa_update K (\<lambda>p. p\<lparr>wpa_groupcipher := getwpacipher val\<rparr>) g w)"

text \<open>\<open>print_cipherset\<close>: the names of the set bits.\<close>

fun join :: "string \<Rightarrow> string list \<Rightarrow> string" where
  "join sep [] = []"
| "join sep [x] = x"
| "join sep (x # y # xs) = x @ sep @ join sep (y # xs)"

definition print_cipherset :: "u32 \<Rightarrow> string" where
  "print_cipherset cs =
     (if cs = 0 then ''none''
      else join '','' (map fst (filter (\<lambda>(n, c). cs AND c \<noteq> 0) ciphers)))"

definition PSK_LEN :: nat where "PSK_LEN = 32"

text \<open>The pre-shared key of \<open>setifwpakey\<close>: a full-length hexadecimal key, or a passphrase.\<close>

definition wpakey_psk :: "kernel \<Rightarrow> string \<Rightarrow> byte \<Rightarrow> byte list \<Rightarrow> world \<Rightarrow> byte list outcome" where
  "wpakey_psk K val nwid_len nwid w =
     (if length val = 2 + 2 * PSK_LEN \<and> val ! 0 = CHR ''0'' \<and> val ! 1 = CHR ''x'' then
        andthen (get_string val None PSK_LEN w) (\<lambda>r w1.
          case r of
            None \<Rightarrow> errx ''wpakey: invalid pre-shared key'' [] w1
          | Some (_, b) \<Rightarrow>
              if length b \<noteq> PSK_LEN then errx ''wpakey: invalid pre-shared key'' [] w1 else Ok b w1)
      else if length val < 8 \<or> length val > 63 then
        errx ''wpakey: passphrase must be between 8 and 63 characters'' [] w
      else if nwid_len = 0 then errx ''wpakey: nwid not set'' [] w
      else
        andthen (pkcs5_pbkdf2 K (map char_byte val) (take (unat nwid_len) nwid) PSK_LEN 4096 w) (\<lambda>r w1.
          case r of
            None \<Rightarrow> errx ''wpakey: passphrase hashing failed'' [] w1
          | Some k \<Rightarrow> Ok k w1))"

definition setifwpakey :: "kernel \<Rightarrow> string \<Rightarrow> int \<Rightarrow> ifc \<Rightarrow> world \<Rightarrow> ifc outcome" where
  "setifwpakey K val d g w =
     andthen
       (if d \<noteq> - 1 then
          let g1 = set_ifr_name g in
          andthen (ioctl_err K g1 SIOCG80211NWID (ifr_name g1) IoNone ''SIOCG80211NWID'' w) (\<lambda>r w1.
            andthen (wpakey_psk K val (fst (io_nwid r)) (snd (io_nwid r)) w1) (\<lambda>k. Ok (g1, 1, k)))
        else Ok (g, 0, replicate PSK_LEN 0) w)
       (\<lambda>(g1, enabled, psk) w1.
          andthen (ioctl_err K g1 SIOCS80211WPAPSK (name_of g1) (IoPsk enabled psk) ''SIOCS80211WPAPSK'' w1)
            (\<lambda>_. wpa_update K (\<lambda>p. p\<lparr>wpa_enabled := enabled\<rparr>) g1))"

section \<open>Channel, scan, power, flags\<close>

definition IEEE80211_CHAN_ANY :: int where "IEEE80211_CHAN_ANY = 0xffff"

definition setifchan :: "kernel \<Rightarrow> string option \<Rightarrow> int \<Rightarrow> ifc \<Rightarrow> world \<Rightarrow> ifc outcome" where
  "setifchan K val d g w =
     (case val of
        None \<Rightarrow>
          if shownet80211chans g \<noteq> 0 \<or> shownet80211nodes g \<noteq> 0 then usage w
          else Ok (g\<lparr>shownet80211chans := 1\<rparr>) w
      | Some v \<Rightarrow>
          let send = (\<lambda>chan. ioctl_warn K g SIOCS80211CHANNEL (name_of g)
                        (IoInt (chan mod 65536)) ''SIOCS80211CHANNEL'')
          in if d \<noteq> 0 then send IEEE80211_CHAN_ANY w
             else (case strtonum v 1 256 w of
               (n, None, w1) \<Rightarrow> send n w1
             | (n, Some e, w1) \<Rightarrow> Ok g (warnx ''invalid channel %s: %s'' [AS v, AS e] w1)))"

definition setifscan :: "string \<Rightarrow> int \<Rightarrow> ifc \<Rightarrow> world \<Rightarrow> ifc outcome" where
  "setifscan val d g w =
     (if shownet80211chans g \<noteq> 0 \<or> shownet80211nodes g \<noteq> 0 then usage w
      else Ok (g\<lparr>shownet80211nodes := 1\<rparr>) w)"

definition setiftxpower :: "kernel \<Rightarrow> string \<Rightarrow> int \<Rightarrow> ifc \<Rightarrow> world \<Rightarrow> ifc outcome" where
  "setiftxpower K val d g w =
     (let send = (\<lambda>m v. ioctl_warn K g SIOCS80211TXPOWER (name_of g) (IoTxpower m v) ''SIOCS80211TXPOWER'')
      in if d = 1 then send 1 None w
         else andthen (num_arg val (- 32768) 32767 ''txpower %sdBm: %s'' w) (\<lambda>n. send 0 (Some n)))"

definition nwflags :: "(string \<times> u16) list" where
  "nwflags = [(''hidenwid'', 1), (''nobridge'', 2)]"

definition setifnwflag :: "kernel \<Rightarrow> string \<Rightarrow> int \<Rightarrow> ifc \<Rightarrow> world \<Rightarrow> ifc outcome" where
  "setifnwflag K val d g w =
     (case map_of nwflags val of
        None \<Rightarrow> errx ''Invalid nwflag: %s'' [AS val] w
      | Some flag \<Rightarrow>
          andthen (ioctl_err K g SIOCG80211FLAGS (ifr_name g) IoNone ''SIOCG80211FLAGS'' w) (\<lambda>r w1.
            let f = (if d \<noteq> 0 then io_flags r AND NOT flag else io_flags r OR flag) in
            andthen (ioctl_err K g SIOCS80211FLAGS (ifr_name g) (IoFlags f) ''SIOCS80211FLAGS'' w1) (\<lambda>_. Ok g)))"

definition unsetifnwflag :: "kernel \<Rightarrow> string \<Rightarrow> int \<Rightarrow> ifc \<Rightarrow> world \<Rightarrow> ifc outcome" where
  "unsetifnwflag K val d g w = setifnwflag K val 1 g w"

definition setifpowersave :: "kernel \<Rightarrow> string option \<Rightarrow> int \<Rightarrow> ifc \<Rightarrow> world \<Rightarrow> ifc outcome" where
  "setifpowersave K val d g w =
     (case ioctl K (sock g) SIOCG80211POWER (name_of g) IoNone w of
        (None, w1) \<Rightarrow> Ok g (warn K ''SIOCG80211POWER'' [] w1)
      | (Some r, w1) \<Rightarrow>
          andthen (case val of
              Some v \<Rightarrow> if d \<noteq> - 1 then num_arg v 0 INT_MAX ''powersave %s: %s'' w1 else Ok (snd (io_power r)) w1
            | None \<Rightarrow> Ok (snd (io_power r)) w1)
            (\<lambda>ms. ioctl_warn K g SIOCS80211POWER (name_of g)
               (IoPower (if d = - 1 then 0 else 1) ms) ''SIOCS80211POWER''))"

section \<open>Lemmas on the string parser\<close>

lemma get_string_loop_bound:
  assumes "get_string_loop h sep len p val w = Ok (Some (r, b)) w'" "length p \<le> len"
  shows "length b \<le> len \<and> w' = w"
  using assms
proof (induction h sep len p val w rule: get_string_loop.induct)
  case (2 h sep len p c val w)
  show ?case
    by (rule 2(5)[THEN rev_mp, unfolded get_string_loop.simps])
       (use 2(1-4,6) in \<open>auto split: if_splits list.splits option.splits\<close>)
qed auto

text \<open>Without separator and prefix the string is stored as it is, or the buffer overflows.\<close>

lemma get_string_loop_plain:
  "length p \<le> len \<Longrightarrow> get_string_loop False None len p val w =
     (if length p + length val \<le> len then Ok (Some ([], p @ map char_byte val)) w
      else Undef ''get_string: store behind the buffer'' w)"
  by (induction val arbitrary: p) auto

text \<open>The bytes a string of hexadecimal digits denotes.\<close>

fun unhex :: "string \<Rightarrow> byte list" where
  "unhex (c # d # s) = (push_bit 4 (tohex c) OR tohex d) # unhex s"
| "unhex _ = []"

lemma length_unhex: "length (unhex s) = length s div 2"
  by (induction s rule: unhex.induct) auto

lemma get_string_loop_hex:
  assumes "length p \<le> len" "even (length ds)" "list_all isxdigit ds"
  shows "get_string_loop True None len p ds w =
     (if length p + length ds div 2 \<le> len then Ok (Some ([], p @ unhex ds)) w
      else Undef ''get_string: store behind the buffer'' w)"
  using assms
proof (induction ds arbitrary: p rule: unhex.induct)
  case (1 c d s)
  show ?case
  proof (cases "length p = len")
    case True
    with 1(4) show ?thesis by simp
  next
    case False
    with 1(2-4) 1(1)[of "p @ [push_bit 4 (tohex c) OR tohex d]"] show ?thesis by auto
  qed
qed auto

lemma unat_byte: "unat (b :: byte) < 256"
proof -
  have "unat b < 2 ^ LENGTH(8)" by (rule unsigned_less)
  then show ?thesis by simp
qed

lemma char_byte_char [simp]: "char_byte (byte_char b) = b" "byte_char (char_byte c) = c"
proof -
  have "unat b < 256" by (rule unat_byte)
  then show "char_byte (byte_char b) = b"
    by (simp add: char_byte_def byte_char_def of_char_of take_bit_nat_eq_self)
  have "ord c < 256" by simp
  then show "byte_char (char_byte c) = c"
    by (simp add: char_byte_def byte_char_def unat_of_nat take_bit_nat_eq_self)
qed

lemma hex_digit_props: "n < 16 \<Longrightarrow> isxdigit (hex_digit n) \<and> tohex (hex_digit n) = of_nat n"
proof -
  assume n: "n < 16"
  then have o: "ord (hex_digit n) = (if n < 10 then 48 + n else 87 + n)"
    by (simp add: hex_digit_def of_char_of take_bit_nat_eq_self)
  then have "tolower (hex_digit n) = hex_digit n" using n by (auto simp: tolower_def isupper_def)
  with o n show ?thesis by (auto simp: isxdigit_def tohex_def isdigit_def)
qed

lemma nibbles: "push_bit 4 (of_nat (unat b div 16)) OR of_nat (unat b mod 16) = (b :: byte)"
proof -
  have "unat b div 16 < 256" using unat_byte[of b] by simp
  then have "unat (of_nat (unat b div 16) :: byte) = unat (drop_bit 4 b)"
    by (simp add: unat_of_nat take_bit_nat_eq_self) (simp add: unat_drop_bit_eq drop_bit_eq_div[where ?'a = nat])
  then have a: "of_nat (unat b div 16) = drop_bit 4 b" by (simp only: word_unat_eq_iff)
  have "unat (of_nat (unat b mod 16) :: byte) = unat (take_bit 4 b)"
    by (simp add: take_bit_eq_mod unat_of_nat unat_mod mod_less_divisor[THEN order_less_trans])
  then have m: "of_nat (unat b mod 16) = take_bit 4 b" by (simp only: word_unat_eq_iff)
  show ?thesis unfolding a m by (rule bit_word_eqI) (auto simp: bit_simps)
qed

lemma unhex_hex2: "unhex (concat (map hex2 b)) = b \<and> even (length (concat (map hex2 b))) \<and>
   list_all isxdigit (concat (map hex2 b)) \<and> length (concat (map hex2 b)) = 2 * length b"
proof (induction b)
  case (Cons x b)
  have "unat x < 256" by (rule unat_byte)
  then have "unat x div 16 < 16" "unat x mod 16 < 16" by auto
  with Cons hex_digit_props[of "unat x div 16"] hex_digit_props[of "unat x mod 16"] show ?case
    by (simp add: hex2_def nibbles)
qed simp

lemma print_get_string:
  assumes "length b \<le> len" "b \<noteq> []" "\<not> (plain b \<and> list_ex (\<lambda>x. isspace (byte_char x)) b)"
  shows "get_string (print_string b) None len w = Ok (Some ([], b)) w"
proof (cases "plain b")
  case True
  have "map char_byte (map byte_char b) = b" by (simp add: comp_def)
  with True assms show ?thesis
    by (simp add: print_string_def get_string_def plain_def get_string_loop_plain)
next
  case False
  have "is_hexstr (''0x'' @ t)" for t by (simp add: is_hexstr_def tolower_def isupper_def)
  with False assms unhex_hex2[of b] show ?thesis
    by (simp add: print_string_def get_string_def get_string_loop_hex)
qed

lemma get_string_bound:
  "get_string val sep len w = Ok (Some (r, b)) w' \<Longrightarrow> length b \<le> len \<and> w' = w"
  unfolding get_string_def by (rule get_string_loop_bound) auto

section \<open>Lemmas on WPA keys\<close>

lemma wpa_update_Ok:
  assumes "wpa_update K f g w = Ok g' w'"
  shows "g' = g \<and> (\<exists>p. trace w' = EvIoctl (sock g) SIOCS80211WPAPARMS (name_of g) (IoWpa (f p)) #
      EvIoctl (sock g) SIOCG80211WPAPARMS (name_of g) (IoWpa wpa_zero) # trace w)"
  using assms
  by (auto simp: wpa_update_def andthen_Ok_iff ioctl_err_Ok dest!: ioctl_cases)

lemma get_string_loop_unhex:
  "get_string_loop True None len p ds w = Ok (Some (r, b)) w' \<Longrightarrow> b = p @ unhex ds \<and> list_all isxdigit ds \<and> w' = w"
proof (induction ds arbitrary: p rule: unhex.induct)
  case (1 c d s)
  from 1(2) have "get_string_loop True None len (p @ [push_bit 4 (tohex c) OR tohex d]) s w = Ok (Some (r, b)) w'"
    "isxdigit c" "isxdigit d"
    by (simp_all split: if_splits)
  from 1(1)[OF this(1)] this(2,3) show ?case by simp
qed simp_all

lemma wpakey_psk_Ok:
  assumes "wpakey_psk K val n nwid w = Ok k w'"
  shows "length val = 66 \<and> list_all isxdigit (drop 2 val) \<and> k = unhex (drop 2 val) \<and> length k = PSK_LEN \<and> w' = w \<or>
     8 \<le> length val \<and> length val \<le> 63 \<and> n \<noteq> 0 \<and>
       pkcs5_pbkdf2 K (map char_byte val) (take (unat n) nwid) PSK_LEN 4096 w = Ok (Some k) w'"
proof (cases "length val = 2 + 2 * PSK_LEN \<and> val ! 0 = CHR ''0'' \<and> val ! 1 = CHR ''x''")
  case True
  then have "is_hexstr val" by (simp add: is_hexstr_def tolower_def isupper_def PSK_LEN_def)
  with True assms show ?thesis
    by (auto simp: wpakey_psk_def andthen_Ok_iff errx_def PSK_LEN_def get_string_def dest!: get_string_loop_unhex
        split: if_splits option.splits)
next
  case False
  with assms show ?thesis
    by (auto simp: wpakey_psk_def andthen_Ok_iff errx_def split: if_splits option.splits)
qed

end
