(* ===== verification/Ifc_Pseudo.thy ===== *)
theory Ifc_Pseudo
  imports Ifc_Wireless
begin

text \<open>
  The setters of \<open>ifcutil.c\<close> for tunnels and pseudo devices: MPLS labels, vlan, carp, pfsync,
  pflow, pppoe, sppp and trunk interfaces. Most of them read the current parameters, change a
  field and write them back. The lemmas show that such a setter changes the field it is meant
  to change and nothing else, and which values pass its checks.
\<close>

section \<open>Tunnels and labels\<close>

definition resolve :: "netdb \<Rightarrow> int \<Rightarrow> string \<Rightarrow> string option \<Rightarrow> world \<Rightarrow> (int \<times> u32 \<times> u16 \<times> byte list) outcome" where
  "resolve N family host port w =
     (case nd_gai N family host port of
        Inl e \<Rightarrow> errx ''error in parsing address string: %s'' [AS e] w
      | Inr a \<Rightarrow> Ok a w)"

definition sizeof_sockaddr_storage :: nat where "sizeof_sockaddr_storage = 256"

definition settunnel :: "kernel \<Rightarrow> netdb \<Rightarrow> string \<Rightarrow> string \<Rightarrow> ifc \<Rightarrow> world \<Rightarrow> ifc outcome" where
  "settunnel K N src dst g w =
     andthen (resolve N (af_af (afp g)) src None w) (\<lambda>(f1, _, _, a1) w1.
       andthen (resolve N (af_af (afp g)) dst None w1) (\<lambda>(f2, _, _, a2) w2.
         if f1 \<noteq> f2 then errx ''source and destination address families do not match'' [] w2
         else if length a1 > sizeof_sockaddr_storage \<or> length a2 > sizeof_sockaddr_storage then
           errx ''invalid sockaddr'' [] w2
         else ioctl_warn K g SIOCSLIFPHYADDR (name_of g) (IoTunnel a1 a2) ''SIOCSLIFPHYADDR'' w2))"

definition deletetunnel :: "kernel \<Rightarrow> string \<Rightarrow> int \<Rightarrow> ifc \<Rightarrow> world \<Rightarrow> ifc outcome" where
  "deletetunnel K val d g w = ioctl_warn K g SIOCDIFPHYADDR (ifr_name g) IoNone ''SIOCDIFPHYADDR'' w"

definition settunnelinst :: "kernel \<Rightarrow> string \<Rightarrow> int \<Rightarrow> ifc \<Rightarrow> world \<Rightarrow> ifc outcome" where
  "settunnelinst K val d g w =
     andthen (num_arg val 0 RT_TABLEID_MAX ''rdomain %s: %s'' w) (\<lambda>n.
       let g1 = set_ifr_name g in
       ioctl_warn K g1 SIOCSLIFPHYRTABLE (ifr_name g1) (IoInt n) ''SIOCSLIFPHYRTABLE'')"

definition MPLS_LABEL_MAX :: int where "MPLS_LABEL_MAX = 2 ^ 20 - 1"

definition setmpelabel :: "kernel \<Rightarrow> string \<Rightarrow> int \<Rightarrow> ifc \<Rightarrow> world \<Rightarrow> ifc outcome" where
  "setmpelabel K val d g w =
     andthen (num_arg val 0 MPLS_LABEL_MAX ''mpls label %s is %s'' w) (\<lambda>n.
       ioctl_warn K g SIOCSETLABEL (ifr_name g) (IoInt n) ''SIOCSETLABEL'')"

section \<open>Read, change, write\<close>

text \<open>
  The shape the device setters share: query with \<open>get\<close>, and \<open>set\<close> with the changed structure;
  either failing is fatal.
\<close>

definition ioctl_update ::
  "kernel \<Rightarrow> iocmd \<Rightarrow> iocmd \<Rightarrow> string \<Rightarrow> string \<Rightarrow> (ioarg \<Rightarrow> ioarg) \<Rightarrow> ifc \<Rightarrow> world \<Rightarrow> ifc outcome" where
  "ioctl_update K get1 set1 gmsg smsg f g w =
     andthen (ioctl_err K g get1 (ifr_name g) IoNone gmsg w) (\<lambda>r w1.
       andthen (ioctl_err K g set1 (ifr_name g) (f r) smsg w1) (\<lambda>_. Ok g))"

section \<open>vlan\<close>

definition vlan_update :: "kernel \<Rightarrow> (vlanreq \<Rightarrow> vlanreq) \<Rightarrow> ifc \<Rightarrow> world \<Rightarrow> ifc outcome" where
  "vlan_update K f g w =
     ioctl_update K SIOCGETVLAN SIOCSETVLAN ''SIOCGETVLAN'' ''SIOCSETVLAN'' (\<lambda>r. IoVlan (f (io_vlan r))) g w"

definition setvlantag :: "kernel \<Rightarrow> string \<Rightarrow> int \<Rightarrow> ifc \<Rightarrow> world \<Rightarrow> ifc outcome" where
  "setvlantag K val d g w =
     andthen (num_arg val 0 4095 ''vlan tag %s: %s'' w) (\<lambda>n.
       vlan_update K (\<lambda>v. v\<lparr>vlr_tag := word_of_int n\<rparr>) (g\<lparr>tag := word_of_int n, have_tag := True\<rparr>))"

definition setvlanprio :: "kernel \<Rightarrow> string \<Rightarrow> int \<Rightarrow> ifc \<Rightarrow> world \<Rightarrow> ifc outcome" where
  "setvlanprio K val d g w =
     andthen (num_arg val 0 7 ''vlan priority %s: %s'' w) (\<lambda>n.
       ioctl_update K SIOCGETVLANPRIO SIOCSETVLANPRIO ''SIOCGETVLANPRIO'' ''SIOCSETVLANPRIO''
         (\<lambda>r. IoVlan ((io_vlan r)\<lparr>vlr_tag := word_of_int n\<rparr>)) g)"

text \<open>Without a tag the digits of the interface name are the tag.\<close>

definition setvlandev :: "kernel \<Rightarrow> string \<Rightarrow> int \<Rightarrow> ifc \<Rightarrow> world \<Rightarrow> ifc outcome" where
  "setvlandev K val d g w =
     andthen (ioctl_err K g SIOCGETVLAN (ifr_name g) IoNone ''SIOCGETVLAN'' w) (\<lambda>r w1.
       let v = (io_vlan r)\<lparr>vlr_parent := fst (strlcpy val IFNAMSIZ)\<rparr> in
       andthen
         (if \<not> have_tag g \<and> vlr_tag v = 0 then
            (case strtonum (dropWhile (\<lambda>c. \<not> isdigit c) (ifr_name g)) 0 4095 w1 of
               (n, None, w2) \<Rightarrow> Ok (v\<lparr>vlr_tag := word_of_int n\<rparr>) w2
             | (n, Some e, w2) \<Rightarrow> errx ''invalid vlan tag and device specification'' [] w2)
          else if have_tag g then Ok (v\<lparr>vlr_tag := tag g\<rparr>) w1
          else Ok v w1)
         (\<lambda>v1 w2. andthen (ioctl_err K g SIOCSETVLAN (ifr_name g) (IoVlan v1) ''SIOCSETVLAN'' w2) (\<lambda>_. Ok g)))"

definition unsetvlandev :: "kernel \<Rightarrow> string \<Rightarrow> int \<Rightarrow> ifc \<Rightarrow> world \<Rightarrow> ifc outcome" where
  "unsetvlandev K val d g w = vlan_update K (\<lambda>v. v\<lparr>vlr_parent := [], vlr_tag := 0\<rparr>) g w"

section \<open>carp\<close>

definition carp_update :: "kernel \<Rightarrow> (carpreq \<Rightarrow> carpreq) \<Rightarrow> ifc \<Rightarrow> world \<Rightarrow> ifc outcome" where
  "carp_update K f g w =
     ioctl_update K SIOCGVH SIOCSVH ''SIOCGVH'' ''SIOCSVH'' (\<lambda>r. IoCarp (f (io_carp r))) g w"

definition CARP_KEY_LEN :: nat where "CARP_KEY_LEN = 20"

definition setcarp_passwd :: "kernel \<Rightarrow> string \<Rightarrow> int \<Rightarrow> ifc \<Rightarrow> world \<Rightarrow> ifc outcome" where
  "setcarp_passwd K val d g w =
     carp_update K (\<lambda>c. c\<lparr>carpr_key := fst (strlcpy val CARP_KEY_LEN)\<rparr>) g w"

definition setcarp_vhid :: "kernel \<Rightarrow> string \<Rightarrow> int \<Rightarrow> ifc \<Rightarrow> world \<Rightarrow> ifc outcome" where
  "setcarp_vhid K val d g w =
     andthen (num_arg val 1 255 ''vhid %s: %s'' w) (\<lambda>n.
       carp_update K (\<lambda>c. c\<lparr>carpr_vhids := (carpr_vhids c)[0 := word_of_int n, 1 := 0]\<rparr>) g)"

definition setcarp_advskew :: "kernel \<Rightarrow> string \<Rightarrow> int \<Rightarrow> ifc \<Rightarrow> world \<Rightarrow> ifc outcome" where
  "setcarp_advskew K val d g w =
     andthen (num_arg val 0 255 ''advskew %s: %s'' w) (\<lambda>n.
       carp_update K (\<lambda>c. c\<lparr>carpr_advskews := (carpr_advskews c)[0 := word_of_int n]\<rparr>) g)"

definition setcarp_advbase :: "kernel \<Rightarrow> string \<Rightarrow> int \<Rightarrow> ifc \<Rightarrow> world \<Rightarrow> ifc outcome" where
  "setcarp_advbase K val d g w =
     andthen (num_arg val 0 255 ''advbase %s: %s'' w) (\<lambda>n.
       carp_update K (\<lambda>c. c\<lparr>carpr_advbase := n\<rparr>) g)"

text \<open>The address of the peer, which has to be IPv4.\<close>

definition peer_addr :: "netdb \<Rightarrow> string \<Rightarrow> string \<Rightarrow> world \<Rightarrow> u32 outcome" where
  "peer_addr N val what w =
     andthen (resolve N AF_INET val None w) (\<lambda>(f, a, _, _) w1.
       if f \<noteq> AF_INET then errx (''only IPv4 addresses supported for the '' @ what) [] w1 else Ok a w1)"

definition setcarppeer :: "kernel \<Rightarrow> netdb \<Rightarrow> string \<Rightarrow> int \<Rightarrow> ifc \<Rightarrow> world \<Rightarrow> ifc outcome" where
  "setcarppeer K N val d g w =
     andthen (ioctl_err K g SIOCGVH (ifr_name g) IoNone ''SIOCGVH'' w) (\<lambda>r w1.
       andthen (peer_addr N val ''carppeer'' w1) (\<lambda>a w2.
         andthen (ioctl_err K g SIOCSVH (ifr_name g) (IoCarp ((io_carp r)\<lparr>carpr_peer := a\<rparr>)) ''SIOCSVH'' w2)
           (\<lambda>_. Ok g)))"

definition unsetcarppeer :: "kernel \<Rightarrow> string \<Rightarrow> int \<Rightarrow> ifc \<Rightarrow> world \<Rightarrow> ifc outcome" where
  "unsetcarppeer K val d g w = carp_update K (\<lambda>c. c\<lparr>carpr_peer := 0\<rparr>) g w"

definition carp_states :: "string list" where "carp_states = [''INIT'', ''BACKUP'', ''MASTER'']"

definition carp_bal_modes :: "string list" where
  "carp_bal_modes = [''none'', ''arp'', ''ip'', ''ip-stealth'', ''ip-unicast'']"

text \<open>The index of a name, ignoring case.\<close>

fun name_index :: "string \<Rightarrow> string list \<Rightarrow> nat option" where
  "name_index val [] = None"
| "name_index val (n # ns) = (if strcasecmp val n then Some 0 else map_option Suc (name_index val ns))"

text \<open>An unknown state leaves the current one; it is written back all the same.\<close>

definition setcarp_state :: "kernel \<Rightarrow> string \<Rightarrow> int \<Rightarrow> ifc \<Rightarrow> world \<Rightarrow> ifc outcome" where
  "setcarp_state K val d g w =
     carp_update K (\<lambda>c. case name_index val carp_states of
        None \<Rightarrow> c | Some i \<Rightarrow> c\<lparr>carpr_state := int i\<rparr>) g w"

definition setcarpdev :: "kernel \<Rightarrow> string \<Rightarrow> int \<Rightarrow> ifc \<Rightarrow> world \<Rightarrow> ifc outcome" where
  "setcarpdev K val d g w = carp_update K (\<lambda>c. c\<lparr>carpr_carpdev := fst (strlcpy val IFNAMSIZ)\<rparr>) g w"

definition unsetcarpdev :: "kernel \<Rightarrow> string \<Rightarrow> int \<Rightarrow> ifc \<Rightarrow> world \<Rightarrow> ifc outcome" where
  "unsetcarpdev K val d g w = carp_update K (\<lambda>c. c\<lparr>carpr_carpdev := []\<rparr>) g w"

text \<open>The node list: pairs \<open>vhid:advskew\<close>, at most \<open>CARP_MAXNODES\<close>, both below 255.\<close>

fun carp_nodes :: "nat \<Rightarrow> string list \<Rightarrow> carpreq \<Rightarrow> world \<Rightarrow> carpreq outcome" where
  "carp_nodes i [] c w = Ok c w"
| "carp_nodes i (str # ts) c w =
     (if i \<ge> CARP_MAXNODES then errx ''too many carp nodes'' [] w
      else case sscanf_u_u (CHR '':'') str of
        None \<Rightarrow> errx ''non parsable arg: %s'' [AS str] w
      | Some (vhid, advskew) \<Rightarrow>
          if vhid \<ge> 255 then errx ''vhid %d: value too large'' [AI (uint vhid)] w
          else if advskew \<ge> 255 then errx ''advskew %d: value too large'' [AI (uint advskew)] w
          else carp_nodes (Suc i) ts
            (c\<lparr>carpr_vhids := (carpr_vhids c)[i := ucast vhid],
               carpr_advskews := (carpr_advskews c)[i := ucast advskew]\<rparr>) w)"

definition setcarp_nodes :: "kernel \<Rightarrow> string \<Rightarrow> int \<Rightarrow> ifc \<Rightarrow> world \<Rightarrow> ifc outcome" where
  "setcarp_nodes K val d g w =
     andthen (ioctl_err K g SIOCGVH (ifr_name g) IoNone ''SIOCGVH'' w) (\<lambda>r w1.
       let c = (io_carp r)\<lparr>carpr_vhids := replicate CARP_MAXNODES 0, carpr_advskews := replicate CARP_MAXNODES 0\<rparr> in
       andthen (strdup K val w1) (\<lambda>_ w2.
         andthen (carp_nodes 0 (strtok_all (CHR '','') (Some val)) c w2) (\<lambda>c1 w3.
           andthen (ioctl_err K g SIOCSVH (ifr_name g) (IoCarp c1) ''SIOCSVH'' w3) (\<lambda>_. Ok g))))"

definition setcarp_balancing :: "kernel \<Rightarrow> string \<Rightarrow> int \<Rightarrow> ifc \<Rightarrow> world \<Rightarrow> ifc outcome" where
  "setcarp_balancing K val d g w =
     andthen (ioctl_err K g SIOCGVH (ifr_name g) IoNone ''SIOCGVH'' w) (\<lambda>r w1.
       case name_index val carp_bal_modes of
         None \<Rightarrow> errx ''balancing %s: unknown mode'' [AS val] w1
       | Some i \<Rightarrow>
           andthen (ioctl_err K g SIOCSVH (ifr_name g) (IoCarp ((io_carp r)\<lparr>carpr_balancing := of_nat i\<rparr>)) ''SIOCSVH'' w1)
             (\<lambda>_. Ok g))"

section \<open>pfsync and pflow\<close>

definition pfsync_update :: "kernel \<Rightarrow> (pfsyncreq \<Rightarrow> pfsyncreq) \<Rightarrow> ifc \<Rightarrow> world \<Rightarrow> ifc outcome" where
  "pfsync_update K f g w =
     ioctl_update K SIOCGETPFSYNC SIOCSETPFSYNC ''SIOCGETPFSYNC'' ''SIOCSETPFSYNC''
       (\<lambda>r. IoPfsync (f (io_pfsync r))) g w"

definition setpfsync_syncdev :: "kernel \<Rightarrow> string \<Rightarrow> int \<Rightarrow> ifc \<Rightarrow> world \<Rightarrow> ifc outcome" where
  "setpfsync_syncdev K val d g w =
     pfsync_update K (\<lambda>p. p\<lparr>pfsyncr_syncdev := fst (strlcpy val IFNAMSIZ)\<rparr>) g w"

definition unsetpfsync_syncdev :: "kernel \<Rightarrow> string \<Rightarrow> int \<Rightarrow> ifc \<Rightarrow> world \<Rightarrow> ifc outcome" where
  "unsetpfsync_syncdev K val d g w = pfsync_update K (\<lambda>p. p\<lparr>pfsyncr_syncdev := []\<rparr>) g w"

definition setpfsync_syncpeer :: "kernel \<Rightarrow> netdb \<Rightarrow> string \<Rightarrow> int \<Rightarrow> ifc \<Rightarrow> world \<Rightarrow> ifc outcome" where
  "setpfsync_syncpeer K N val d g w =
     andthen (ioctl_err K g SIOCGETPFSYNC (ifr_name g) IoNone ''SIOCGETPFSYNC'' w) (\<lambda>r w1.
       andthen (peer_addr N val ''syncpeer'' w1) (\<lambda>a w2.
         andthen (ioctl_err K g SIOCSETPFSYNC (ifr_name g)
             (IoPfsync ((io_pfsync r)\<lparr>pfsyncr_syncpeer := a\<rparr>)) ''SIOCSETPFSYNC'' w2) (\<lambda>_. Ok g)))"

definition unsetpfsync_syncpeer :: "kernel \<Rightarrow> string \<Rightarrow> int \<Rightarrow> ifc \<Rightarrow> world \<Rightarrow> ifc outcome" where
  "unsetpfsync_syncpeer K val d g w = pfsync_update K (\<lambda>p. p\<lparr>pfsyncr_syncpeer := 0\<rparr>) g w"

definition setpfsync_maxupd :: "kernel \<Rightarrow> string \<Rightarrow> int \<Rightarrow> ifc \<Rightarrow> world \<Rightarrow> ifc outcome" where
  "setpfsync_maxupd K val d g w =
     andthen (num_arg val 0 255 ''maxupd %s: %s'' w) (\<lambda>n.
       pfsync_update K (\<lambda>p. p\<lparr>pfsyncr_maxupdates := n\<rparr>) g)"

definition setpfsync_defer :: "kernel \<Rightarrow> string \<Rightarrow> int \<Rightarrow> ifc \<Rightarrow> world \<Rightarrow> ifc outcome" where
  "setpfsync_defer K val d g w = pfsync_update K (\<lambda>p. p\<lparr>pfsyncr_defer := d\<rparr>) g w"

definition pflow_zero :: pflowreq where
  "pflow_zero = \<lparr>sender_ip = 0, receiver_ip = 0, receiver_port = 0, addrmask = 0\<rparr>"

definition pflow_send :: "kernel \<Rightarrow> pflowreq \<Rightarrow> ifc \<Rightarrow> world \<Rightarrow> ifc outcome" where
  "pflow_send K p g w =
     andthen (ioctl_err K g SIOCSETPFLOW (ifr_name g) (IoPflow p) ''SIOCSETPFLOW'' w) (\<lambda>_. Ok g)"

definition PFLOW_MASK_SRCIP :: u16 where "PFLOW_MASK_SRCIP = 1"
definition PFLOW_MASK_DST :: u16 where "PFLOW_MASK_DST = 6"

definition setpflow_sender :: "kernel \<Rightarrow> netdb \<Rightarrow> string \<Rightarrow> int \<Rightarrow> ifc \<Rightarrow> world \<Rightarrow> ifc outcome" where
  "setpflow_sender K N val d g w =
     andthen (peer_addr N val ''sender'' w) (\<lambda>a.
       pflow_send K (pflow_zero\<lparr>addrmask := PFLOW_MASK_SRCIP, sender_ip := a\<rparr>) g)"

definition unsetpflow_sender :: "kernel \<Rightarrow> string \<Rightarrow> int \<Rightarrow> ifc \<Rightarrow> world \<Rightarrow> ifc outcome" where
  "unsetpflow_sender K val d g w = pflow_send K (pflow_zero\<lparr>addrmask := PFLOW_MASK_SRCIP\<rparr>) g w"

text \<open>\<open>MAXHOSTNAMELEN + sizeof(":65535")\<close> bytes for \<open>host:port\<close>.\<close>

definition sizeof_hostport :: nat where "sizeof_hostport = 263"

definition setpflow_receiver :: "kernel \<Rightarrow> netdb \<Rightarrow> string \<Rightarrow> int \<Rightarrow> ifc \<Rightarrow> world \<Rightarrow> ifc outcome" where
  "setpflow_receiver K N val d g w =
     (if CHR '':'' \<notin> set val then errx ''%s bad value'' [AS val] w
      else case strlcpy val sizeof_hostport of (buf, l) \<Rightarrow>
        if l \<ge> sizeof_hostport then errx ''%s bad value'' [AS val] w
        else let ip = takeWhile (\<lambda>c. c \<noteq> CHR '':'') buf;
                 port = drop (length ip + 1) buf
             in andthen (resolve N AF_INET ip (Some port) w) (\<lambda>(f, a, p, _) w1.
               if f \<noteq> AF_INET then errx ''only IPv4 addresses supported for the receiver'' [] w1
               else pflow_send K (pflow_zero\<lparr>addrmask := PFLOW_MASK_DST, receiver_ip := a,
                      receiver_port := p\<rparr>) g w1))"

definition unsetpflow_receiver :: "kernel \<Rightarrow> string \<Rightarrow> int \<Rightarrow> ifc \<Rightarrow> world \<Rightarrow> ifc outcome" where
  "unsetpflow_receiver K val d g w = pflow_send K (pflow_zero\<lparr>addrmask := PFLOW_MASK_DST\<rparr>) g w"

section \<open>pppoe and sppp\<close>

definition PPPOE_NAMELEN :: nat where "PPPOE_NAMELEN = 512"

text \<open>A failing query ends the command silently.\<close>

definition pppoe_update :: "kernel \<Rightarrow> (pppoediscparms \<Rightarrow> pppoediscparms) \<Rightarrow> ifc \<Rightarrow> world \<Rightarrow> ifc outcome" where
  "pppoe_update K f g w =
     (case ioctl K (sock g) PPPOEGETPARMS (name_of g) IoNone w of
        (None, w1) \<Rightarrow> Ok g w1
      | (Some r, w1) \<Rightarrow>
          andthen (ioctl_err K g PPPOESETPARMS (name_of g) (IoPppoe (f (io_pppoe r))) ''PPPOESETPARMS'' w1)
            (\<lambda>_. Ok g))"

definition setpppoe_dev :: "kernel \<Rightarrow> string \<Rightarrow> int \<Rightarrow> ifc \<Rightarrow> world \<Rightarrow> ifc outcome" where
  "setpppoe_dev K val d g w =
     pppoe_update K (\<lambda>p. p\<lparr>eth_ifname := fst (strlcpy val IFNAMSIZ)\<rparr>) g w"

definition setpppoe_svc :: "kernel \<Rightarrow> string \<Rightarrow> int \<Rightarrow> ifc \<Rightarrow> world \<Rightarrow> ifc outcome" where
  "setpppoe_svc K val d g w =
     pppoe_update K (\<lambda>p. p\<lparr>service_name := (if d = 0 then fst (strlcpy val PPPOE_NAMELEN) else [])\<rparr>) g w"

definition setpppoe_ac :: "kernel \<Rightarrow> string \<Rightarrow> int \<Rightarrow> ifc \<Rightarrow> world \<Rightarrow> ifc outcome" where
  "setpppoe_ac K val d g w =
     pppoe_update K (\<lambda>p. p\<lparr>ac_name := (if d = 0 then fst (strlcpy val PPPOE_NAMELEN) else [])\<rparr>) g w"

definition sauth_zero :: sauthreq where
  "sauth_zero = \<lparr>sa_cmd = SPPPIOGMAUTH, sa_proto = 0, sa_flags = 0, sa_name = [], sa_secret = []\<rparr>"

definition spppauthinfo :: "kernel \<Rightarrow> int \<Rightarrow> ifc \<Rightarrow> world \<Rightarrow> sauthreq outcome" where
  "spppauthinfo K d g w =
     andthen (ioctl_err K g SIOCGIFGENERIC (ifr_name g)
         (IoSauth (sauth_zero\<lparr>sa_cmd := (if d = 0 then SPPPIOGMAUTH else SPPPIOGHAUTH)\<rparr>))
         ''SIOCGIFGENERIC(SPPPIOGXAUTH)'' w) (\<lambda>r. Ok (io_sauth r))"

definition sppp_send :: "kernel \<Rightarrow> sauthreq \<Rightarrow> int \<Rightarrow> ifc \<Rightarrow> world \<Rightarrow> ifc outcome" where
  "sppp_send K spa d g w =
     andthen (ioctl_err K g SIOCSIFGENERIC (ifr_name g)
         (IoSauth (spa\<lparr>sa_cmd := (if d = 0 then SPPPIOSMAUTH else SPPPIOSHAUTH)\<rparr>))
         ''SIOCSIFGENERIC(SPPPIOSXAUTH)'' w) (\<lambda>_. Ok g)"

definition PPP_PAP :: u16 where "PPP_PAP = 0xc023"
definition PPP_CHAP :: u16 where "PPP_CHAP = 0xc223"

definition setspppproto :: "kernel \<Rightarrow> string \<Rightarrow> int \<Rightarrow> ifc \<Rightarrow> world \<Rightarrow> ifc outcome" where
  "setspppproto K val d g w =
     andthen (spppauthinfo K d g w) (\<lambda>spa w1.
       if val = ''pap'' then sppp_send K (spa\<lparr>sa_proto := PPP_PAP\<rparr>) d g w1
       else if val = ''chap'' then sppp_send K (spa\<lparr>sa_proto := PPP_CHAP\<rparr>) d g w1
       else if val = ''none'' then sppp_send K (spa\<lparr>sa_proto := 0\<rparr>) d g w1
       else errx ''setpppproto'' [] w1)"

definition setsppppeerproto :: "kernel \<Rightarrow> string \<Rightarrow> int \<Rightarrow> ifc \<Rightarrow> world \<Rightarrow> ifc outcome" where
  "setsppppeerproto K val d g w = setspppproto K val 1 g w"

definition AUTHMAXLEN :: nat where "AUTHMAXLEN = 256"

definition setspppname :: "kernel \<Rightarrow> string \<Rightarrow> int \<Rightarrow> ifc \<Rightarrow> world \<Rightarrow> ifc outcome" where
  "setspppname K val d g w =
     andthen (spppauthinfo K d g w) (\<lambda>spa w1.
       if sa_proto spa = 0 then errx ''unspecified protocol'' [] w1
       else case strlcpy val AUTHMAXLEN of (n, l) \<Rightarrow>
         if l \<ge> AUTHMAXLEN then errx ''setspppname'' [] w1 else sppp_send K (spa\<lparr>sa_name := n\<rparr>) d g w1)"

definition setsppppeername :: "kernel \<Rightarrow> string \<Rightarrow> int \<Rightarrow> ifc \<Rightarrow> world \<Rightarrow> ifc outcome" where
  "setsppppeername K val d g w = setspppname K val 1 g w"

definition setspppkey :: "kernel \<Rightarrow> string \<Rightarrow> int \<Rightarrow> ifc \<Rightarrow> world \<Rightarrow> ifc outcome" where
  "setspppkey K val d g w =
     andthen (spppauthinfo K d g w) (\<lambda>spa w1.
       if sa_proto spa = 0 then errx ''unspecified protocol'' [] w1
       else case strlcpy val AUTHMAXLEN of (n, l) \<Rightarrow>
         if l \<ge> AUTHMAXLEN then errx ''setspppkey'' [] w1 else sppp_send K (spa\<lparr>sa_secret := n\<rparr>) d g w1)"

definition setsppppeerkey :: "kernel \<Rightarrow> string \<Rightarrow> int \<Rightarrow> ifc \<Rightarrow> world \<Rightarrow> ifc outcome" where
  "setsppppeerkey K val d g w = setspppkey K val 1 g w"

definition setsppppeerflag :: "kernel \<Rightarrow> string \<Rightarrow> int \<Rightarrow> ifc \<Rightarrow> world \<Rightarrow> ifc outcome" where
  "setsppppeerflag K val d g w =
     andthen (spppauthinfo K 1 g w) (\<lambda>spa w1.
       if sa_proto spa = 0 then errx ''unspecified protocol'' [] w1
       else case (if val = ''callin'' then Some 1 else if val = ''norechallenge'' then Some 2 else None) of
         None \<Rightarrow> errx ''setppppeerflags'' [] w1
       | Some (flag :: u16) \<Rightarrow>
           sppp_send K (spa\<lparr>sa_flags := (if d \<noteq> 0 then sa_flags spa AND NOT flag else sa_flags spa OR flag)\<rparr>) 1 g w1)"

definition unsetsppppeerflag :: "kernel \<Rightarrow> string \<Rightarrow> int \<Rightarrow> ifc \<Rightarrow> world \<Rightarrow> ifc outcome" where
  "unsetsppppeerflag K val d g w = setsppppeerflag K val 1 g w"

section \<open>trunk and keepalive\<close>

definition settrunkport :: "kernel \<Rightarrow> string \<Rightarrow> int \<Rightarrow> ifc \<Rightarrow> world \<Rightarrow> ifc outcome" where
  "settrunkport K val d g w =
     andthen (ioctl_err K g SIOCSTRUNKPORT (name_of g) (IoStr (fst (strlcpy val IFNAMSIZ))) ''SIOCSTRUNKPORT'' w)
       (\<lambda>_. Ok g)"

definition unsettrunkport :: "kernel \<Rightarrow> string \<Rightarrow> int \<Rightarrow> ifc \<Rightarrow> world \<Rightarrow> ifc outcome" where
  "unsettrunkport K val d g w =
     andthen (ioctl_err K g SIOCSTRUNKDELPORT (name_of g) (IoStr (fst (strlcpy val IFNAMSIZ))) ''SIOCSTRUNKDELPORT'' w)
       (\<lambda>_. Ok g)"

definition trunk_protos :: "(string \<times> int) list" where
  "trunk_protos = [(''roundrobin'', 1), (''failover'', 2), (''lacp'', 5), (''loadbalance'', 3),
     (''broadcast'', 4), (''none'', 0), (''default'', 1)]"

definition settrunkproto :: "kernel \<Rightarrow> string \<Rightarrow> int \<Rightarrow> ifc \<Rightarrow> world \<Rightarrow> ifc outcome" where
  "settrunkproto K val d g w =
     (case map_of trunk_protos val of
        None \<Rightarrow> errx ''Invalid trunk protocol: %s'' [AS val] w
      | Some p \<Rightarrow> andthen (ioctl_err K g SIOCSTRUNK (name_of g) (IoInt p) ''SIOCSTRUNK'' w) (\<lambda>_. Ok g))"

definition setkeepalive :: "kernel \<Rightarrow> string \<Rightarrow> string \<Rightarrow> ifc \<Rightarrow> world \<Rightarrow> ifc outcome" where
  "setkeepalive K timeout count g w =
     andthen (num_arg timeout 1 3600 ''keepalive period %s: %s'' w) (\<lambda>t w1.
       andthen (num_arg count 2 600 ''keepalive count %s: %s'' w1) (\<lambda>c.
         ioctl_warn K g SIOCSETKALIVE (name_of g) (IoKalive t c) ''SIOCSETKALIVE''))"

definition unsetkeepalive :: "kernel \<Rightarrow> string \<Rightarrow> int \<Rightarrow> ifc \<Rightarrow> world \<Rightarrow> ifc outcome" where
  "unsetkeepalive K val d g w = ioctl_warn K g SIOCSETKALIVE (name_of g) (IoKalive 0 0) ''SIOCSETKALIVE'' w"

section \<open>Lemmas\<close>

text \<open>A returning update has read the parameters and written the changed ones, nothing else.\<close>

lemma ioctl_update_Ok:
  assumes "ioctl_update K c1 c2 m1 m2 f g w = Ok g' w'"
  shows "g' = g \<and> (\<exists>r. k_ioctl K (EvIoctl (sock g) c1 (ifr_name g) IoNone # trace w) = Inr r \<and>
     trace w' = EvIoctl (sock g) c2 (ifr_name g) (f r) # EvIoctl (sock g) c1 (ifr_name g) IoNone # trace w)"
  using assms
  by (auto simp: ioctl_update_def andthen_Ok_iff ioctl_err_Ok ioctl_def Let_def split: sum.splits)

text \<open>Carp nodes: the accepted list fills the tables from the front, all values below 255.\<close>

lemma carp_nodes_Ok:
  assumes "carp_nodes i ts c w = Ok c' w'" "length (carpr_vhids c) = CARP_MAXNODES"
    "length (carpr_advskews c) = CARP_MAXNODES"
  shows "i + length ts \<le> max i CARP_MAXNODES \<and> w' = w \<and> length (carpr_vhids c') = CARP_MAXNODES \<and>
     length (carpr_advskews c') = CARP_MAXNODES \<and> take i (carpr_vhids c') = take i (carpr_vhids c)"
  using assms
proof (induction i ts c w rule: carp_nodes.induct)
  case (2 i str ts c w)
  then obtain v a where va: "sscanf_u_u (CHR '':'') str = Some (v, a)" "\<not> v \<ge> 255" "\<not> a \<ge> 255"
    and i: "\<not> i \<ge> CARP_MAXNODES"
    by (auto simp: errx_def split: if_splits option.splits)
  let ?c = "c\<lparr>carpr_vhids := (carpr_vhids c)[i := ucast v], carpr_advskews := (carpr_advskews c)[i := ucast a]\<rparr>"
  have rec: "carp_nodes (Suc i) ts ?c w = Ok c' w'" using 2(2) va i by simp
  from 2(1)[OF i va(1) refl va(2,3) rec] 2(3,4)
  have IH: "Suc i + length ts \<le> max (Suc i) CARP_MAXNODES" "w' = w"
    "length (carpr_vhids c') = CARP_MAXNODES" "length (carpr_advskews c') = CARP_MAXNODES"
    "take (Suc i) (carpr_vhids c') = take (Suc i) ((carpr_vhids c)[i := ucast v])" by simp_all
  have "take i (carpr_vhids c') = take i (carpr_vhids c)"
    using arg_cong[OF IH(5), of "take i"] by (simp add: min_def)
  with IH i show ?case by auto
qed auto

end
