(* ===== verification/Ifc_Bridge.thy ===== *)
theory Ifc_Bridge
  imports Ifc_Base
begin

text \<open>
  The bridge commands of the daemon's table (\<open>sbin/ifconfig/brconfig.c\<close>): members and their flags,
  the parameters of the spanning tree, the address table, and the filter rules with their rule
  file. The requests are those of \<open>net/if_bridge.h\<close>. The lemmas show which numbers a parameter
  accepts, that the loops over the kernel's tables end, and that a rule that is printed is read
  back.
\<close>

section \<open>Requests\<close>

definition br_ioctl ::
  "kernel \<Rightarrow> ifc \<Rightarrow> iocmd \<Rightarrow> ioarg \<Rightarrow> string \<Rightarrow> carg list \<Rightarrow> world \<Rightarrow> ioarg outcome" where
  "br_ioctl K g c arg fmt ap w =
     (case ioctl K (sock g) c (name_of g) arg w of
        (None, w1) \<Rightarrow> err K fmt ap w1
      | (Some r, w1) \<Rightarrow> Ok r w1)"

text \<open>A request that has no reply.\<close>

definition br_do ::
  "kernel \<Rightarrow> iocmd \<Rightarrow> ioarg \<Rightarrow> string \<Rightarrow> carg list \<Rightarrow> ifc \<Rightarrow> world \<Rightarrow> ifc outcome" where
  "br_do K c arg fmt ap g w = andthen (br_ioctl K g c arg fmt ap w) (\<lambda>_. Ok g)"

definition ifsname :: "string \<Rightarrow> string" where
  "ifsname n = fst (strlcpy n IFNAMSIZ)"

section \<open>Members\<close>

definition IFBIF_LEARNING :: u32 where "IFBIF_LEARNING = 0x0001"
definition IFBIF_DISCOVER :: u32 where "IFBIF_DISCOVER = 0x0002"
definition IFBIF_BLOCKNONIP :: u32 where "IFBIF_BLOCKNONIP = 0x0004"
definition IFBIF_STP :: u32 where "IFBIF_STP = 0x0008"
definition IFBIF_BSTP_EDGE :: u32 where "IFBIF_BSTP_EDGE = 0x0010"
definition IFBIF_BSTP_AUTOEDGE :: u32 where "IFBIF_BSTP_AUTOEDGE = 0x0020"
definition IFBIF_BSTP_PTP :: u32 where "IFBIF_BSTP_PTP = 0x0040"
definition IFBIF_BSTP_AUTOPTP :: u32 where "IFBIF_BSTP_AUTOPTP = 0x0080"
definition IFBIF_RO_MASK :: u32 where "IFBIF_RO_MASK = 0xff00"

definition bridge_ifsetflag :: "kernel \<Rightarrow> string \<Rightarrow> u32 \<Rightarrow> ifc \<Rightarrow> world \<Rightarrow> ifc outcome" where
  "bridge_ifsetflag K ifs flag g w =
     andthen (br_ioctl K g SIOCBRDGGIFFLGS (IoMember (ifsname ifs))
         ''%s: ioctl SIOCBRDGGIFFLGS %s'' [AS (ifname g), AS ifs] w) (\<lambda>r.
       br_do K SIOCBRDGSIFFLGS (IoMemberFlags (ifsname ifs) (io_member_flags r OR (flag AND NOT IFBIF_RO_MASK)))
         ''%s: ioctl SIOCBRDGSIFFLGS %s'' [AS (ifname g), AS ifs] g)"

definition bridge_ifclrflag :: "kernel \<Rightarrow> string \<Rightarrow> u32 \<Rightarrow> ifc \<Rightarrow> world \<Rightarrow> ifc outcome" where
  "bridge_ifclrflag K ifs flag g w =
     andthen (br_ioctl K g SIOCBRDGGIFFLGS (IoMember (ifsname ifs))
         ''%s: ioctl SIOCBRDGGIFFLGS %s'' [AS (ifname g), AS ifs] w) (\<lambda>r.
       br_do K SIOCBRDGSIFFLGS (IoMemberFlags (ifsname ifs) (io_member_flags r AND NOT (flag OR IFBIF_RO_MASK)))
         ''%s: ioctl SIOCBRDGSIFFLGS %s'' [AS (ifname g), AS ifs] g)"

definition setdiscover :: "kernel \<Rightarrow> string \<Rightarrow> int \<Rightarrow> ifc \<Rightarrow> world \<Rightarrow> ifc outcome" where
  "setdiscover K val d = bridge_ifsetflag K val IFBIF_DISCOVER"
definition unsetdiscover :: "kernel \<Rightarrow> string \<Rightarrow> int \<Rightarrow> ifc \<Rightarrow> world \<Rightarrow> ifc outcome" where
  "unsetdiscover K val d = bridge_ifclrflag K val IFBIF_DISCOVER"
definition setblocknonip :: "kernel \<Rightarrow> string \<Rightarrow> int \<Rightarrow> ifc \<Rightarrow> world \<Rightarrow> ifc outcome" where
  "setblocknonip K val d = bridge_ifsetflag K val IFBIF_BLOCKNONIP"
definition unsetblocknonip :: "kernel \<Rightarrow> string \<Rightarrow> int \<Rightarrow> ifc \<Rightarrow> world \<Rightarrow> ifc outcome" where
  "unsetblocknonip K val d = bridge_ifclrflag K val IFBIF_BLOCKNONIP"
definition setlearn :: "kernel \<Rightarrow> string \<Rightarrow> int \<Rightarrow> ifc \<Rightarrow> world \<Rightarrow> ifc outcome" where
  "setlearn K val d = bridge_ifsetflag K val IFBIF_LEARNING"
definition unsetlearn :: "kernel \<Rightarrow> string \<Rightarrow> int \<Rightarrow> ifc \<Rightarrow> world \<Rightarrow> ifc outcome" where
  "unsetlearn K val d = bridge_ifclrflag K val IFBIF_LEARNING"
definition setstp :: "kernel \<Rightarrow> string \<Rightarrow> int \<Rightarrow> ifc \<Rightarrow> world \<Rightarrow> ifc outcome" where
  "setstp K val d = bridge_ifsetflag K val IFBIF_STP"
definition unsetstp :: "kernel \<Rightarrow> string \<Rightarrow> int \<Rightarrow> ifc \<Rightarrow> world \<Rightarrow> ifc outcome" where
  "unsetstp K val d = bridge_ifclrflag K val IFBIF_STP"
definition setedge :: "kernel \<Rightarrow> string \<Rightarrow> int \<Rightarrow> ifc \<Rightarrow> world \<Rightarrow> ifc outcome" where
  "setedge K val d = bridge_ifsetflag K val IFBIF_BSTP_EDGE"
definition unsetedge :: "kernel \<Rightarrow> string \<Rightarrow> int \<Rightarrow> ifc \<Rightarrow> world \<Rightarrow> ifc outcome" where
  "unsetedge K val d = bridge_ifclrflag K val IFBIF_BSTP_EDGE"
definition setautoedge :: "kernel \<Rightarrow> string \<Rightarrow> int \<Rightarrow> ifc \<Rightarrow> world \<Rightarrow> ifc outcome" where
  "setautoedge K val d = bridge_ifsetflag K val IFBIF_BSTP_AUTOEDGE"
definition unsetautoedge :: "kernel \<Rightarrow> string \<Rightarrow> int \<Rightarrow> ifc \<Rightarrow> world \<Rightarrow> ifc outcome" where
  "unsetautoedge K val d = bridge_ifclrflag K val IFBIF_BSTP_AUTOEDGE"
definition setptp :: "kernel \<Rightarrow> string \<Rightarrow> int \<Rightarrow> ifc \<Rightarrow> world \<Rightarrow> ifc outcome" where
  "setptp K val d = bridge_ifsetflag K val IFBIF_BSTP_PTP"
definition unsetptp :: "kernel \<Rightarrow> string \<Rightarrow> int \<Rightarrow> ifc \<Rightarrow> world \<Rightarrow> ifc outcome" where
  "unsetptp K val d = bridge_ifclrflag K val IFBIF_BSTP_PTP"
definition setautoptp :: "kernel \<Rightarrow> string \<Rightarrow> int \<Rightarrow> ifc \<Rightarrow> world \<Rightarrow> ifc outcome" where
  "setautoptp K val d = bridge_ifsetflag K val IFBIF_BSTP_AUTOPTP"
definition unsetautoptp :: "kernel \<Rightarrow> string \<Rightarrow> int \<Rightarrow> ifc \<Rightarrow> world \<Rightarrow> ifc outcome" where
  "unsetautoptp K val d = bridge_ifclrflag K val IFBIF_BSTP_AUTOPTP"

definition IFBF_FLUSHDYN :: u32 where "IFBF_FLUSHDYN = 0"
definition IFBF_FLUSHALL :: u32 where "IFBF_FLUSHALL = 1"

definition bridge_flushall :: "kernel \<Rightarrow> string \<Rightarrow> int \<Rightarrow> ifc \<Rightarrow> world \<Rightarrow> ifc outcome" where
  "bridge_flushall K val p g = br_do K SIOCBRDGFLUSH (IoFlush IFBF_FLUSHALL) ''%s'' [AS (ifname g)] g"

definition bridge_flush :: "kernel \<Rightarrow> string \<Rightarrow> int \<Rightarrow> ifc \<Rightarrow> world \<Rightarrow> ifc outcome" where
  "bridge_flush K val p g = br_do K SIOCBRDGFLUSH (IoFlush IFBF_FLUSHDYN) ''%s'' [AS (ifname g)] g"

definition bridge_add :: "kernel \<Rightarrow> string \<Rightarrow> int \<Rightarrow> ifc \<Rightarrow> world \<Rightarrow> ifc outcome" where
  "bridge_add K ifn d g w =
     (case ioctl K (sock g) SIOCBRDGADD (name_of g) (IoMember (ifsname ifn)) w of
        (None, w1) \<Rightarrow> if errno w1 = EEXIST then Ok g w1 else err K ''%s: %s'' [AS (ifname g), AS ifn] w1
      | (Some _, w1) \<Rightarrow> Ok g w1)"

definition bridge_delete :: "kernel \<Rightarrow> string \<Rightarrow> int \<Rightarrow> ifc \<Rightarrow> world \<Rightarrow> ifc outcome" where
  "bridge_delete K ifn d g = br_do K SIOCBRDGDEL (IoMember (ifsname ifn)) ''%s: %s'' [AS (ifname g), AS ifn] g"

definition bridge_addspan :: "kernel \<Rightarrow> string \<Rightarrow> int \<Rightarrow> ifc \<Rightarrow> world \<Rightarrow> ifc outcome" where
  "bridge_addspan K ifn d g = br_do K SIOCBRDGADDS (IoMember (ifsname ifn)) ''%s: %s'' [AS (ifname g), AS ifn] g"

definition bridge_delspan :: "kernel \<Rightarrow> string \<Rightarrow> int \<Rightarrow> ifc \<Rightarrow> world \<Rightarrow> ifc outcome" where
  "bridge_delspan K ifn d g = br_do K SIOCBRDGDELS (IoMember (ifsname ifn)) ''%s: %s'' [AS (ifname g), AS ifn] g"

section \<open>Parameters\<close>

text \<open>The argument of a parameter read by \<open>strtoul\<close> with base 0: the value when it is accepted.\<close>

definition ulong_arg :: "string \<Rightarrow> int \<Rightarrow> world \<Rightarrow> int option \<times> world" where
  "ulong_arg arg mx w =
     (case strtoul arg 0 of (v, erange, ep) \<Rightarrow>
        let w1 = set_errno (if erange then ERANGE else E0) w in
        (if arg = [] \<or> ep \<noteq> [] \<or> v > mx \<or> (errno w1 = ERANGE \<and> v = ULONG_MAX) then None else Some v, w1))"

definition invalid_arg :: "string \<Rightarrow> string" where
  "invalid_arg what = ''invalid arg for '' @ what @ '': %s\<newline>''"

definition bridge_param ::
  "kernel \<Rightarrow> iocmd \<Rightarrow> string \<Rightarrow> int \<Rightarrow> string \<Rightarrow> ifc \<Rightarrow> world \<Rightarrow> ifc outcome" where
  "bridge_param K c what mx arg g w =
     (case ulong_arg arg mx w of
        (None, w1) \<Rightarrow> errx (invalid_arg what) [AS arg] w1
      | (Some v, w1) \<Rightarrow> br_do K c (IoParam v) ''%s'' [AS (ifname g)] g w1)"

definition bridge_timeout :: "kernel \<Rightarrow> string \<Rightarrow> int \<Rightarrow> ifc \<Rightarrow> world \<Rightarrow> ifc outcome" where
  "bridge_timeout K arg d g w =
     (case strtol arg 0 of (v, erange, ep) \<Rightarrow>
        let w1 = set_errno (if erange then ERANGE else E0) w in
        if arg = [] \<or> ep \<noteq> [] \<or> v < 0 \<or> v > INT_MAX \<or> (errno w1 = ERANGE \<and> v = LLONG_MAX)
        then errx (invalid_arg ''timeout'') [AS arg] w1
        else br_do K SIOCBRDGSTO (IoParam v) ''%s'' [AS (ifname g)] g w1)"

definition bridge_maxage :: "kernel \<Rightarrow> string \<Rightarrow> int \<Rightarrow> ifc \<Rightarrow> world \<Rightarrow> ifc outcome" where
  "bridge_maxage K arg d = bridge_param K SIOCBRDGSMA ''maxage'' 0xff arg"

definition bridge_priority :: "kernel \<Rightarrow> string \<Rightarrow> int \<Rightarrow> ifc \<Rightarrow> world \<Rightarrow> ifc outcome" where
  "bridge_priority K arg d = bridge_param K SIOCBRDGSPRI ''spanpriority'' 0xffff arg"

definition bridge_fwddelay :: "kernel \<Rightarrow> string \<Rightarrow> int \<Rightarrow> ifc \<Rightarrow> world \<Rightarrow> ifc outcome" where
  "bridge_fwddelay K arg d = bridge_param K SIOCBRDGSFD ''fwddelay'' 0xff arg"

definition bridge_hellotime :: "kernel \<Rightarrow> string \<Rightarrow> int \<Rightarrow> ifc \<Rightarrow> world \<Rightarrow> ifc outcome" where
  "bridge_hellotime K arg d = bridge_param K SIOCBRDGSHT ''hellotime'' 0xff arg"

definition bridge_maxaddr :: "kernel \<Rightarrow> string \<Rightarrow> int \<Rightarrow> ifc \<Rightarrow> world \<Rightarrow> ifc outcome" where
  "bridge_maxaddr K arg d = bridge_param K SIOCBRDGSCACHE ''maxaddr'' 0xffffffff arg"

text \<open>The names of the protocols; the value goes into the union by its member \<open>ifbrp_prio\<close>.\<close>

definition stpproto :: "string list" where
  "stpproto = [''stp'', ''(none)'', ''rstp'']"

fun proto_index :: "string \<Rightarrow> string list \<Rightarrow> int \<Rightarrow> int" where
  "proto_index arg [] i = - 1"
| "proto_index arg (p # ps) i = (if arg = p then i else proto_index arg ps (i + 1))"

definition bridge_proto :: "kernel \<Rightarrow> string \<Rightarrow> int \<Rightarrow> ifc \<Rightarrow> world \<Rightarrow> ifc outcome" where
  "bridge_proto K arg d g w =
     (let proto = proto_index arg stpproto 0 in
      if proto = - 1 then errx (invalid_arg ''proto'') [AS arg] w
      else br_do K SIOCBRDGSPROTO (IoParam proto) ''%s'' [AS (ifname g)] g w)"

definition bridge_ifprio :: "kernel \<Rightarrow> string \<Rightarrow> string \<Rightarrow> ifc \<Rightarrow> world \<Rightarrow> ifc outcome" where
  "bridge_ifprio K ifn val g w =
     (case ulong_arg val 0xff w of
        (None, w1) \<Rightarrow> err K (invalid_arg ''ifpriority'') [AS val] w1
      | (Some v, w1) \<Rightarrow>
          br_do K SIOCBRDGSIFPRIO (IoMemberPrio (ifsname ifn) (word_of_int v)) ''%s: %s'' [AS (ifname g), AS val] g w1)"

definition bridge_ifcost :: "kernel \<Rightarrow> string \<Rightarrow> string \<Rightarrow> ifc \<Rightarrow> world \<Rightarrow> ifc outcome" where
  "bridge_ifcost K ifn val g w =
     (case ulong_arg val 0xffffffff w of
        (None, w1) \<Rightarrow> errx (invalid_arg ''ifcost'') [AS val] w1
      | (Some v, w1) \<Rightarrow>
          br_do K SIOCBRDGSIFCOST (IoMemberCost (ifsname ifn) (word_of_int v)) ''%s: %s'' [AS (ifname g), AS val] g w1)"

definition bridge_noifcost :: "kernel \<Rightarrow> string \<Rightarrow> int \<Rightarrow> ifc \<Rightarrow> world \<Rightarrow> ifc outcome" where
  "bridge_noifcost K ifn d g = br_do K SIOCBRDGSIFCOST (IoMemberCost (ifsname ifn) 0) ''%s'' [AS (ifname g)] g"

definition bridge_holdcnt :: "kernel \<Rightarrow> string \<Rightarrow> int \<Rightarrow> ifc \<Rightarrow> world \<Rightarrow> ifc outcome" where
  "bridge_holdcnt K val d g w =
     (case strtonum val 0 255 w of
        (n, Some e, w1) \<Rightarrow> err K ''holdcnt %s %s'' [AS val, AS e] w1
      | (n, None, w1) \<Rightarrow> br_do K SIOCBRDGSTXHC (IoParam n) ''%s'' [AS (ifname g)] g w1)"

section \<open>Addresses\<close>

definition IFBAF_STATIC :: byte where "IFBAF_STATIC = 1"

definition bridge_deladdr :: "kernel \<Rightarrow> string \<Rightarrow> int \<Rightarrow> ifc \<Rightarrow> world \<Rightarrow> ifc outcome" where
  "bridge_deladdr K addr d g w =
     (case ether_aton addr of
        None \<Rightarrow> err K ''Invalid address: %s'' [AS addr] w
      | Some ea \<Rightarrow> br_do K SIOCBRDGDADDR (IoLladdr ea) ''%s: %s'' [AS (ifname g), AS addr] g w)"

definition bridge_addaddr :: "kernel \<Rightarrow> string \<Rightarrow> string \<Rightarrow> ifc \<Rightarrow> world \<Rightarrow> ifc outcome" where
  "bridge_addaddr K ifn addr g w =
     (case ether_aton addr of
        None \<Rightarrow> errx ''Invalid address: %s'' [AS addr] w
      | Some ea \<Rightarrow>
          br_do K SIOCBRDGSADDR (IoStatic (ifsname ifn) ea IFBAF_STATIC) ''%s: %s'' [AS (ifname g), AS addr] g w)"

text \<open>\<open>printb\<close> of \<open>ifcutil.c\<close> for a base of 16: the number and the names of the bits that are set.\<close>

fun hex :: "nat \<Rightarrow> string" where
  "hex n = (if n < 16 then [hex_digit n] else hex (n div 16) @ [hex_digit (n mod 16)])"

declare hex.simps [simp del]

function printb_names :: "u32 \<Rightarrow> string \<Rightarrow> bool \<Rightarrow> string" where
  "printb_names v [] any = []"
| "printb_names v (i # bits) any =
     (let nm = takeWhile (\<lambda>c. ord c > 32) bits; r = dropWhile (\<lambda>c. ord c > 32) bits in
      if bit v (ord i - 1) then (if any then '','' else []) @ nm @ printb_names v r True
      else printb_names v r any)"
  by pat_completeness auto
termination
  by (relation "measure (\<lambda>(v, bits, any). length bits)") (auto simp: length_dropWhile_le le_imp_less_Suc)

definition printb :: "string \<Rightarrow> u32 \<Rightarrow> string \<Rightarrow> string" where
  "printb s v bits = s @ ''='' @ hex (unat v) @ ''<'' @ printb_names v bits False @ ''>''"

definition IFBAFBITS :: string where "IFBAFBITS = CHR 0x01 # ''STATIC''"

definition sizeof_ifbareq :: nat where "sizeof_ifbareq = 40"

text \<open>
  The loop that doubles the buffer until the kernel's table fits: the kernel stores as many entries
  as there is room for. \<open>realloc\<close> may fail, and the size is an \<open>int\<close>.
\<close>

function fetch ::
  "kernel \<Rightarrow> (int \<Rightarrow> world \<Rightarrow> 'a list outcome) \<Rightarrow> nat \<Rightarrow> int \<Rightarrow> world \<Rightarrow> 'a list outcome" where
  "fetch K ask sz len w =
     (if len \<le> 0 \<or> len > INT_MAX then Undef ''brconfig: len *= 2'' w
      else case alloc K (nat len) w of (ok, w1) \<Rightarrow>
        if \<not> ok then err K ''malloc'' [] w1
        else andthen (ask len w1) (\<lambda>xs w2.
          let got = take (nat len div sz) xs in
          if int (length got * sz + sz) < len then Ok got w2 else fetch K ask sz (len * 2) w2))"
  by pat_completeness auto
termination
  by (relation "measure (\<lambda>(K, ask, sz, len, w). nat (INT_MAX - len + 1))") (auto simp: INT_MAX_def)

declare fetch.simps [simp del]

definition addr_line :: "string \<Rightarrow> ifbareq \<Rightarrow> string" where
  "addr_line delim a = delim @ ether_ntoa (ifba_dst a) @ '' '' @ fst (strlcpy (ifba_ifsname a) (IFNAMSIZ + 1)) @ '' '' @
     show_int (uint (ifba_age a)) @ '' '' @ printb ''flags'' (ucast (ifba_flags a)) IFBAFBITS @ [CHR 0x0A]"

definition puts_all :: "string list \<Rightarrow> world \<Rightarrow> world" where
  "puts_all ls w = fold (\<lambda>l. emit (EvStdout l)) ls w"

text \<open>The table is not there when the bridge is down: then nothing is printed.\<close>

definition bridge_addrs :: "kernel \<Rightarrow> string \<Rightarrow> int \<Rightarrow> ifc \<Rightarrow> world \<Rightarrow> ifc outcome" where
  "bridge_addrs K delim d g w =
     (let dl = (if delim = ''addr'' then [] else delim) in
      andthen (fetch K (\<lambda>len w1.
          case ioctl K (sock g) SIOCBRDGRTS (name_of g) (IoTable len) w1 of
            (None, w2) \<Rightarrow> if errno w2 = ENETDOWN then Ok [] w2 else err K ''%s'' [AS (ifname g)] w2
          | (Some r, w2) \<Rightarrow> Ok (io_routes r) w2) sizeof_ifbareq 8192 w) (\<lambda>as w2.
        Ok g (puts_all (map (addr_line dl) as) w2)))"

section \<open>Rules\<close>

definition BRL_ACTION_BLOCK :: byte where "BRL_ACTION_BLOCK = 0x01"
definition BRL_ACTION_PASS :: byte where "BRL_ACTION_PASS = 0x02"
definition BRL_FLAG_IN :: byte where "BRL_FLAG_IN = 0x08"
definition BRL_FLAG_OUT :: byte where "BRL_FLAG_OUT = 0x04"
definition BRL_FLAG_SRCVALID :: byte where "BRL_FLAG_SRCVALID = 0x02"
definition BRL_FLAG_DSTVALID :: byte where "BRL_FLAG_DSTVALID = 0x01"
definition PF_TAG_NAME_SIZE :: nat where "PF_TAG_NAME_SIZE = 64"
definition MAXRULEWORDS :: nat where "MAXRULEWORDS = 8"
definition sizeof_ifbrlreq :: nat where "sizeof_ifbrlreq = 110"

lemmas brl_defs = BRL_ACTION_BLOCK_def BRL_ACTION_PASS_def BRL_FLAG_IN_def BRL_FLAG_OUT_def
  BRL_FLAG_SRCVALID_def BRL_FLAG_DSTVALID_def

definition bridge_flushrule :: "kernel \<Rightarrow> string \<Rightarrow> int \<Rightarrow> ifc \<Rightarrow> world \<Rightarrow> ifc outcome" where
  "bridge_flushrule K ifn d g = br_do K SIOCBRDGFRL (IoMember (ifsname ifn)) ''%s: %s'' [AS (ifname g), AS ifn] g"

text \<open>What \<open>bridge_showrule\<close> prints. An address whose flag is not set is not looked at.\<close>

definition show_ether :: "byte list option \<Rightarrow> string" where
  "show_ether a = (case a of None \<Rightarrow> [] | Some e \<Rightarrow> ether_ntoa e)"

definition bridge_showrule :: "ifbrlreq \<Rightarrow> string" where
  "bridge_showrule r =
     (if rl_action r = BRL_ACTION_BLOCK then ''block ''
      else if rl_action r = BRL_ACTION_PASS then ''pass ''
      else ''[neither block nor pass?]\<newline>'') @
     (if rl_flags r AND (BRL_FLAG_IN OR BRL_FLAG_OUT) = BRL_FLAG_IN OR BRL_FLAG_OUT then ''in/out ''
      else if rl_flags r AND BRL_FLAG_IN \<noteq> 0 then ''in ''
      else if rl_flags r AND BRL_FLAG_OUT \<noteq> 0 then ''out ''
      else ''[neither in nor out?]\<newline>'') @
     ''on '' @ rl_ifsname r @
     (if rl_flags r AND BRL_FLAG_SRCVALID \<noteq> 0 then '' src '' @ show_ether (rl_src r) else []) @
     (if rl_flags r AND BRL_FLAG_DSTVALID \<noteq> 0 then '' dst '' @ show_ether (rl_dst r) else []) @
     (if rl_tagname r \<noteq> [] then '' tag '' @ rl_tagname r else []) @ [CHR 0x0A]"

definition bridge_rules :: "kernel \<Rightarrow> string \<Rightarrow> int \<Rightarrow> ifc \<Rightarrow> world \<Rightarrow> ifc outcome" where
  "bridge_rules K ifn d g w =
     andthen (fetch K (\<lambda>len w1.
         andthen (br_ioctl K g SIOCBRDGGRL (IoRuleTable (ifsname ifn) len) ''ioctl(SIOCBRDGGRL)'' [] w1)
           (\<lambda>r. Ok (io_rules r))) sizeof_ifbrlreq 8192 w) (\<lambda>rs w2.
       Ok g (puts_all (map bridge_showrule rs) w2))"

definition bridge_badrule :: "string list \<Rightarrow> int \<Rightarrow> world \<Rightarrow> world" where
  "bridge_badrule argv ln w =
     emit (EvStderr (''ifconfigd: invalid rule: '' @ (if ln \<noteq> - 1 then show_int ln @ '': '' else []) @
       concat (map (\<lambda>a. a @ '' '') argv) @ [CHR 0x0A])) w"

text \<open>
  The words after the interface of a rule. A word that does not fit makes a bad rule (\<open>Inl True\<close>);
  an invalid address is reported on its own (\<open>Inl False\<close>).
\<close>

fun rule_words :: "string list \<Rightarrow> ifbrlreq \<Rightarrow> world \<Rightarrow> (bool + ifbrlreq) \<times> world" where
  "rule_words [] r w = (Inr r, w)"
| "rule_words (a # as) r w =
     (if a = ''dst'' then
        (if rl_flags r AND BRL_FLAG_DSTVALID \<noteq> 0 then (Inl True, w)
         else case as of
           [] \<Rightarrow> (Inl True, w)
         | x # as' \<Rightarrow>
             (case ether_aton x of
                None \<Rightarrow> (Inl False, warnx ''invalid address: %s'' [AS x] w)
              | Some ea \<Rightarrow> rule_words as' (r\<lparr>rl_flags := rl_flags r OR BRL_FLAG_DSTVALID, rl_dst := Some ea\<rparr>) w))
      else if a = ''src'' then
        (if rl_flags r AND BRL_FLAG_SRCVALID \<noteq> 0 then (Inl True, w)
         else case as of
           [] \<Rightarrow> (Inl True, w)
         | x # as' \<Rightarrow>
             (case ether_aton x of
                None \<Rightarrow> (Inl False, warnx ''invalid address: %s'' [AS x] w)
              | Some ea \<Rightarrow> rule_words as' (r\<lparr>rl_flags := rl_flags r OR BRL_FLAG_SRCVALID, rl_src := Some ea\<rparr>) w))
      else if a = ''tag'' then
        (case as of
           [] \<Rightarrow> (Inl True, warnx ''missing tag name\<newline>'' [] w)
         | x # as' \<Rightarrow>
             if rl_tagname r \<noteq> [] then (Inl True, warnx ''tag already defined\<newline>'' [] w)
             else (case strlcpy x PF_TAG_NAME_SIZE of (t, l) \<Rightarrow>
               if l > PF_TAG_NAME_SIZE then
                 (Inl True, warnx (''tag name '' @ [CHR 0x27] @ ''%s'' @ [CHR 0x27] @ '' too long\<newline>'') [AS x] w)
               else rule_words as' (r\<lparr>rl_tagname := t\<rparr>) w))
      else (Inl True, w))"

text \<open>The action and the direction at the front; \<open>on\<close> alone stands for both directions.\<close>

definition rule_action :: "string \<Rightarrow> byte option" where
  "rule_action a = (if a = ''block'' then Some BRL_ACTION_BLOCK else if a = ''pass'' then Some BRL_ACTION_PASS else None)"

definition rule_direction :: "string list \<Rightarrow> (byte \<times> string list) option" where
  "rule_direction as =
     (case as of
        [] \<Rightarrow> None
      | d # r \<Rightarrow>
          if d = ''in'' then Some (BRL_FLAG_IN, r)
          else if d = ''out'' then Some (BRL_FLAG_OUT, r)
          else if d = ''in/out'' then Some (BRL_FLAG_IN OR BRL_FLAG_OUT, r)
          else if d = ''on'' then Some (BRL_FLAG_IN OR BRL_FLAG_OUT, as)
          else None)"

definition parse_rule :: "string list \<Rightarrow> world \<Rightarrow> (bool + ifbrlreq) \<times> world" where
  "parse_rule argv w =
     (case argv of
        [] \<Rightarrow> (Inl True, w)
      | a # as \<Rightarrow>
          (case rule_action a of
             None \<Rightarrow> (Inl True, w)
           | Some act \<Rightarrow>
               (case rule_direction as of
                  None \<Rightarrow> (Inl True, w)
                | Some (f, bs) \<Rightarrow>
                    (case bs of
                       o1 # i # cs \<Rightarrow>
                         if o1 = ''on'' then
                           rule_words cs \<lparr>rl_ifsname = ifsname i, rl_action = act, rl_flags = f, rl_src = None, rl_dst = None, rl_tagname = []\<rparr> w
                         else (Inl True, w)
                     | _ \<Rightarrow> (Inl True, w)))))"

definition bridge_rule :: "kernel \<Rightarrow> string list \<Rightarrow> int \<Rightarrow> ifc \<Rightarrow> world \<Rightarrow> int \<times> world" where
  "bridge_rule K argv ln g w =
     (if argv = [] then (1, warnx ''invalid rule\<newline>'' [] w)
      else case parse_rule argv w of
        (Inl True, w1) \<Rightarrow> (1, bridge_badrule argv ln w1)
      | (Inl False, w1) \<Rightarrow> (1, w1)
      | (Inr r, w1) \<Rightarrow>
          (case ioctl K (sock g) SIOCBRDGARL (name_of g) (IoRule r) w1 of
             (None, w2) \<Rightarrow> (1, warn K ''%s'' [AS (ifname g)] w2)
           | (Some _, w2) \<Rightarrow> (0, w2)))"

section \<open>Rule files\<close>

text \<open>\<open>fgets\<close> into a buffer of \<open>n\<close> bytes: the line and what is left of the file.\<close>

fun fgets :: "nat \<Rightarrow> string \<Rightarrow> string \<times> string" where
  "fgets 0 s = ([], s)"
| "fgets (Suc 0) s = ([], s)"
| "fgets n [] = ([], [])"
| "fgets (Suc n) (c # s) = (if c = CHR 0x0A then ([c], s) else case fgets n s of (l, r) \<Rightarrow> (c # l, r))"

lemma fgets_length: "fgets n s = (l, r) \<Longrightarrow> length l + length r = length s"
  by (induction n s arbitrary: l r rule: fgets.induct) (auto split: if_splits prod.splits)

lemma fgets_shorter: "fgets n s = (l, r) \<Longrightarrow> l \<noteq> [] \<Longrightarrow> length r < length s"
  using fgets_length[of n s l r] by (cases l) auto

definition rule_delims :: string where "rule_delims = [CHR 0x0A, CHR 0x09, CHR 0x0D, CHR '' '']"

text \<open>
  One line. A rule with more than \<open>MAXRULEWORDS\<close> words is reported with what \<open>strtok\<close> has left of
  the line, its first word.
\<close>

definition rule_line :: "kernel \<Rightarrow> string \<Rightarrow> int \<Rightarrow> ifc \<Rightarrow> world \<Rightarrow> world" where
  "rule_line K buf ln g w =
     (if buf \<noteq> [] \<and> (hd buf = CHR ''#'' \<or> hd buf = CHR 0x0A) then w
      else let ws = strtok_words rule_delims buf in
        if length ws > MAXRULEWORDS then
          warnx ''invalid rule: %d: %s ...\<newline>'' [AI ln, AS (takeWhile (\<lambda>c. c \<in> set rule_delims) buf @ hd ws)] w
        else snd (bridge_rule K ws ln g w))"

function rule_lines :: "kernel \<Rightarrow> string \<Rightarrow> int \<Rightarrow> ifc \<Rightarrow> world \<Rightarrow> world" where
  "rule_lines K s ln g w =
     (if s = [] then w
      else case fgets 1024 s of (l, r) \<Rightarrow>
        if l = [] then w
        else rule_lines K r (ln + 1) g (rule_line K (takeWhile (\<lambda>c. c \<noteq> CHR 0x00) l) (ln + 1) g w))"
  by pat_completeness auto
termination
  by (relation "measure (\<lambda>(K, s, ln, g, w). length s)") (auto dest!: fgets_shorter[OF sym])

declare rule_lines.simps [simp del]

definition bridge_rulefile :: "kernel \<Rightarrow> string \<Rightarrow> int \<Rightarrow> ifc \<Rightarrow> world \<Rightarrow> ifc outcome" where
  "bridge_rulefile K fname d g w =
     (case fopen K fname w of
        (None, w1) \<Rightarrow> err K ''%s'' [AS fname] w1
      | (Some s, w1) \<Rightarrow> Ok g (emit (EvFclose fname) (rule_lines K s 0 g w1)))"

end
