(* ===== verification/Gate.thy ===== *)
theory Gate
  imports Ifc_Addr Ifc_Media Ifc_Pseudo Ifc_Bridge
begin

text \<open>
  The bridge between the daemon and the configuration library (\<open>ifconfigd/ifconfigd.c\<close>): the
  command table \<open>cmds\<close> and \<open>ifconfig_gate\<close>, which interprets an argument vector for one
  interface. Pointers are explicit here, because callers hand over vectors that hold null and
  meaningless pointers. The lemmas follow a
  single command from the table to the request the kernel sees.
\<close>

section \<open>The command table\<close>

type_synonym handler1 = "string \<Rightarrow> int \<Rightarrow> ifc \<Rightarrow> world \<Rightarrow> ifc outcome"
type_synonym handler2 = "string \<Rightarrow> string \<Rightarrow> ifc \<Rightarrow> world \<Rightarrow> ifc outcome"

text \<open>\<open>c_func\<close> or \<open>c_func2\<close>: an entry has one of them, the other is null.\<close>

datatype cfun = F1 handler1 | F2 handler2

type_synonym cmd = "string \<times> int \<times> u32 \<times> cfun"

definition NEXTARG0 :: int where "NEXTARG0 = 0xffffff"
definition NEXTARG :: int where "NEXTARG = 0xfffffe"
definition NEXTARG2 :: int where "NEXTARG2 = 0xfffffd"

lemmas nextarg_defs = NEXTARG0_def NEXTARG_def NEXTARG2_def

definition cmds_basic :: "kernel \<Rightarrow> netdb \<Rightarrow> cmd list" where
  "cmds_basic K N = [
     (''up'', 1, 0, F1 (setifflags K)),
     (''down'', - 1, 0, F1 (setifflags K)),
     (''arp'', - 128, 0, F1 (setifflags K)),
     (''-arp'', 128, 0, F1 (setifflags K)),
     (''debug'', 4, 0, F1 (setifflags K)),
     (''-debug'', - 4, 0, F1 (setifflags K)),
     (''alias'', 1, 0, F1 notealias),
     (''-alias'', - 1, 0, F1 notealias),
     (''delete'', - 1, 0, F1 notealias),
     (''netmask'', NEXTARG, 0, F1 (setifnetmask N)),
     (''mtu'', NEXTARG, 0, F1 (setifmtu K)),
     (''nwid'', NEXTARG, 0, F1 (setifnwid K)),
     (''-nwid'', - 1, 0, F1 (setifnwid K)),
     (''bssid'', NEXTARG, 0, F1 (setifbssid K)),
     (''-bssid'', - 1, 0, F1 (setifbssid K)),
     (''nwkey'', NEXTARG, 0, F1 (setifnwkey K)),
     (''-nwkey'', - 1, 0, F1 (setifnwkey K)),
     (''wpa'', 1, 0, F1 (setifwpa K)),
     (''-wpa'', 0, 0, F1 (setifwpa K)),
     (''wpaakms'', NEXTARG, 0, F1 (setifwpaakms K)),
     (''wpaciphers'', NEXTARG, 0, F1 (setifwpaciphers K)),
     (''wpagroupcipher'', NEXTARG, 0, F1 (setifwpagroupcipher K)),
     (''wpaprotos'', NEXTARG, 0, F1 (setifwpaprotos K)),
     (''wpakey'', NEXTARG, 0, F1 (setifwpakey K)),
     (''-wpakey'', - 1, 0, F1 (setifwpakey K)),
     (''chan'', NEXTARG0, 0, F1 (\<lambda>v. setifchan K (Some v))),
     (''-chan'', - 1, 0, F1 (\<lambda>v. setifchan K (Some v))),
     (''scan'', NEXTARG0, 0, F1 setifscan),
     (''broadcast'', NEXTARG, 0, F1 (setifbroadaddr N)),
     (''prefixlen'', NEXTARG, 0, F1 setifprefixlen),
     (''vlan'', NEXTARG, 0, F1 (setvlantag K)),
     (''vlandev'', NEXTARG, 0, F1 (setvlandev K)),
     (''-vlandev'', 1, 0, F1 (unsetvlandev K))]"

definition cmds_ext :: "kernel \<Rightarrow> netdb \<Rightarrow> cmd list" where
  "cmds_ext K N = [
     (''group'', NEXTARG, 0, F1 (setifgroup K)),
     (''-group'', NEXTARG, 0, F1 (unsetifgroup K)),
     (''trailers'', - 1, 0, F1 notrailers),
     (''-trailers'', 1, 0, F1 notrailers),
     (''metric'', NEXTARG, 0, F1 (setifmetric K)),
     (''powersave'', NEXTARG0, 0, F1 (\<lambda>v. setifpowersave K (Some v))),
     (''-powersave'', - 1, 0, F1 (\<lambda>v. setifpowersave K (Some v))),
     (''priority'', NEXTARG, 0, F1 (setifpriority K)),
     (''rtlabel'', NEXTARG, 0, F1 (setifrtlabel K)),
     (''-rtlabel'', - 1, 0, F1 (setifrtlabel K)),
     (''rdomain'', NEXTARG, 0, F1 (setinstance K)),
     (''range'', NEXTARG, 0, F1 setatrange),
     (''phase'', NEXTARG, 0, F1 setatphase),
     (''mpls'', 8, 0, F1 (setifxflags K)),
     (''-mpls'', - 8, 0, F1 (setifxflags K)),
     (''mplslabel'', NEXTARG, 0, F1 (setmpelabel K)),
     (''advbase'', NEXTARG, 0, F1 (setcarp_advbase K)),
     (''advskew'', NEXTARG, 0, F1 (setcarp_advskew K)),
     (''carppeer'', NEXTARG, 0, F1 (setcarppeer K N)),
     (''-carppeer'', 1, 0, F1 (unsetcarppeer K)),
     (''pass'', NEXTARG, 0, F1 (setcarp_passwd K)),
     (''vhid'', NEXTARG, 0, F1 (setcarp_vhid K)),
     (''vlanprio'', NEXTARG, 0, F1 (setvlanprio K)),
     (''state'', NEXTARG, 0, F1 (setcarp_state K)),
     (''carpdev'', NEXTARG, 0, F1 (setcarpdev K)),
     (''carpnodes'', NEXTARG, 0, F1 (setcarp_nodes K)),
     (''balancing'', NEXTARG, 0, F1 (setcarp_balancing K)),
     (''-carpdev'', 1, 0, F1 (unsetcarpdev K)),
     (''syncdev'', NEXTARG, 0, F1 (setpfsync_syncdev K)),
     (''-syncdev'', 1, 0, F1 (unsetpfsync_syncdev K)),
     (''syncif'', NEXTARG, 0, F1 (setpfsync_syncdev K)),
     (''-syncif'', 1, 0, F1 (unsetpfsync_syncdev K)),
     (''syncpeer'', NEXTARG, 0, F1 (setpfsync_syncpeer K N)),
     (''-syncpeer'', 1, 0, F1 (unsetpfsync_syncpeer K)),
     (''maxupd'', NEXTARG, 0, F1 (setpfsync_maxupd K)),
     (''defer'', 1, 0, F1 (setpfsync_defer K)),
     (''-defer'', 0, 0, F1 (setpfsync_defer K)),
     (''giftunnel'', NEXTARG2, 0, F2 (settunnel K N)),
     (''tunnel'', NEXTARG2, 0, F2 (settunnel K N)),
     (''deletetunnel'', 0, 0, F1 (deletetunnel K)),
     (''tunneldomain'', NEXTARG, 0, F1 (settunnelinst K)),
     (''pppoedev'', NEXTARG, 0, F1 (setpppoe_dev K)),
     (''pppoesvc'', NEXTARG, 0, F1 (setpppoe_svc K)),
     (''-pppoesvc'', 1, 0, F1 (setpppoe_svc K)),
     (''pppoeac'', NEXTARG, 0, F1 (setpppoe_ac K)),
     (''-pppoeac'', 1, 0, F1 (setpppoe_ac K)),
     (''timeslot'', NEXTARG, 0, F1 (settimeslot K)),
     (''txpower'', NEXTARG, 0, F1 (setiftxpower K)),
     (''-txpower'', 1, 0, F1 (setiftxpower K)),
     (''trunkport'', NEXTARG, 0, F1 (settrunkport K)),
     (''-trunkport'', NEXTARG, 0, F1 (unsettrunkport K)),
     (''trunkproto'', NEXTARG, 0, F1 (settrunkproto K)),
     (''authproto'', NEXTARG, 0, F1 (setspppproto K)),
     (''authname'', NEXTARG, 0, F1 (setspppname K)),
     (''authkey'', NEXTARG, 0, F1 (setspppkey K)),
     (''peerproto'', NEXTARG, 0, F1 (setsppppeerproto K)),
     (''peername'', NEXTARG, 0, F1 (setsppppeername K)),
     (''peerkey'', NEXTARG, 0, F1 (setsppppeerkey K)),
     (''peerflag'', NEXTARG, 0, F1 (setsppppeerflag K)),
     (''-peerflag'', NEXTARG, 0, F1 (unsetsppppeerflag K)),
     (''nwflag'', NEXTARG, 0, F1 (setifnwflag K)),
     (''-nwflag'', NEXTARG, 0, F1 (unsetifnwflag K)),
     (''flowsrc'', NEXTARG, 0, F1 (setpflow_sender K N)),
     (''-flowsrc'', 1, 0, F1 (unsetpflow_sender K)),
     (''flowdst'', NEXTARG, 0, F1 (setpflow_receiver K N)),
     (''-flowdst'', 1, 0, F1 (unsetpflow_receiver K)),
     (''-inet6'', 2, 0, F1 (setifxflags K)),
     (''add'', NEXTARG, 0, F1 (bridge_add K)),
     (''del'', NEXTARG, 0, F1 (bridge_delete K)),
     (''addspan'', NEXTARG, 0, F1 (bridge_addspan K)),
     (''delspan'', NEXTARG, 0, F1 (bridge_delspan K)),
     (''discover'', NEXTARG, 0, F1 (setdiscover K)),
     (''-discover'', NEXTARG, 0, F1 (unsetdiscover K)),
     (''blocknonip'', NEXTARG, 0, F1 (setblocknonip K)),
     (''-blocknonip'', NEXTARG, 0, F1 (unsetblocknonip K)),
     (''learn'', NEXTARG, 0, F1 (setlearn K)),
     (''-learn'', NEXTARG, 0, F1 (unsetlearn K)),
     (''stp'', NEXTARG, 0, F1 (setstp K)),
     (''-stp'', NEXTARG, 0, F1 (unsetstp K)),
     (''edge'', NEXTARG, 0, F1 (setedge K)),
     (''-edge'', NEXTARG, 0, F1 (unsetedge K)),
     (''autoedge'', NEXTARG, 0, F1 (setautoedge K)),
     (''-autoedge'', NEXTARG, 0, F1 (unsetautoedge K)),
     (''ptp'', NEXTARG, 0, F1 (setptp K)),
     (''-ptp'', NEXTARG, 0, F1 (unsetptp K)),
     (''autoptp'', NEXTARG, 0, F1 (setautoptp K)),
     (''-autoptp'', NEXTARG, 0, F1 (unsetautoptp K)),
     (''flush'', 0, 0, F1 (bridge_flush K)),
     (''flushall'', 0, 0, F1 (bridge_flushall K)),
     (''static'', NEXTARG2, 0, F2 (bridge_addaddr K)),
     (''deladdr'', NEXTARG, 0, F1 (bridge_deladdr K)),
     (''maxaddr'', NEXTARG, 0, F1 (bridge_maxaddr K)),
     (''addr'', 0, 0, F1 (bridge_addrs K)),
     (''hellotime'', NEXTARG, 0, F1 (bridge_hellotime K)),
     (''fwddelay'', NEXTARG, 0, F1 (bridge_fwddelay K)),
     (''maxage'', NEXTARG, 0, F1 (bridge_maxage K)),
     (''proto'', NEXTARG, 0, F1 (bridge_proto K)),
     (''ifpriority'', NEXTARG2, 0, F2 (bridge_ifprio K)),
     (''ifcost'', NEXTARG2, 0, F2 (bridge_ifcost K)),
     (''-ifcost'', NEXTARG, 0, F1 (bridge_noifcost K)),
     (''timeout'', NEXTARG, 0, F1 (bridge_timeout K)),
     (''holdcnt'', NEXTARG, 0, F1 (bridge_holdcnt K)),
     (''spanpriority'', NEXTARG, 0, F1 (bridge_priority K)),
     (''ipdst'', NEXTARG, 0, F1 (setifipdst N)),
     (''rules'', NEXTARG, 0, F1 (bridge_rules K)),
     (''rulefile'', NEXTARG, 0, F1 (bridge_rulefile K)),
     (''flushrule'', NEXTARG, 0, F1 (bridge_flushrule K)),
     (''description'', NEXTARG, 0, F1 (setifdesc K)),
     (''descr'', NEXTARG, 0, F1 (setifdesc K)),
     (''-description'', 1, 0, F1 (unsetifdesc K)),
     (''-descr'', 1, 0, F1 (unsetifdesc K)),
     (''wol'', 16, 0, F1 (setifxflags K)),
     (''-wol'', - 16, 0, F1 (setifxflags K))]"

definition cmds_rest :: "kernel \<Rightarrow> netdb \<Rightarrow> cmd list" where
  "cmds_rest K N = [
     (''destroy'', 0, 0, F1 (clone_destroy K)),
     (''link0'', 4096, 0, F1 (setifflags K)),
     (''-link0'', - 4096, 0, F1 (setifflags K)),
     (''link1'', 8192, 0, F1 (setifflags K)),
     (''-link1'', - 8192, 0, F1 (setifflags K)),
     (''link2'', 16384, 0, F1 (setifflags K)),
     (''-link2'', - 16384, 0, F1 (setifflags K)),
     (''media'', NEXTARG0, A_MEDIA, F1 (\<lambda>v. setmedia K (Some v))),
     (''mediaopt'', NEXTARG, A_MEDIAOPTSET, F1 (setmediaopt K)),
     (''-mediaopt'', NEXTARG, A_MEDIAOPTCLR, F1 (unsetmediaopt K)),
     (''mode'', NEXTARG, A_MEDIAMODE, F1 (setmediamode K)),
     (''instance'', NEXTARG, A_MEDIAINST, F1 (setmediainst K)),
     (''inst'', NEXTARG, A_MEDIAINST, F1 (setmediainst K)),
     (''lladdr'', NEXTARG, 0, F1 (setiflladdr K N))]"

definition cmds :: "kernel \<Rightarrow> netdb \<Rightarrow> cmd list" where
  "cmds K N = cmds_basic K N @ cmds_ext K N @ cmds_rest K N"

text \<open>The search: the first entry with the name, else the unnamed entry for addresses.\<close>

definition find_cmd :: "kernel \<Rightarrow> netdb \<Rightarrow> string \<Rightarrow> int \<times> u32 \<times> cfun" where
  "find_cmd K N a =
     (case map_of (cmds K N) a of Some c \<Rightarrow> c | None \<Rightarrow> (0, 0, F1 (setifaddr N)))"

section \<open>The gate\<close>

definition quoted_s :: string where "quoted_s = [CHR 0x27] @ ''%s'' @ [CHR 0x27]"

datatype cptr = Null | Wild | Str string

fun call1 :: "cfun \<Rightarrow> string \<Rightarrow> int \<Rightarrow> ifc \<Rightarrow> world \<Rightarrow> ifc outcome" where
  "call1 (F1 f) a d g w = f a d g w"
| "call1 (F2 f) a d g w = Undef ''call of a null function pointer'' w"

fun call2 :: "cfun \<Rightarrow> string \<Rightarrow> string \<Rightarrow> ifc \<Rightarrow> world \<Rightarrow> ifc outcome" where
  "call2 (F2 f) a b g w = f a b g w"
| "call2 (F1 f) a b g w = Undef ''call of a null function pointer'' w"

definition note_action :: "u32 \<Rightarrow> ifc \<Rightarrow> ifc" where
  "note_action a g = g\<lparr>actions := actions g OR A_SILENT OR a\<rparr>"

text \<open>
  The loop over the vector. The vector is the whole array the caller passed; \<open>argc\<close> says how
  many of its elements count. The arguments of a command are read whether they count or not.
\<close>

fun gate_loop ::
  "kernel \<Rightarrow> netdb \<Rightarrow> nat \<Rightarrow> cptr list \<Rightarrow> ifc \<Rightarrow> world \<Rightarrow> ifc outcome" where
  "gate_loop K N 0 argv g w = Ok g w"
| "gate_loop K N (Suc n) (Str a # rest) g w =
     (case find_cmd K N a of (par, act, f) \<Rightarrow>
        if par = NEXTARG then
          (case rest of
             Null # _ \<Rightarrow> errx (quoted_s @ '' requires argument'') [AS a] w
           | Str b # rest' \<Rightarrow>
               andthen (call1 f b 0 g w) (\<lambda>g1. gate_loop K N (n - 1) rest' (note_action act g1))
           | _ \<Rightarrow> Undef ''ifconfig_gate: argv[1]'' w)
        else if par = NEXTARG2 then
          (case rest of
             Str b # Str c # rest' \<Rightarrow>
               andthen (call2 f b c g w) (\<lambda>g1. gate_loop K N (n - 2) rest' g1)
           | Null # _ \<Rightarrow> errx (quoted_s @ '' requires 2 arguments'') [AS a] w
           | Str b # Null # _ \<Rightarrow> errx (quoted_s @ '' requires 2 arguments'') [AS a] w
           | _ \<Rightarrow> Undef ''ifconfig_gate: argv[2]'' w)
        else
          andthen (call1 f a par g w) (\<lambda>g1. gate_loop K N n rest (note_action act g1)))"
| "gate_loop K N (Suc n) argv g w = Undef ''ifconfig_gate: *argv'' w"

fun difaddr_arg :: "ifc \<Rightarrow> afswtch \<Rightarrow> ioarg" where
  "difaddr_arg g AF_inet = IoAddr (rid_addr (inreq g))"
| "difaddr_arg g AF_atalk = IoAt (s_net (atreq g)) (s_node (atreq g))"

fun aifaddr_arg :: "ifc \<Rightarrow> afswtch \<Rightarrow> ioarg" where
  "aifaddr_arg g AF_inet = IoAlias (ifra_addr (inreq g)) (ifra_mask (inreq g)) (ifra_broadaddr (inreq g))"
| "aifaddr_arg g AF_atalk = IoAt (s_net (atreq g)) (s_node (atreq g))"

text \<open>The address requests that end a command line.\<close>

definition gate_addr :: "kernel \<Rightarrow> afswtch option \<Rightarrow> ifc \<Rightarrow> world \<Rightarrow> ifc outcome" where
  "gate_addr K rafp g w =
     andthen
       (if clearaddr g \<noteq> 0 then
          (case rafp of
             None \<Rightarrow> Undef ''ifconfig_gate: rafp'' w
           | Some r \<Rightarrow>
               (case ioctl K (sock g) SIOCDIFADDR (name_of g) (difaddr_arg g r) w of
                  (None, w1) \<Rightarrow>
                    if errno w1 = EADDRNOTAVAIL \<and> doalias g \<ge> 0 then Ok () w1 else err K ''SIOCDIFADDR'' [] w1
                | (Some _, w1) \<Rightarrow> Ok () w1))
        else Ok () w)
       (\<lambda>_ w1.
          if newaddr g \<noteq> 0 then
            (case rafp of
               None \<Rightarrow> Undef ''ifconfig_gate: rafp'' w1
             | Some r \<Rightarrow>
                 andthen (ioctl_err K g SIOCAIFADDR (name_of g) (aifaddr_arg g r) ''SIOCAIFADDR'' w1) (\<lambda>_. Ok g))
          else Ok g w1)"

text \<open>The optional address family at the front of the vector.\<close>

definition gate_family :: "nat \<Rightarrow> cptr list \<Rightarrow> ifc \<Rightarrow> (nat \<times> cptr list \<times> afswtch option \<times> ifc) option" where
  "gate_family argc argv g =
     (if argc = 0 then Some (argc, argv, None, g)
      else case argv of
        Str a # rest \<Rightarrow>
          (case map_of afs a of
             Some r \<Rightarrow> Some (argc - 1, rest, Some r, g\<lparr>afp := r, af := af_af r\<rparr>)
           | None \<Rightarrow> Some (argc, argv, Some AF_inet, g\<lparr>afp := AF_inet, af := af_af AF_inet\<rparr>))
      | _ \<Rightarrow> None)"

text \<open>\<open>sizeof(iface)\<close> is the size of the pointer.\<close>

definition ifconfig_gate ::
  "kernel \<Rightarrow> netdb \<Rightarrow> nat \<Rightarrow> cptr list \<Rightarrow> cptr \<Rightarrow> ifc \<Rightarrow> world \<Rightarrow> ifc outcome" where
  "ifconfig_gate K N argc argv iface g w =
     (case iface of
        Str i \<Rightarrow>
          (case strlcpy i ptrsize of (nm, l) \<Rightarrow>
           let g1 = g\<lparr>ifname := nm\<rparr> in
           if l \<ge> IFNAMSIZ then errx (''interface name '' @ quoted_s @ '' too long'') [AS i] w
           else case gate_family argc argv g1 of
             None \<Rightarrow> Undef ''ifconfig_gate: *argv'' w
           | Some (n, rest, rafp, g2) \<Rightarrow>
               let g3 = g2\<lparr>ifr_name := fst (strlcpy i IFNAMSIZ)\<rparr> in
               andthen (getinfo K (ifr_name g3) False g3 w) (\<lambda>(_, g4) w1.
                 andthen (gate_loop K N n rest g4 w1) (\<lambda>g5 w2.
                   case process_media_commands K g5 w2 of (g6, w3) \<Rightarrow> gate_addr K rafp g6 w3)))
      | _ \<Rightarrow> Undef ''ifconfig_gate: iface'' w)"

section \<open>Lemmas\<close>

text \<open>A kernel that grants every request; descriptors are never negative.\<close>

definition granting :: "kernel \<Rightarrow> bool" where
  "granting K \<longleftrightarrow> (\<forall>t. \<exists>r. k_ioctl K t = Inr r) \<and> (\<forall>t. \<exists>n. k_int K t = Inr n)"

lemma ioctl_granted:
  "granting K \<Longrightarrow> \<exists>r. ioctl K fd c n a w = (Some r, emit (EvIoctl fd c n a) w) \<and>
     k_ioctl K (EvIoctl fd c n a # trace w) = Inr r"
proof -
  assume "granting K"
  then obtain r where "k_ioctl K (EvIoctl fd c n a # trace w) = Inr r" by (auto simp: granting_def)
  then show ?thesis by (simp add: ioctl_def Let_def)
qed

lemma ioctl_err_granted:
  "granting K \<Longrightarrow> \<exists>r. ioctl_err K g c n a m w = Ok r (emit (EvIoctl (sock g) c n a) w) \<and>
     k_ioctl K (EvIoctl (sock g) c n a # trace w) = Inr r"
  using ioctl_granted[of K "sock g" c n a w] by (auto simp: ioctl_err_Ok)

text \<open>What the socket and the queries of \<open>getinfo\<close> may change.\<close>

definition same_but_info :: "ifc \<Rightarrow> ifc \<Rightarrow> bool" where
  "same_but_info g g' \<longleftrightarrow> (\<exists>s oa f x m t d. g' = g\<lparr>sock := s, oaf := oa, flags := f, xflags := x,
     metric := m, mtu := t, rdomainid := d\<rparr>)"

lemma same_but_info_fields:
  assumes "same_but_info g g'"
  shows "ifname g' = ifname g" "ifr_name g' = ifr_name g" "af g' = af g" "afp g' = afp g"
    "setaddr g' = setaddr g" "doalias g' = doalias g" "clearaddr g' = clearaddr g"
    "newaddr g' = newaddr g" "actions g' = actions g" "inreq g' = inreq g" "atreq g' = atreq g"
    "med g' = med g"
  using assms by (auto simp: same_but_info_def)

definition extends :: "world \<Rightarrow> world \<Rightarrow> bool" where
  "extends w w' \<longleftrightarrow> (\<exists>es. trace w' = es @ trace w)"

lemma extends_refl [simp]: "extends w w"
  by (simp add: extends_def)

lemma extends_trans [trans]: "extends a b \<Longrightarrow> extends b c \<Longrightarrow> extends a c"
  by (auto simp: extends_def)

lemma extends_simps [simp]: "extends w (emit e w)" "extends w (set_errno x w)" "extends w (close_fd f w)"
  by (simp_all add: extends_def)

lemma extends_ioctl: "ioctl K fd c n a w = (r, w') \<Longrightarrow> extends w w'"
  by (auto simp: extends_def dest!: ioctl_cases)

lemma extends_query: "query K g c n w = (r, w') \<Longrightarrow> extends w w'"
  by (auto simp: query_def dest!: extends_ioctl split: prod.splits option.splits)

lemma extends_is_bridge: "is_bridge K g b w = (r, w') \<Longrightarrow> extends w w'"
  by (auto simp: is_bridge_def Let_def dest!: extends_ioctl intro: extends_trans split: prod.splits option.splits)

text \<open>\<open>getinfo\<close> always returns with a granting kernel, and only fills in what it is meant to.\<close>

lemma getsock_granted:
  assumes "granting K" "oaf g = naf \<longrightarrow> sock g \<ge> 0"
  shows "\<exists>s w'. getsock K naf g w = (g\<lparr>sock := s, oaf := naf\<rparr>, w') \<and> s \<ge> 0 \<and> extends w w'"
proof (cases "oaf g = naf")
  case True
  then have "g = g\<lparr>sock := sock g, oaf := naf\<rparr>" by simp
  with True assms(2) show ?thesis by (metis getsock_def extends_refl)
next
  case False
  let ?w = "if oaf g \<noteq> - 1 then close_fd (sock g) w else w"
  obtain n where "k_int K (EvDgram naf # trace ?w) = Inr n" using assms(1) by (auto simp: granting_def)
  then have "getsock K naf g w = (g\<lparr>sock := int n, oaf := naf\<rparr>, emit (EvDgram naf) ?w)"
    using False by (simp add: getsock_def Let_def sys_int_def split: sum.split)
  moreover have "extends w (emit (EvDgram naf) ?w)" by (simp add: extends_def)
  ultimately show ?thesis by (intro exI[of _ "int n"]) simp
qed

lemma getinfo_granted:
  assumes K: "granting K" and s: "oaf g = af g \<longrightarrow> sock g \<ge> 0" and ne: "ifname g \<noteq> []"
  shows "\<exists>r g' w'. getinfo K n False g w = Ok (r, g') w' \<and> same_but_info g g' \<and> extends w w' \<and> sock g' \<ge> 0"
proof -
  obtain s1 w1 where gs: "getsock K (af g) g w = (g\<lparr>sock := s1, oaf := af g\<rparr>, w1)" "s1 \<ge> 0" "extends w w1"
    using getsock_granted[OF K s] by blast
  let ?g1 = "g\<lparr>sock := s1, oaf := af g\<rparr>"
  have g1: "same_but_info g ?g1"
    unfolding same_but_info_def by (cases g) (simp; intro exI; rule refl)
  show ?thesis
  proof (cases "isdigit (last (ifname g))")
    case False
    with gs g1 ne show ?thesis by (auto simp: getinfo_def)
  next
    case True
    obtain r2 w2 where fl: "getinfo_flags K ?g1 n False w1 = (Some r2, w2)" "extends w1 w2"
      using ioctl_granted[OF K, of s1 SIOCGIFFLAGS n IoNone w1] by (auto simp: getinfo_flags_def)
    let ?g2 = "?g1\<lparr>flags := ucast (io_flags r2)\<rparr>"
    obtain x w3 where xf: "ioctl K (sock ?g2) SIOCGIFXFLAGS n IoNone w2 = (x, w3)" by fastforce
    let ?g3 = "?g2\<lparr>xflags := (case x of None \<Rightarrow> 0 | Some r \<Rightarrow> scast (io_flags r))\<rparr>"
    obtain m w4 where me: "query K ?g3 SIOCGIFMETRIC n w3 = (m, w4)" by fastforce
    obtain br w5 where ib: "is_bridge K ?g3 (ifname ?g3) w4 = (br, w5)" by fastforce
    obtain mt w6 where mt: "(if br then (0, w5) else query K ?g3 SIOCGIFMTU n w5) = (mt, w6)" by fastforce
    obtain rd w7 where rd: "query K ?g3 SIOCGIFRDOMAIN n w6 = (rd, w7)" by fastforce
    let ?g4 = "?g3\<lparr>metric := m, mtu := mt, rdomainid := rd\<rparr>"
    have eq: "getinfo K n False g w = Ok (0, ?g4) w7"
      using gs True ne fl xf me ib mt rd by (simp add: getinfo_def Let_def)
    have "extends w5 w6" using mt extends_query by (auto split: if_splits)
    with gs(3) fl(2) extends_ioctl[OF xf] extends_query[OF me] extends_is_bridge[OF ib] extends_query[OF rd]
    have "extends w w7" by (blast intro: extends_trans)
    moreover have "same_but_info g ?g4" unfolding same_but_info_def by blast
    ultimately show ?thesis using eq gs(2) by auto
  qed
qed

lemma find_cmd_basic:
  "find_cmd K N ''up'' = (1, 0, F1 (setifflags K))"
  "find_cmd K N ''down'' = (- 1, 0, F1 (setifflags K))"
  "find_cmd K N ''chan'' = (NEXTARG0, 0, F1 (\<lambda>v. setifchan K (Some v)))"
  "find_cmd K N ''nwid'' = (NEXTARG, 0, F1 (setifnwid K))"
  "find_cmd K N ''netmask'' = (NEXTARG, 0, F1 (setifnetmask N))"
  by (simp_all add: find_cmd_def cmds_def cmds_basic_def)

lemma find_cmd_address: "a \<notin> fst ` set (cmds K N) \<Longrightarrow> find_cmd K N a = (0, 0, F1 (setifaddr N))"
  by (simp add: find_cmd_def map_of_eq_None_iff[symmetric])

text \<open>The common start of a run of the gate, up to the loop.\<close>

lemma gate_start:
  assumes K: "granting K" and i: "i \<noteq> []" "length i < 16"
    and fam: "gate_family argc argv (g\<lparr>ifname := take 7 i\<rparr>) = Some (n, rest, rafp, g2)"
    and s: "oaf g2 = af g2 \<longrightarrow> sock g2 \<ge> 0" and nm: "ifname g2 = take 7 i"
  shows "\<exists>g4 w1. same_but_info (g2\<lparr>ifr_name := i\<rparr>) g4 \<and> extends w w1 \<and> sock g4 \<ge> 0 \<and>
     ifconfig_gate K N argc argv (Str i) g w =
       andthen (gate_loop K N n rest g4 w1) (\<lambda>g5 w2.
         case process_media_commands K g5 w2 of (g6, w3) \<Rightarrow> gate_addr K rafp g6 w3)"
proof -
  let ?g3 = "g2\<lparr>ifr_name := i\<rparr>"
  have "ifname ?g3 \<noteq> []" using nm i by (cases i) auto
  with getinfo_granted[OF K, of ?g3 i w] s obtain r g4 w1 where
    gi: "getinfo K i False ?g3 w = Ok (r, g4) w1" "same_but_info ?g3 g4" "extends w w1" "sock g4 \<ge> 0" by auto
  have "ifconfig_gate K N argc argv (Str i) g w =
       andthen (gate_loop K N n rest g4 w1) (\<lambda>g5 w2.
         case process_media_commands K g5 w2 of (g6, w3) \<Rightarrow> gate_addr K rafp g6 w3)"
    using i fam gi(1)
    by (simp add: ifconfig_gate_def strlcpy_def strlcpy_loop_take ptrsize_def IFNAMSIZ_def Let_def)
  with gi show ?thesis by blast
qed

text \<open>No media command: the media step does nothing.\<close>

lemma silent_keeps_media: "actions g AND 7 = 0 \<Longrightarrow> (actions g OR A_SILENT OR 0) AND (A_MEDIA OR A_MEDIAOPT) = 0"
proof -
  assume a: "actions g AND 7 = 0"
  have dist: "(x OR y) AND z = (x AND z) OR (y AND z)" for x y z :: u32
    by (rule bit_word_eqI) (auto simp: bit_simps)
  from a show ?thesis by (simp add: action_defs dist)
qed

lemma silent_keeps_7: "actions g AND 7 = 0 \<Longrightarrow> (actions g OR A_SILENT OR 0) AND 7 = 0"
  using silent_keeps_media[of g] by (simp add: action_defs)

lemma process_media_none: "actions g AND (A_MEDIA OR A_MEDIAOPT) = 0 \<Longrightarrow> process_media_commands K g w = (g, w)"
  by (simp add: process_media_commands_def)

lemma setifflags_granted:
  assumes "granting K"
  shows "\<exists>r. setifflags K a v g w =
      Ok (g\<lparr>flags := upd_flags (scast (io_flags r)) v\<rparr>)
        (emit (EvIoctl (sock g) SIOCSIFFLAGS (name_of g) (IoFlags (ucast (upd_flags (scast (io_flags r)) v))))
          (emit (EvIoctl (sock g) SIOCGIFFLAGS (ifr_name g) IoNone) w)) \<and>
      k_ioctl K (EvIoctl (sock g) SIOCGIFFLAGS (ifr_name g) IoNone # trace w) = Inr r"
proof -
  obtain r where r: "ioctl_err K g SIOCGIFFLAGS (ifr_name g) IoNone ''SIOCGIFFLAGS'' w =
      Ok r (emit (EvIoctl (sock g) SIOCGIFFLAGS (ifr_name g) IoNone) w)"
    "k_ioctl K (EvIoctl (sock g) SIOCGIFFLAGS (ifr_name g) IoNone # trace w) = Inr r"
    using ioctl_err_granted[OF assms] by blast
  let ?g1 = "g\<lparr>flags := upd_flags (scast (io_flags r)) v\<rparr>"
  have "name_of ?g1 = name_of g" by (simp add: name_of_def)
  with r ioctl_err_granted[OF assms, of ?g1 SIOCSIFFLAGS "name_of g" "IoFlags (ucast (flags ?g1))" "''SIOCSIFFLAGS''"
      "emit (EvIoctl (sock g) SIOCGIFFLAGS (ifr_name g) IoNone) w"]
  show ?thesis by (auto simp: setifflags_def Let_def)
qed

declare gate_loop.simps [simp del]

lemma gate_flags_loop:
  assumes K: "granting K" and c: "c = ''up'' \<or> c = ''down''"
    and g4: "same_but_info (g2\<lparr>ifr_name := i\<rparr>) g4" "ifname g2 = take 7 i"
  shows "\<exists>g5 w2 r f. gate_loop K N 1 [Str c] g4 w1 = Ok g5 w2 \<and> actions g5 = actions g2 OR A_SILENT OR 0 \<and>
     trace w2 = EvIoctl (sock g5) SIOCSIFFLAGS (take 7 i) (IoFlags f) #
       EvIoctl (sock g5) SIOCGIFFLAGS i IoNone # trace w1 \<and>
     k_ioctl K (EvIoctl (sock g5) SIOCGIFFLAGS i IoNone # trace w1) = Inr r \<and>
     (\<forall>n<16. bit f n \<longleftrightarrow> (if n = 0 then c = ''up'' else bit (io_flags r) n)) \<and>
     newaddr g5 = newaddr g2 \<and> clearaddr g5 = clearaddr g2 \<and> doalias g5 = doalias g2 \<and>
     inreq g5 = inreq g2 \<and> ifname g5 = take 7 i \<and> sock g5 = sock g4"
proof -
  define v :: int where "v = (if c = ''up'' then 1 else - 1)"
  have fc: "find_cmd K N c = (v, 0, F1 (setifflags K))" "v \<noteq> NEXTARG" "v \<noteq> NEXTARG2"
    using c by (auto simp: v_def find_cmd_basic nextarg_defs)
  obtain r where sf: "setifflags K c v g4 w1 =
      Ok (g4\<lparr>flags := upd_flags (scast (io_flags r)) v\<rparr>)
        (emit (EvIoctl (sock g4) SIOCSIFFLAGS (name_of g4) (IoFlags (ucast (upd_flags (scast (io_flags r)) v))))
          (emit (EvIoctl (sock g4) SIOCGIFFLAGS (ifr_name g4) IoNone) w1))"
    "k_ioctl K (EvIoctl (sock g4) SIOCGIFFLAGS (ifr_name g4) IoNone # trace w1) = Inr r"
    using setifflags_granted[OF K] by blast
  note f4 = same_but_info_fields[OF g4(1)]
  have nm: "name_of g4 = take 7 i" "ifr_name g4 = i"
    using f4 g4(2) by (simp_all add: name_of_take min_def)
  have "bit (ucast (upd_flags (scast (io_flags r)) v) :: u16) n \<longleftrightarrow>
      (if n = 0 then c = ''up'' else bit (io_flags r) n)" if "n < 16" for n
    unfolding upd_flags_short[OF that] v_def using c by (auto simp: bit_1_iff)
  with fc sf nm f4 g4(2) show ?thesis
    by (auto simp: note_action_def gate_loop.simps)
qed

text \<open>The address requests with a granting kernel: delete the old address, add the new one.\<close>

definition addr_events :: "ifc \<Rightarrow> event list" where
  "addr_events g =
     (if newaddr g \<noteq> 0 then [EvIoctl (sock g) SIOCAIFADDR (name_of g) (aifaddr_arg g AF_inet)] else []) @
     (if clearaddr g \<noteq> 0 then [EvIoctl (sock g) SIOCDIFADDR (name_of g) (difaddr_arg g AF_inet)] else [])"

lemma gate_addr_granted:
  assumes K: "granting K"
  shows "\<exists>w'. gate_addr K (Some AF_inet) g w = Ok g w' \<and> trace w' = addr_events g @ trace w"
proof -
  obtain r where r: "ioctl K (sock g) SIOCDIFADDR (name_of g) (difaddr_arg g AF_inet) w =
      (Some r, emit (EvIoctl (sock g) SIOCDIFADDR (name_of g) (difaddr_arg g AF_inet)) w)"
    using ioctl_granted[OF K] by blast
  let ?w1 = "if clearaddr g \<noteq> 0 then emit (EvIoctl (sock g) SIOCDIFADDR (name_of g) (difaddr_arg g AF_inet)) w else w"
  obtain q where "ioctl_err K g SIOCAIFADDR (name_of g) (aifaddr_arg g AF_inet) ''SIOCAIFADDR'' ?w1 =
      Ok q (emit (EvIoctl (sock g) SIOCAIFADDR (name_of g) (aifaddr_arg g AF_inet)) ?w1)"
    using ioctl_err_granted[OF K] by blast
  with r show ?thesis by (cases "clearaddr g = 0") (simp_all add: gate_addr_def addr_events_def)
qed

lemma gate_family_word:
  "map_of afs c = None \<Longrightarrow> gate_family (Suc n) (Str c # r) g = Some (Suc n, Str c # r, Some AF_inet, g\<lparr>afp := AF_inet, af := AF_INET\<rparr>)"
  "gate_family (Suc n) (Str ''inet'' # r) g = Some (n, r, Some AF_inet, g\<lparr>afp := AF_inet, af := AF_INET\<rparr>)"
  by (simp_all add: gate_family_def afs_def)

text \<open>The socket of the gate is open when it is the one of the family.\<close>

definition sock_ok :: "ifc \<Rightarrow> bool" where
  "sock_ok g \<longleftrightarrow> (oaf g = AF_INET \<longrightarrow> sock g \<ge> 0)"

lemma flags_word:
  assumes "\<forall>n<16. bit f n \<longleftrightarrow> (if n = 0 then b else bit r n)"
  shows "f = (if b then r OR 1 else r AND NOT (1 :: u16))"
  by (rule bit_word_eqI) (use assms in \<open>auto simp: bit_simps\<close>)

text \<open>A run with one \<open>up\<close> or \<open>down\<close>, in whatever state the globals are.\<close>

lemma gate_flags:
  assumes K: "granting K" and c: "c = ''up'' \<or> c = ''down''" and i: "i \<noteq> []" "length i < 16"
    and s: "sock_ok g" and m: "actions g AND 7 = 0"
  shows "\<exists>g' w' w1 r. ifconfig_gate K N 1 [Str c] (Str i) g w = Ok g' w' \<and> extends w w1 \<and>
     trace w' = addr_events g' @ EvIoctl (sock g') SIOCSIFFLAGS (take 7 i) 
         (IoFlags (if c = ''up'' then io_flags r OR 1 else io_flags r AND NOT 1)) #
       EvIoctl (sock g') SIOCGIFFLAGS i IoNone # trace w1 \<and>
     k_ioctl K (EvIoctl (sock g') SIOCGIFFLAGS i IoNone # trace w1) = Inr r \<and>
     newaddr g' = newaddr g \<and> clearaddr g' = clearaddr g \<and> inreq g' = inreq g \<and> ifname g' = take 7 i \<and>
     sock_ok g' \<and> actions g' AND 7 = 0"
proof -
  let ?g2 = "g\<lparr>ifname := take 7 i, afp := AF_inet, af := AF_INET\<rparr>"
  have fam: "gate_family 1 [Str c] (g\<lparr>ifname := take 7 i\<rparr>) = Some (1, [Str c], Some AF_inet, ?g2)"
    using c by (auto simp: gate_family_def afs_def)
  obtain g4 w1 where st: "same_but_info (?g2\<lparr>ifr_name := i\<rparr>) g4" "extends w w1" "sock g4 \<ge> 0"
    "ifconfig_gate K N 1 [Str c] (Str i) g w =
       andthen (gate_loop K N 1 [Str c] g4 w1) (\<lambda>g5 w2.
         case process_media_commands K g5 w2 of (g6, w3) \<Rightarrow> gate_addr K (Some AF_inet) g6 w3)"
    using gate_start[OF K i fam, where N = N and w = w] s unfolding sock_ok_def by simp blast
  obtain g5 w2 r f where lp: "gate_loop K N 1 [Str c] g4 w1 = Ok g5 w2"
    "actions g5 = actions g OR A_SILENT OR 0"
    "trace w2 = EvIoctl (sock g5) SIOCSIFFLAGS (take 7 i) (IoFlags f) #
       EvIoctl (sock g5) SIOCGIFFLAGS i IoNone # trace w1"
    "k_ioctl K (EvIoctl (sock g5) SIOCGIFFLAGS i IoNone # trace w1) = Inr r"
    "\<forall>n<16. bit f n \<longleftrightarrow> (if n = 0 then c = ''up'' else bit (io_flags r) n)"
    "newaddr g5 = newaddr g" "clearaddr g5 = clearaddr g" "inreq g5 = inreq g" "ifname g5 = take 7 i" "sock g5 = sock g4"
    using gate_flags_loop[OF K c st(1), of N w1] by auto
  have "process_media_commands K g5 w2 = (g5, w2)"
    using process_media_none[of g5] lp(2) silent_keeps_media[OF m] by simp
  moreover obtain w' where "gate_addr K (Some AF_inet) g5 w2 = Ok g5 w'" "trace w' = addr_events g5 @ trace w2"
    using gate_addr_granted[OF K] by blast
  ultimately show ?thesis using lp st(2,3,4) silent_keeps_7[OF m] flags_word[OF lp(5)]
    by (intro exI[of _ g5] exI[of _ w'] exI[of _ w1] exI[of _ r]) (simp add: sock_ok_def)
qed

text \<open>A run that gives an interface its static address.\<close>

lemma gate_static:
  assumes K: "granting K" and i: "i \<noteq> []" "length i < 16" and s: "sock_ok g"
    and g: "doalias g = 0" "actions g AND 7 = 0"
    and A: "A \<notin> fst ` set (cmds K N)" "CHR ''/'' \<notin> set A" "inet_aton A = Some a"
    and M: "inet_aton M = Some m"
  shows "\<exists>g' w' w1. ifconfig_gate K N 4 [Str ''inet'', Str A, Str ''netmask'', Str M] (Str i) g w = Ok g' w' \<and>
     extends w w1 \<and>
     trace w' = EvIoctl (sock g') SIOCAIFADDR (take 7 i) (IoAlias a m (ifra_broadaddr (inreq g))) #
       EvIoctl (sock g') SIOCDIFADDR (take 7 i) (IoAddr (rid_addr (inreq g))) # trace w1 \<and>
     newaddr g' = 1 \<and> clearaddr g' = 1 \<and> doalias g' = 0 \<and> sock_ok g' \<and> actions g' AND 7 = 0 \<and>
     inreq g' = (inreq g)\<lparr>ifra_addr := a, ifra_mask := m\<rparr>"
proof -
  let ?argv = "[Str ''inet'', Str A, Str ''netmask'', Str M]"
  let ?g2 = "g\<lparr>ifname := take 7 i, afp := AF_inet, af := AF_INET\<rparr>"
  have fam: "gate_family 4 ?argv (g\<lparr>ifname := take 7 i\<rparr>) = Some (3, tl ?argv, Some AF_inet, ?g2)"
    using gate_family_word(2)[of 3 "tl ?argv" "g\<lparr>ifname := take 7 i\<rparr>"] by simp
  obtain g4 w1 where st: "same_but_info (?g2\<lparr>ifr_name := i\<rparr>) g4" "extends w w1" "sock g4 \<ge> 0"
    "ifconfig_gate K N 4 ?argv (Str i) g w =
       andthen (gate_loop K N 3 (tl ?argv) g4 w1) (\<lambda>g5 w2.
         case process_media_commands K g5 w2 of (g6, w3) \<Rightarrow> gate_addr K (Some AF_inet) g6 w3)"
    using gate_start[OF K i fam, where N = N and w = w] s unfolding sock_ok_def by simp blast
  note f4 = same_but_info_fields[OF st(1)]
  define g5 where "g5 = g4\<lparr>setaddr := setaddr g4 + 1, newaddr := 1, clearaddr := 1,
     inreq := (inreq g)\<lparr>ifra_addr := a, ifra_mask := m\<rparr>, actions := actions g OR A_SILENT\<rparr>"
  have lp: "gate_loop K N 3 (tl ?argv) g4 w1 = Ok g5 w1"
    using A M f4 g(1) by (simp add: gate_loop.simps numeral_3_eq_3 find_cmd_address find_cmd_basic nextarg_defs
        setifaddr_def setifnetmask_def in_getaddr_def set_sin_def which_defs note_action_def Let_def g5_def)
  have "process_media_commands K g5 w1 = (g5, w1)"
    using process_media_none[of g5] silent_keeps_media[OF g(2)] by (simp add: g5_def)
  moreover obtain w' where "gate_addr K (Some AF_inet) g5 w1 = Ok g5 w'" "trace w' = addr_events g5 @ trace w1"
    using gate_addr_granted[OF K] by blast
  moreover have "name_of g5 = take 7 i" using f4 by (simp add: g5_def name_of_take min_def)
  ultimately show ?thesis using lp st(2,3,4) f4 g silent_keeps_7[OF g(2)]
    by (intro exI[of _ g5] exI[of _ w'] exI[of _ w1]) (simp add: addr_events_def, simp add: g5_def sock_ok_def)
qed

text \<open>The sample system meets what the properties ask for.\<close>

lemma sample_gate:
  "granting sample_kernel" "sock_ok sample_ifc" "actions sample_ifc = 0" "newaddr sample_ifc = 0"
  "clearaddr sample_ifc = 0" "doalias sample_ifc = 0"
  by (simp_all add: granting_def sample_kernel_def sock_ok_def sample_ifc_def AF_INET_def)

lemma sample_address: "inet_aton ''10.0.0.1'' = Some 0x0a000001"
  by code_simp

lemma sample_mask: "inet_aton ''255.0.0.0'' = Some 0xff000000"
  by code_simp

lemma sample_not_cmd: "''10.0.0.1'' \<notin> fst ` set (cmds sample_kernel sample_netdb)"
  by (simp add: cmds_def cmds_basic_def cmds_ext_def cmds_rest_def)

lemmas sample_addresses = sample_address sample_mask sample_not_cmd

section \<open>Properties\<close>

text \<open>
  (C19) One \<open>up\<close> or \<open>down\<close> on an interface, with no address left over in the globals: the gate
  returns, its last two requests read the flags of the named interface and write flags that
  differ from them at most in \<open>IFF_UP\<close>, which is set or cleared as asked. The write goes to the
  first seven characters of the name.
\<close>

theorem gate_updown:
  assumes "granting K" "c = ''up'' \<or> c = ''down''" "i \<noteq> []" "length i < 16"
    "sock_ok g" "actions g AND 7 = 0" "newaddr g = 0" "clearaddr g = 0"
  shows "\<exists>g' w' w1 r. ifconfig_gate K N 1 [Str c] (Str i) g w = Ok g' w' \<and> extends w w1 \<and>
     trace w' = EvIoctl (sock g') SIOCSIFFLAGS (take 7 i)
         (IoFlags (if c = ''up'' then io_flags r OR 1 else io_flags r AND NOT 1)) #
       EvIoctl (sock g') SIOCGIFFLAGS i IoNone # trace w1 \<and>
     k_ioctl K (EvIoctl (sock g') SIOCGIFFLAGS i IoNone # trace w1) = Inr r"
  using gate_flags[OF assms(1-6), of N w] assms(7,8) by (fastforce simp: addr_events_def)

theorem gate_updown_witness:
  "\<exists>g' w' w1 r. ifconfig_gate sample_kernel sample_netdb 1 [Str ''up''] (Str ''trunk10'') sample_ifc sample_world = Ok g' w' \<and>
     extends sample_world w1 \<and>
     trace w' = EvIoctl (sock g') SIOCSIFFLAGS (take 7 ''trunk10'')
         (IoFlags (if ''up'' = ''up'' then io_flags r OR 1 else io_flags r AND NOT 1)) #
       EvIoctl (sock g') SIOCGIFFLAGS ''trunk10'' IoNone # trace w1 \<and>
     k_ioctl sample_kernel (EvIoctl (sock g') SIOCGIFFLAGS ''trunk10'' IoNone # trace w1) = Inr r"
  by (rule gate_updown) (simp_all add: sample_gate)

text \<open>
  (C9) A static address, \<open>inet A netmask M\<close>: the gate returns, and its last two requests delete
  the address of the interface and then add \<open>A\<close> with the mask \<open>M\<close>.
\<close>

theorem gate_static_address:
  assumes "granting K" "i \<noteq> []" "length i < 16" "sock_ok g" "doalias g = 0" "actions g AND 7 = 0"
    "A \<notin> fst ` set (cmds K N)" "CHR ''/'' \<notin> set A" "inet_aton A = Some a" "inet_aton M = Some m"
  shows "\<exists>g' w' w1. ifconfig_gate K N 4 [Str ''inet'', Str A, Str ''netmask'', Str M] (Str i) g w = Ok g' w' \<and>
     extends w w1 \<and>
     trace w' = EvIoctl (sock g') SIOCAIFADDR (take 7 i) (IoAlias a m (ifra_broadaddr (inreq g))) #
       EvIoctl (sock g') SIOCDIFADDR (take 7 i) (IoAddr (rid_addr (inreq g))) # trace w1"
  using gate_static[OF assms, of w] by blast

theorem gate_static_address_witness:
  "\<exists>g' w' w1. ifconfig_gate sample_kernel sample_netdb 4
       [Str ''inet'', Str ''10.0.0.1'', Str ''netmask'', Str ''255.0.0.0''] (Str ''em0'') sample_ifc sample_world = Ok g' w' \<and>
     extends sample_world w1 \<and>
     trace w' = EvIoctl (sock g') SIOCAIFADDR (take 7 ''em0'') (IoAlias 0x0a000001 0xff000000 (ifra_broadaddr (inreq sample_ifc))) #
       EvIoctl (sock g') SIOCDIFADDR (take 7 ''em0'') (IoAddr (rid_addr (inreq sample_ifc))) # trace w1"
  by (rule gate_static_address) (simp_all add: sample_gate sample_addresses)

text \<open>
  (C36) The globals of the library survive a run of the gate: after a static address for one
  interface, bringing another interface up deletes the address of that one and gives it the
  address of the first.
\<close>

theorem gate_stale_address:
  assumes "granting K" "i \<noteq> []" "length i < 16" "sock_ok g" "doalias g = 0" "actions g AND 7 = 0"
    "A \<notin> fst ` set (cmds K N)" "CHR ''/'' \<notin> set A" "inet_aton A = Some a" "inet_aton M = Some m"
    and j: "j \<noteq> []" "length j < 16"
  shows "\<exists>g' w' g'' w'' w1.
     ifconfig_gate K N 4 [Str ''inet'', Str A, Str ''netmask'', Str M] (Str i) g w = Ok g' w' \<and>
     ifconfig_gate K N 1 [Str ''up''] (Str j) g' w' = Ok g'' w'' \<and> extends w' w1 \<and>
     trace w'' = EvIoctl (sock g'') SIOCAIFADDR (take 7 j) (IoAlias a m (ifra_broadaddr (inreq g))) #
       EvIoctl (sock g'') SIOCDIFADDR (take 7 j) (IoAddr (rid_addr (inreq g))) # trace w1"
proof -
  obtain g' w' where 1: "ifconfig_gate K N 4 [Str ''inet'', Str A, Str ''netmask'', Str M] (Str i) g w = Ok g' w'"
    "newaddr g' = 1" "clearaddr g' = 1" "sock_ok g'" "actions g' AND 7 = 0"
    "inreq g' = (inreq g)\<lparr>ifra_addr := a, ifra_mask := m\<rparr>"
    using gate_static[OF assms(1-10), of w] by blast
  obtain g'' w'' w1 r where 2: "ifconfig_gate K N 1 [Str ''up''] (Str j) g' w' = Ok g'' w''" "extends w' w1"
    "trace w'' = addr_events g'' @ EvIoctl (sock g'') SIOCSIFFLAGS (take 7 j) (IoFlags (io_flags r OR 1)) #
       EvIoctl (sock g'') SIOCGIFFLAGS j IoNone # trace w1"
    "newaddr g'' = newaddr g'" "clearaddr g'' = clearaddr g'" "inreq g'' = inreq g'" "ifname g'' = take 7 j"
    using gate_flags[OF assms(1) _ j 1(4,5), of "''up''" N w'] by auto
  let ?w = "emit (EvIoctl (sock g'') SIOCSIFFLAGS (take 7 j) (IoFlags (io_flags r OR 1))) (emit (EvIoctl (sock g'') SIOCGIFFLAGS j IoNone) w1)"
  have "extends w' ?w" using 2(2) by (auto simp: extends_def)
  with 1 2 show ?thesis
    by (intro exI[of _ g'] exI[of _ w'] exI[of _ g''] exI[of _ w''] exI[of _ ?w])
      (simp add: addr_events_def name_of_take min_def)
qed

theorem gate_stale_address_witness:
  "\<exists>g' w' g'' w'' w1.
     ifconfig_gate sample_kernel sample_netdb 4
       [Str ''inet'', Str ''10.0.0.1'', Str ''netmask'', Str ''255.0.0.0''] (Str ''em0'') sample_ifc sample_world = Ok g' w' \<and>
     ifconfig_gate sample_kernel sample_netdb 1 [Str ''up''] (Str ''iwn0'') g' w' = Ok g'' w'' \<and> extends w' w1 \<and>
     trace w'' = EvIoctl (sock g'') SIOCAIFADDR (take 7 ''iwn0'') (IoAlias 0x0a000001 0xff000000 (ifra_broadaddr (inreq sample_ifc))) #
       EvIoctl (sock g'') SIOCDIFADDR (take 7 ''iwn0'') (IoAddr (rid_addr (inreq sample_ifc))) # trace w1"
  by (rule gate_stale_address) (simp_all add: sample_gate sample_addresses)

end
