(* ===== verification/Monitor.thy ===== *)
theory Monitor
  imports Gate
begin

text \<open>
  The monitor of the privileged process: the configuration data of \<open>ifconfigd/ifconfigd.h\<close> and
  the functions of \<open>ifconfigd/ifconfigd.c\<close> that watch the interfaces, scan for wireless networks
  and connect. Character pointers are \<open>cptr\<close> values: null, a readable string, or a value that
  must not be dereferenced. The lemmas show what a scan returns, what a connection attempt asks
  of the kernel, and which of the paths cannot succeed.
\<close>

section \<open>Configuration\<close>

text \<open>
  The members \<open>name\<close> and \<open>interface\<close> are declared as arrays of pointers, but the program stores
  text in them; they are modelled by that text.
\<close>

record static_cfg =
  sc_inet :: "string option"
  sc_netmask :: "string option"
  sc_domainname :: "string option"
  sc_domainserver :: "string option"

record ethernet =
  eth_name :: string
  eth_interface :: string
  eth_priority :: int
  eth_isdhcp :: int
  eth_staticopts :: "static_cfg option"
  eth_lladdr :: "string option"
  eth_run_up :: "string option"
  eth_run_down :: "string option"

record wpa_cfg =
  wc_wpakey :: "string option"
  wc_wpagroupcipher :: "string option"
  wc_wpaciphers :: "string option"
  wc_wpaakms :: "string option"

record wireless =
  wl_name :: string
  wl_interface :: string
  wl_priority :: int
  wl_nwid :: "string option"
  wl_bssid :: "string option"
  wl_minsignal :: int
  wl_channel :: int
  wl_isdhcp :: int
  wl_staticopts :: "static_cfg option"
  wl_wpa :: "wpa_cfg option"
  wl_wep_nwkex :: "string option"
  wl_lladdr :: "string option"
  wl_run_up :: "string option"
  wl_run_down :: "string option"

record network =
  nw_name :: string
  nw_priority :: int
  ethernet_list :: "ethernet list"
  wireless_list :: "wireless list"

record ifconfigd_conf =
  network_list :: "network list"
  csock :: string
  upinterval :: int

text \<open>\<open>net_network\<close> of \<open>network.c\<close>: a zeroed network (552 bytes with its two list heads).\<close>

definition net_network :: "kernel \<Rightarrow> world \<Rightarrow> network outcome" where
  "net_network K w =
     (case alloc K 552 w of (ok, w1) \<Rightarrow>
        if ok then Ok \<lparr>nw_name = [], nw_priority = 0, ethernet_list = [], wireless_list = []\<rparr> w1
        else errx ''new_network: calloc'' [] w1)"

section \<open>Pointers\<close>

fun ptr :: "string option \<Rightarrow> cptr" where
  "ptr None = Null"
| "ptr (Some s) = Str s"

text \<open>
  \<open>interface[0]\<close>: the first eight bytes of the text, read as a pointer. The buffer is zeroed
  when it is allocated.
\<close>

definition interface0 :: "string \<Rightarrow> cptr" where
  "interface0 s = (if s = [] then Null else Wild)"

text \<open>
  Zeroing the first \<open>n\<close> bytes of an array of pointers. A pointer of which only some bytes are
  zeroed points nowhere.
\<close>

definition bzero_ptrs :: "nat \<Rightarrow> cptr list \<Rightarrow> cptr list" where
  "bzero_ptrs n v =
     map (\<lambda>k. if ptrsize * (k + 1) \<le> n then Null
              else if ptrsize * k < n then (if v ! k = Null then Null else Wild)
              else v ! k) [0..<length v]"

section \<open>Link state\<close>

definition name_matches :: "string \<Rightarrow> string \<Rightarrow> bool" where
  "name_matches oname n =
     (let nlen = length oname in
      if nlen \<noteq> 0 \<and> isdigit (oname ! (nlen - 1)) then oname = n
      else strncmp oname n nlen \<and> (case drop nlen n of [] \<Rightarrow> False | c # _ \<Rightarrow> isdigit c))"

text \<open>The loop over the interface list; without a match the function returns no value.\<close>

fun active_loop :: "kernel \<Rightarrow> string option \<Rightarrow> ifaddrs list \<Rightarrow> ifc \<Rightarrow> world \<Rightarrow> (cptr \<times> ifc) outcome" where
  "active_loop K oname [] g w = Ok (Wild, g) w"
| "active_loop K oname (ifa # r) g w =
     (if (case oname of None \<Rightarrow> False | Some n \<Rightarrow> \<not> name_matches n (ifa_name ifa))
      then active_loop K oname r g w
      else let nm = fst (strlcpy (ifa_name ifa) IFNAMSIZ); g1 = g\<lparr>ifname := nm, ifr_name := nm\<rparr> in
        if ifa_family ifa = AF_LINK then
          andthen (getinfo K nm False g1 w) (\<lambda>(_, g2).
            Ok (Str (get_linkstate (ifa_type ifa) (ifa_link_state ifa)), g2))
        else active_loop K oname r g1 w)"

definition active_check :: "kernel \<Rightarrow> cptr \<Rightarrow> ifc \<Rightarrow> world \<Rightarrow> (cptr \<times> ifc) outcome" where
  "active_check K ifn g w =
     andthen (case ifn of
          Null \<Rightarrow> Ok None w
        | Wild \<Rightarrow> Undef ''active_check: strdup(ifname)'' w
        | Str s \<Rightarrow> andthen (strdup K s w) (\<lambda>_. Ok (Some s)))
       (\<lambda>oname w1.
          case getifaddrs K w1 of
            (None, w2) \<Rightarrow> err K ''getifaddrs'' [] w2
          | (Some ifap, w2) \<Rightarrow> active_loop K oname ifap g w2)"

section \<open>Scanning\<close>

text \<open>The network name as a C string (the byte behind the array is padding, and zero).\<close>

definition nwid_str :: "ieee80211_nodereq \<Rightarrow> string" where
  "nwid_str n = map byte_char (takeWhile (\<lambda>b. b \<noteq> 0) (nr_nwid n))"

text \<open>The inner loop of the scan: the node once for every name it matches.\<close>

fun scan_names :: "ieee80211_nodereq \<Rightarrow> cptr list \<Rightarrow> ieee80211_nodereq list option" where
  "scan_names n [] = Some []"
| "scan_names n (Str s # r) =
     map_option (\<lambda>l. if nwid_str n = s then n # l else l) (scan_names n r)"
| "scan_names n (_ # r) = None"

fun scan_nodes :: "cptr list \<Rightarrow> ieee80211_nodereq list \<Rightarrow> ieee80211_nodereq list option" where
  "scan_nodes names [] = Some []"
| "scan_nodes names (n # ns) =
     (case (if nr_flags n AND 1 \<noteq> 0 then scan_names n names else Some []) of
        None \<Rightarrow> None
      | Some l \<Rightarrow> map_option (\<lambda>l'. l @ l') (scan_nodes names ns))"

text \<open>
  \<open>ieee80211_scan\<close> returns the matching nodes: the count is their number, the array \<open>resault\<close>
  their addresses. The nodes live in the frame of the scan; the model reads the values they had
  when it returned.
\<close>

definition ieee80211_scan ::
  "kernel \<Rightarrow> string \<Rightarrow> cptr list \<Rightarrow> ifc \<Rightarrow> world \<Rightarrow> (ieee80211_nodereq list \<times> ifc) outcome" where
  "ieee80211_scan K ifn nwid g w =
     (case strlcpy ifn ptrsize of (nm, l) \<Rightarrow>
      let g1 = g\<lparr>ifname := nm\<rparr> in
      if l \<ge> IFNAMSIZ then errx (''interface name '' @ quoted_s @ '' too long'') [AS ifn] w
      else
        let r = (case map_of afs ifn of Some r \<Rightarrow> r | None \<Rightarrow> AF_inet);
            g2 = g1\<lparr>afp := r, af := af_af r\<rparr>
        in andthen (getinfo K (fst (strlcpy ifn IFNAMSIZ)) False g2 w) (\<lambda>(_, g3) w1.
          case ioctl K (sock g3) SIOCS80211SCAN (name_of g3) IoNone w1 of (sr, w2) \<Rightarrow>
          let w3 = (if sr = None \<and> errno w2 = EPERM
                    then log_warn K (Some ''no permission to scan on %s'') [AS (ifname g3)] w2 else w2)
          in case ioctl K (sock g3) SIOCG80211ALLNODES (name_of g3) IoNone w3 of (nr, w4) \<Rightarrow>
          let w5 = (if nr = None then log_warn K (Some ''SIOCG80211ALLNODES'') [] w4 else w4);
              nodes = (case nr of None \<Rightarrow> [] | Some a \<Rightarrow> io_nodes a)
          in if nodes = [] then Ok ([], g3) w5
             else case scan_nodes nwid nodes of
               None \<Rightarrow> Undef ''ieee80211_scan: strcmp'' w5
             | Some l \<Rightarrow> Ok (l, g3) (emit (EvSleep 2) w5)))"

section \<open>Connecting\<close>

text \<open>The vector for a static address, starting from the array \<open>v\<close>, and its length.\<close>

definition static_todo :: "cptr list \<Rightarrow> static_cfg \<Rightarrow> cptr list \<times> nat" where
  "static_todo v so =
     (let v1 = bzero_ptrs 11 v;
          v2 = v1[0 := Str ''inet'', 1 := ptr (sc_inet so)];
          v3 = bzero_ptrs 11 v2
      in if sc_netmask so \<noteq> None then (v3[2 := Str ''netmask'', 3 := ptr (sc_netmask so)], 4)
         else (v3, 2))"

text \<open>
  \<open>execl\<close> and \<open>execle\<close>: on success the process image is gone, which is the end of the daemon.
  The calls pass no terminating null pointer; what the list ends with is the environment's
  business, as is the answer.
\<close>

definition exec_dhclient :: "kernel \<Rightarrow> string \<Rightarrow> world \<Rightarrow> unit outcome" where
  "exec_dhclient K ifn w =
     (case sys_ok K (EvExec [''/sbin/dhclient'', ''dhclient'', ''-d'', ''-q'', ifn]) w of
        (True, w1) \<Rightarrow> Exit 0 w1
      | (False, w1) \<Rightarrow> Ok () w1)"

definition connect_ethernet ::
  "kernel \<Rightarrow> netdb \<Rightarrow> ethernet \<Rightarrow> ifc \<Rightarrow> world \<Rightarrow> (int \<times> ifc) outcome" where
  "connect_ethernet K N eth g w =
     (if eth_isdhcp eth = 1 then
        andthen (exec_dhclient K (eth_interface eth)
            (log_info K ''init dhcp request on %s'' [AS (eth_interface eth)] w)) (\<lambda>_. Ok (0, g))
      else case eth_staticopts eth of
        None \<Rightarrow> Ok (- 1, g) w
      | Some so \<Rightarrow>
          (case static_todo (replicate 11 Wild) so of (todo, argc) \<Rightarrow>
           andthen (ifconfig_gate K N argc todo (interface0 (eth_interface eth)) g
               (log_info K ''init static route on'' [AS (eth_interface eth)] w)) (\<lambda>g1. Ok (0, g1))))"

text \<open>The WPA vector: an optional word is the name and the argument when there is one.\<close>

definition opt_words :: "string \<Rightarrow> string option \<Rightarrow> cptr list" where
  "opt_words nm v = (if v \<noteq> None then [Str nm, ptr v] else [])"

definition wpa_todo :: "string option \<Rightarrow> wpa_cfg \<Rightarrow> cptr list" where
  "wpa_todo nwid wp =
     [Str ''nwid'', ptr nwid, Str ''wpa''] @ opt_words ''wpaakms'' (wc_wpaakms wp) @
     opt_words ''wpaciphers'' (wc_wpaciphers wp) @ opt_words ''wpagroupcipher'' (wc_wpagroupcipher wp) @
     [Str ''wpakey'', ptr (wc_wpakey wp)]"

text \<open>Storing a vector at the front of the array.\<close>

definition store :: "cptr list \<Rightarrow> cptr list \<Rightarrow> cptr list" where
  "store xs v = xs @ drop (length xs) v"

text \<open>
  \<open>connect_wireless\<close> in three parts, which hand on the array \<open>todo\<close>: the link layer address, WPA
  and the network address.
\<close>

definition connect_lladdr ::
  "kernel \<Rightarrow> netdb \<Rightarrow> wireless \<Rightarrow> cptr list \<Rightarrow> ifc \<Rightarrow> world \<Rightarrow> (ifc \<times> cptr list) outcome" where
  "connect_lladdr K N wlan v g w =
     (if wl_lladdr wlan \<noteq> None then
        let v1 = store [Str ''lladdr'', ptr (wl_lladdr wlan)] (bzero_ptrs 10 v)
        in andthen (ifconfig_gate K N 2 v1 (Str (wl_interface wlan)) g w) (\<lambda>g1. Ok (g1, v1))
      else Ok (g, v) w)"

definition connect_wpa ::
  "kernel \<Rightarrow> netdb \<Rightarrow> wireless \<Rightarrow> cptr list \<Rightarrow> ifc \<Rightarrow> world \<Rightarrow> (ifc \<times> cptr list) outcome" where
  "connect_wpa K N wlan v g w =
     (case wl_wpa wlan of
        None \<Rightarrow> Ok (g, v) w
      | Some wp \<Rightarrow>
          let v1 = store [Str ''-bssid'', Str ''-chan'', Str ''-nwid'', Str ''-wpa'', Str ''-wpapsk''] (bzero_ptrs 11 v);
              todo = wpa_todo (wl_nwid wlan) wp;
              v2 = store todo (bzero_ptrs 11 v1)
          in andthen (ifconfig_gate K N 1 [Str ''-bssid''] (Str (wl_interface wlan)) g
               (log_info K ''cleanup interface %s'' [AS (wl_interface wlan)] w)) (\<lambda>g1 w1.
             andthen (ifconfig_gate K N (length todo) v2 (Str (wl_interface wlan)) g1
               (log_info K ''init WPA access on '' [AS (wl_interface wlan)] w1)) (\<lambda>g2. Ok (g2, v2))))"

definition connect_address ::
  "kernel \<Rightarrow> netdb \<Rightarrow> wireless \<Rightarrow> cptr list \<Rightarrow> ifc \<Rightarrow> world \<Rightarrow> (int \<times> ifc) outcome" where
  "connect_address K N wlan v g w =
     (if wl_isdhcp wlan = 1 then
        andthen (exec_dhclient K (wl_interface wlan)
            (log_info K ''init dhcp request on %s'' [AS (wl_interface wlan)] w)) (\<lambda>_. Ok (0, g))
      else case wl_staticopts wlan of
        None \<Rightarrow> Ok (0, g) w
      | Some so \<Rightarrow>
          (case static_todo v so of (todo, argc) \<Rightarrow>
           andthen (ifconfig_gate K N argc todo (Str (wl_interface wlan)) g
               (log_info K ''init static route on'' [AS (wl_interface wlan)] w)) (\<lambda>g1. Ok (0, g1))))"

definition connect_wireless ::
  "kernel \<Rightarrow> netdb \<Rightarrow> wireless \<Rightarrow> ifc \<Rightarrow> world \<Rightarrow> (int \<times> ifc) outcome" where
  "connect_wireless K N wlan g w =
     andthen (connect_lladdr K N wlan (replicate 11 Wild) g w) (\<lambda>(g1, v1) w1.
     andthen (connect_wpa K N wlan v1 g1 w1) (\<lambda>(g2, v2) w2.
     connect_address K N wlan v2 g2 w2))"

text \<open>Without a match the function returns no value, and its caller reads it.\<close>

fun use_ethernet_loop ::
  "kernel \<Rightarrow> netdb \<Rightarrow> ethernet list \<Rightarrow> string \<Rightarrow> ifc \<Rightarrow> world \<Rightarrow> (int \<times> ifc) outcome" where
  "use_ethernet_loop K N [] nm g w = Undef ''use_ethernet: no return value'' w"
| "use_ethernet_loop K N (eth # r) nm g w =
     (if strncmp (eth_name eth) nm 512 then connect_ethernet K N eth g w
      else use_ethernet_loop K N r nm g w)"

definition use_ethernet ::
  "kernel \<Rightarrow> netdb \<Rightarrow> ifconfigd_conf \<Rightarrow> string \<Rightarrow> ifc \<Rightarrow> world \<Rightarrow> (int \<times> ifc) outcome" where
  "use_ethernet K N conf nm g w =
     use_ethernet_loop K N (concat (map ethernet_list (network_list conf))) nm g w"

section \<open>Monitoring\<close>

fun monitor_ethernet_loop ::
  "kernel \<Rightarrow> netdb \<Rightarrow> cptr \<Rightarrow> ethernet list \<Rightarrow> ifc \<Rightarrow> world \<Rightarrow> (int \<times> ifc) outcome" where
  "monitor_ethernet_loop K N ifstat_n [] g w = Ok (1, g) w"
| "monitor_ethernet_loop K N ifstat_n (eth # r) g w =
     (let ifstat_o = ifstat_n in
      andthen (active_check K (interface0 (eth_interface eth)) g w) (\<lambda>(ifstat, g1) w1.
        case ifstat_o of
          Null \<Rightarrow> monitor_ethernet_loop K N ifstat r g1 w1
        | Wild \<Rightarrow> Undef ''monitor_ethernet: strncmp'' w1
        | Str so \<Rightarrow>
            (case ifstat of
               Str sn \<Rightarrow>
                 if \<not> strncmp sn so ptrsize \<and> strncmp sn ''active'' 6 then
                   connect_ethernet K N eth g1
                     (log_info K ''ethernet interface %s is active!'' [AS (eth_interface eth)] w1)
                 else monitor_ethernet_loop K N ifstat r g1 w1
             | _ \<Rightarrow> Undef ''monitor_ethernet: strncmp'' w1)))"

text \<open>\<open>ifstat_n\<close> is a local variable that is never initialised: what it holds is up to the stack.\<close>

definition stack_ptr :: "kernel \<Rightarrow> world \<Rightarrow> cptr" where
  "stack_ptr K w = (if list_all (\<lambda>b. b = 0) (junk K ptrsize w) then Null else Wild)"

definition monitor_ethernet ::
  "kernel \<Rightarrow> netdb \<Rightarrow> ifconfigd_conf \<Rightarrow> ifc \<Rightarrow> world \<Rightarrow> (int \<times> ifc) outcome" where
  "monitor_ethernet K N conf g w =
     monitor_ethernet_loop K N (stack_ptr K w) (concat (map ethernet_list (network_list conf))) g w"

text \<open>
  The wireless networks of one list: the value returned from inside the loop, if any. A
  configured \<open>bssid\<close> is compared as a pointer with the static buffer of \<open>ether_ntoa\<close>: they
  differ.
\<close>

fun monitor_wireless_list ::
  "kernel \<Rightarrow> netdb \<Rightarrow> wireless list \<Rightarrow> ifc \<Rightarrow> world \<Rightarrow> (int option \<times> ifc) outcome" where
  "monitor_wireless_list K N [] g w = Ok (None, g) w"
| "monitor_wireless_list K N (wlan # r) g w =
     (let iface = wl_interface wlan; nwid = (case wl_nwid wlan of None \<Rightarrow> ''(null)'' | Some s \<Rightarrow> s) in
      andthen (ifconfig_gate K N 1 [Str ''up''] (Str iface) g w) (\<lambda>g1 w1.
      andthen (ieee80211_scan K iface [ptr (wl_nwid wlan)] g1 w1) (\<lambda>(myre, g2) w2.
        case myre of
          [] \<Rightarrow> andthen (ifconfig_gate K N 1 [Str ''down''] (Str iface) g2 w2) (\<lambda>g3.
                 monitor_wireless_list K N r g3)
        | n # _ \<Rightarrow>
            let rssi = (uint (nr_rssi n) * 100) div 255 in
            if uint (nr_channel n) \<noteq> wl_channel wlan then
              Ok (None, g2) (log_info K ''%s on chan %d, mismatch with channel from config file''
                [AS nwid, AI (uint (nr_channel n))] w2)
            else if rssi < wl_minsignal wlan then
              Ok (None, g2) (log_info K '' %s is in range but signal strength %d is too weak''
                [AS nwid, AI rssi] w2)
            else if wl_bssid wlan \<noteq> None then
              Ok (None, g2) (log_info K ''%s on chan %d, mismatch with BSSID from config file''
                [AS nwid, AI (uint (nr_channel n))] w2)
            else
              andthen (connect_wireless K N wlan g2
                (log_info K '' SSID: \"%s\" on chan \"%d\"  signal  %d % (\"%ddb\")''
                  [AS (nwid_str n), AI (uint (nr_channel n)), AI rssi, AI (uint (nr_rssi n))] w2))
                (\<lambda>(ret, g3). Ok (Some ret, g3)))))"

fun monitor_networks ::
  "kernel \<Rightarrow> netdb \<Rightarrow> network list \<Rightarrow> ifc \<Rightarrow> world \<Rightarrow> (int \<times> ifc) outcome" where
  "monitor_networks K N [] g w = Ok (- 1, g) w"
| "monitor_networks K N (n # r) g w =
     andthen (monitor_wireless_list K N (wireless_list n) g w) (\<lambda>(ret, g1) w1.
       case ret of Some v \<Rightarrow> Ok (v, g1) w1 | None \<Rightarrow> monitor_networks K N r g1 w1)"

definition monitor_wireless ::
  "kernel \<Rightarrow> netdb \<Rightarrow> ifconfigd_conf \<Rightarrow> ifc \<Rightarrow> world \<Rightarrow> (int \<times> ifc) outcome" where
  "monitor_wireless K N conf g w = monitor_networks K N (network_list conf) g w"

text \<open>
  \<open>monitor\<close>: only the message belongs to the first condition, so the function returns in the
  first round, before the wireless networks are looked at.
\<close>

definition monitor ::
  "kernel \<Rightarrow> netdb \<Rightarrow> ifconfigd_conf \<Rightarrow> ifc \<Rightarrow> world \<Rightarrow> (int \<times> ifc) outcome" where
  "monitor K N conf g w =
     andthen (monitor_ethernet K N conf g w) (\<lambda>(r, g1) w1.
       Ok (0, g1) (if r \<noteq> 0 then log_info K ''ethernet connection successful'' [] w1 else w1))"

text \<open>One round of the endless loop of \<open>__monitor\<close>.\<close>

definition log_nodes :: "kernel \<Rightarrow> ieee80211_nodereq list \<Rightarrow> world \<Rightarrow> world" where
  "log_nodes K ns w = fold (\<lambda>n. log_info K
     ''catch wireless SSID: \"%s\" on channel \"%d\" with received signal strength %d % (\"%ddb\")''
     [AS (nwid_str n), AI (uint (nr_channel n)), AI ((uint (nr_rssi n) div 255) * 100), AI (uint (nr_rssi n))]) ns w"

definition monitor_round ::
  "kernel \<Rightarrow> netdb \<Rightarrow> ifconfigd_conf \<Rightarrow> ifc \<Rightarrow> world \<Rightarrow> ifc outcome" where
  "monitor_round K N conf g w =
     andthen (ifconfig_gate K N 1 [Str ''up''] (Str ''iwn0'') g w) (\<lambda>g1 w1.
     andthen (ieee80211_scan K ''iwn0'' [Str ''OpenHTC'', Str ''wir3'', Str ''OpenHome''] g1 w1) (\<lambda>(myre, g2) w2.
     andthen (ifconfig_gate K N 1 [Str ''down''] (Str ''iwn0'') g2 (emit (EvSleep 2) (log_nodes K myre w2)))
       (\<lambda>g3 w3. Ok g3 (emit (EvSleep (upinterval conf)) w3))))"

section \<open>Lemmas\<close>

text \<open>The scan keeps exactly the access points with one of the wanted names, in order.\<close>

lemma scan_names_Str: "scan_names n (map Str names) = Some (replicate (count_list names (nwid_str n)) n)"
  by (induction names) auto

lemma count_list_distinct: "distinct xs \<Longrightarrow> count_list xs x = (if x \<in> set xs then 1 else 0)"
  by (induction xs) auto

definition wanted :: "string list \<Rightarrow> ieee80211_nodereq \<Rightarrow> bool" where
  "wanted names n \<longleftrightarrow> nr_flags n AND 1 \<noteq> 0 \<and> nwid_str n \<in> set names"

lemma scan_nodes_filter:
  "distinct names \<Longrightarrow> scan_nodes (map Str names) ns = Some (filter (wanted names) ns)"
  by (induction ns) (auto simp: scan_names_Str count_list_distinct wanted_def)

text \<open>A scan with a granting kernel.\<close>

lemma scan_granted:
  assumes K: "granting K" and i: "i \<noteq> []" "length i < 16" "map_of afs i = None" and s: "sock_ok g"
  shows "\<exists>g' w' a t. same_but_info (g\<lparr>ifname := take 7 i, afp := AF_inet, af := AF_INET\<rparr>) g' \<and> sock g' \<ge> 0 \<and>
     extends w w' \<and> k_ioctl K (trace w') = Inr a \<and>
     trace w' = EvIoctl (sock g') SIOCG80211ALLNODES (take 7 i) IoNone #
       EvIoctl (sock g') SIOCS80211SCAN (take 7 i) IoNone # t \<and>
     ieee80211_scan K i nwid g w =
       (if io_nodes a = [] then Ok ([], g') w'
        else case scan_nodes nwid (io_nodes a) of
          None \<Rightarrow> Undef ''ieee80211_scan: strcmp'' w'
        | Some l \<Rightarrow> Ok (l, g') (emit (EvSleep 2) w'))"
proof -
  let ?g2 = "g\<lparr>ifname := take 7 i, afp := AF_inet, af := AF_INET\<rparr>"
  have "ifname ?g2 \<noteq> []" using i by (cases i) auto
  with getinfo_granted[OF K, of ?g2 i w] s obtain r g' w1 where
    gi: "getinfo K i False ?g2 w = Ok (r, g') w1" "same_but_info ?g2 g'" "extends w w1" "sock g' \<ge> 0"
    by (auto simp: sock_ok_def)
  have nm: "name_of g' = take 7 i"
    using same_but_info_fields[OF gi(2)] by (simp add: name_of_take min_def)
  obtain b where sc: "ioctl K (sock g') SIOCS80211SCAN (take 7 i) IoNone w1 =
      (Some b, emit (EvIoctl (sock g') SIOCS80211SCAN (take 7 i) IoNone) w1)"
    using ioctl_granted[OF K] by blast
  let ?w2 = "emit (EvIoctl (sock g') SIOCS80211SCAN (take 7 i) IoNone) w1"
  let ?w' = "emit (EvIoctl (sock g') SIOCG80211ALLNODES (take 7 i) IoNone) ?w2"
  obtain a where al: "ioctl K (sock g') SIOCG80211ALLNODES (take 7 i) IoNone ?w2 = (Some a, ?w')"
    "k_ioctl K (trace ?w') = Inr a"
    using ioctl_granted[OF K, of "sock g'" SIOCG80211ALLNODES "take 7 i" IoNone ?w2] by auto
  have "extends w ?w'" using gi(3) by (auto simp: extends_def)
  moreover have "ieee80211_scan K i nwid g w =
       (if io_nodes a = [] then Ok ([], g') ?w'
        else case scan_nodes nwid (io_nodes a) of
          None \<Rightarrow> Undef ''ieee80211_scan: strcmp'' ?w'
        | Some l \<Rightarrow> Ok (l, g') (emit (EvSleep 2) ?w'))"
    using i gi(1) nm sc al(1)
    by (simp add: ieee80211_scan_def strlcpy_def strlcpy_loop_take ptrsize_def IFNAMSIZ_def Let_def)
  ultimately show ?thesis using gi al(2) by (intro exI[of _ g'] exI[of _ ?w'] exI[of _ a] exI[of _ "trace w1"]) simp
qed

text \<open>A vector whose first pointer is null is not readable.\<close>

lemma length_bzero_ptrs [simp]: "length (bzero_ptrs n v) = length v"
  by (simp add: bzero_ptrs_def)

lemma static_todo_null:
  assumes "length v = 11" "static_todo v so = (todo, argc)"
  shows "argc \<noteq> 0 \<and> (\<exists>r. todo = Null # r)"
proof -
  have "length todo = 11" "todo ! 0 = Null"
    using assms by (auto simp: static_todo_def Let_def bzero_ptrs_def ptrsize_def split: if_splits)
  then show ?thesis using assms(2)
    by (cases todo) (auto simp: static_todo_def Let_def split: if_splits)
qed

lemma gate_null_argv: "argc \<noteq> 0 \<Longrightarrow> ifconfig_gate K N argc (Null # r) iface g w \<noteq> Ok g' w'"
  by (simp add: ifconfig_gate_def gate_family_def errx_def Let_def split: cptr.split prod.split)

lemma length_store [simp]: "length xs \<le> length v \<Longrightarrow> length (store xs v) = length v"
  by (simp add: store_def)

lemma wpa_todo_length: "length (wpa_todo nwid wp) \<le> 11"
  by (simp add: wpa_todo_def opt_words_def)

lemma connect_keeps_array:
  "connect_lladdr K N wlan v g w = Ok (g', v') w' \<Longrightarrow> length v = 11 \<Longrightarrow> length v' = 11"
  "connect_wpa K N wlan v g w = Ok (g', v') w' \<Longrightarrow> length v = 11 \<Longrightarrow> length v' = 11"
  using wpa_todo_length[of "wl_nwid wlan"]
  by (auto simp: connect_lladdr_def connect_wpa_def andthen_Ok_iff Let_def split: if_splits option.splits)

text \<open>The ethernet monitor never gets as far as the wireless networks.\<close>

lemma gate_bad_iface: "iface = Null \<or> iface = Wild \<Longrightarrow> ifconfig_gate K N argc argv iface g w = Undef ''ifconfig_gate: iface'' w"
  by (auto simp: ifconfig_gate_def)

lemma interface0_bad: "interface0 s = Null \<or> interface0 s = Wild"
  by (simp add: interface0_def)

text \<open>Steps that add no wireless scan to the trace.\<close>

fun is_scan :: "event \<Rightarrow> bool" where
  "is_scan (EvIoctl fd c n a) \<longleftrightarrow> c = SIOCS80211SCAN"
| "is_scan _ \<longleftrightarrow> False"

definition noscan :: "world \<Rightarrow> world \<Rightarrow> bool" where
  "noscan w w' \<longleftrightarrow> (\<exists>es. trace w' = es @ trace w \<and> list_all (\<lambda>e. \<not> is_scan e) es)"

lemma noscan_trans [trans]: "noscan a b \<Longrightarrow> noscan b c \<Longrightarrow> noscan a c"
  by (fastforce simp: noscan_def)

lemma noscan_simps [simp]:
  "noscan w w" "noscan w (set_errno x w)" "noscan w (close_fd f w)" "noscan w (emit e w) \<longleftrightarrow> \<not> is_scan e"
  by (auto simp: noscan_def)

lemma noscan_log: "only_logs w w' \<Longrightarrow> noscan w w'"
proof -
  have log: "is_log_event b e \<Longrightarrow> \<not> is_scan e" for b e by (cases e) auto
  assume "only_logs w w'"
  then obtain es where "trace w' = es @ trace w" "list_all (is_log_event (debug w \<noteq> 0)) es"
    by (auto simp: only_logs_def)
  with log show ?thesis by (auto simp: noscan_def list_all_iff)
qed

lemma noscan_ioctl: "ioctl K fd c n a w = (r, w') \<Longrightarrow> c \<noteq> SIOCS80211SCAN \<Longrightarrow> noscan w w'"
  by (auto simp: noscan_def dest!: ioctl_cases)

lemma noscan_query: "query K g c n w = (r, w') \<Longrightarrow> c \<noteq> SIOCS80211SCAN \<Longrightarrow> noscan w w'"
  by (auto simp: query_def dest!: noscan_ioctl split: prod.splits option.splits)

lemma noscan_is_bridge: "is_bridge K g b w = (r, w') \<Longrightarrow> noscan w w'"
  by (auto simp: is_bridge_def Let_def dest!: noscan_ioctl intro: noscan_trans split: prod.splits option.splits)

lemma noscan_getinfo_flags: "getinfo_flags K g n False w = (r, w') \<Longrightarrow> noscan w w'"
  by (auto simp: getinfo_flags_def dest!: noscan_ioctl split: prod.splits option.splits)

lemma noscan_getsock: "getsock K naf g w = (g', w') \<Longrightarrow> noscan w w'"
proof -
  assume a: "getsock K naf g w = (g', w')"
  let ?w1 = "if oaf g \<noteq> - 1 then close_fd (sock g) w else w"
  have "noscan ?w1 (snd (sys_int K (EvDgram naf) ?w1))"
    by (auto simp: noscan_def sys_int_trace)
  moreover have "noscan w ?w1" by simp
  ultimately have "noscan w (snd (sys_int K (EvDgram naf) ?w1))" by (rule noscan_trans[rotated])
  with a show ?thesis by (auto simp: getsock_def Let_def split: if_splits prod.splits)
qed

lemma noscan_getinfo:
  assumes "getinfo K n False g w = Ok (r, g') w'"
  shows "noscan w w'"
proof -
  obtain g1 w1 where gs: "getsock K (af g) g w = (g1, w1)" by fastforce
  note n1 = noscan_getsock[OF gs]
  show ?thesis
  proof (cases "isdigit (last (ifname g1))")
    case False
    with assms gs n1 show ?thesis by (auto simp: getinfo_def err_def split: if_splits)
  next
    case True
    obtain o2 w2 where fl: "getinfo_flags K g1 n False w1 = (o2, w2)" by fastforce
    note n2 = noscan_trans[OF n1 noscan_getinfo_flags[OF fl]]
    show ?thesis
    proof (cases o2)
      case None
      with assms gs True fl n2 show ?thesis by (auto simp: getinfo_def err_def split: if_splits)
    next
      case (Some r2)
      let ?g2 = "g1\<lparr>flags := ucast (io_flags r2)\<rparr>"
      obtain x w3 where xf: "ioctl K (sock ?g2) SIOCGIFXFLAGS n IoNone w2 = (x, w3)" by fastforce
      let ?g3 = "?g2\<lparr>xflags := (case x of None \<Rightarrow> 0 | Some r \<Rightarrow> scast (io_flags r))\<rparr>"
      obtain m w4 where me: "query K ?g3 SIOCGIFMETRIC n w3 = (m, w4)" by fastforce
      obtain br w5 where ib: "is_bridge K ?g3 (ifname ?g3) w4 = (br, w5)" by fastforce
      obtain mt w6 where mt: "(if br then (0, w5) else query K ?g3 SIOCGIFMTU n w5) = (mt, w6)" by fastforce
      obtain rd w7 where rd: "query K ?g3 SIOCGIFRDOMAIN n w6 = (rd, w7)" by fastforce
      have "w' = w7"
        using assms gs True fl Some xf me ib mt rd
        by (simp add: getinfo_def Let_def err_def split: if_splits)
      moreover have "noscan w5 w6" using mt noscan_query by (auto split: if_splits)
      ultimately show ?thesis
        using n2 noscan_ioctl[OF xf] noscan_query[OF me] noscan_is_bridge[OF ib] noscan_query[OF rd]
        by simp (blast intro: noscan_trans)
    qed
  qed
qed

lemma noscan_active_loop: "active_loop K oname l g w = Ok (p, g') w' \<Longrightarrow> noscan w w'"
  by (induction K oname l g w rule: active_loop.induct)
     (auto simp: Let_def andthen_Ok_iff dest!: noscan_getinfo split: if_splits)

lemma noscan_alloc: "alloc K n w = (b, w') \<Longrightarrow> noscan w w'"
  by (rule noscan_log) (rule only_logs_alloc')

lemma noscan_active_check:
  assumes "active_check K ifn g w = Ok (p, g') w'" shows "noscan w w'"
proof -
  obtain oname w1 where f: "(case ifn of Null \<Rightarrow> Ok None w | Wild \<Rightarrow> Undef ''active_check: strdup(ifname)'' w
      | Str s \<Rightarrow> andthen (strdup K s w) (\<lambda>_. Ok (Some s))) = Ok oname w1"
    and r: "(case getifaddrs K w1 of (None, w2) \<Rightarrow> err K ''getifaddrs'' [] w2
      | (Some ifap, w2) \<Rightarrow> active_loop K oname ifap g w2) = Ok (p, g') w'"
    using assms by (auto simp: active_check_def andthen_Ok_iff)
  have "noscan w w1"
    using f by (auto simp: strdup_def andthen_Ok_iff err_def dest: noscan_alloc split: cptr.splits prod.splits if_splits)
  moreover obtain l w2 where gi: "getifaddrs K w1 = (Some l, w2)" and lp: "active_loop K oname l g w2 = Ok (p, g') w'"
    using r by (auto simp: err_def split: prod.splits option.splits)
  moreover have "noscan w1 w2" using gi by (auto simp: getifaddrs_def Let_def split: sum.splits)
  ultimately show ?thesis using noscan_active_loop[OF lp] by (blast intro: noscan_trans)
qed

lemma connect_ethernet_cases:
  assumes "connect_ethernet K N eth g w = Ok (r, g') w'"
  shows "g' = g \<and> noscan w w' \<and> (r = 0 \<and> eth_isdhcp eth = 1 \<or> r = - 1 \<and> eth_staticopts eth = None)"
proof -
  have dh: "noscan v v'" if "exec_dhclient K i v = Ok () v'" for i v v'
    using that sys_ok_trace(1)[of K "EvExec [''/sbin/dhclient'', ''dhclient'', ''-d'', ''-q'', i]" v]
    by (auto simp: exec_dhclient_def noscan_def split: prod.splits bool.splits)
  have lg: "noscan w (log_info K m ap w)" for m ap by (rule noscan_log) (rule log_functions_only_log)
  from assms show ?thesis
    using noscan_trans[OF lg dh] interface0_bad[of "eth_interface eth"]
    by (auto simp: connect_ethernet_def andthen_Ok_iff gate_bad_iface split: if_splits option.splits prod.splits)
qed

lemma noscan_monitor_ethernet_loop:
  "monitor_ethernet_loop K N p l g w = Ok (r, g') w' \<Longrightarrow> noscan w w'"
proof (induction K N p l g w rule: monitor_ethernet_loop.induct)
  case (2 K N p eth r g w)
  then obtain st g1 w1 where ac: "active_check K (interface0 (eth_interface eth)) g w = Ok (st, g1) w1"
    by (auto simp: andthen_Ok_iff Let_def)
  note na = noscan_active_check[OF ac]
  have lg: "noscan w1 (log_info K m ap w1)" for m ap by (rule noscan_log) (rule log_functions_only_log)
  have conn: "noscan w w'" if "connect_ethernet K N eth g1 (log_info K m ap w1) = Ok (r', g') w'" for m ap r'
    using connect_ethernet_cases[OF that] na lg[of m ap] by (blast intro: noscan_trans)
  from 2 ac na conn show ?case
    by (auto simp: Let_def intro: noscan_trans split: cptr.splits if_splits)
qed simp

text \<open>Globals in which no address and no media command is left over.\<close>

definition clean :: "ifc \<Rightarrow> bool" where
  "clean g \<longleftrightarrow> sock_ok g \<and> actions g AND 7 = 0 \<and> newaddr g = 0 \<and> clearaddr g = 0"

definition good_name :: "string \<Rightarrow> bool" where
  "good_name i \<longleftrightarrow> i \<noteq> [] \<and> length i < 16 \<and> map_of afs i = None"

lemma gate_clean:
  assumes "granting K" "c = ''up'' \<or> c = ''down''" "good_name i" "clean g"
  shows "\<exists>g' w' r t. ifconfig_gate K N 1 [Str c] (Str i) g w = Ok g' w' \<and> clean g' \<and>
     trace w' = EvIoctl (sock g') SIOCSIFFLAGS (take 7 i)
       (IoFlags (if c = ''up'' then io_flags r OR 1 else io_flags r AND NOT 1)) # t"
proof -
  have i: "i \<noteq> []" "length i < 16" using assms(3) by (simp_all add: good_name_def)
  have g: "sock_ok g" "actions g AND 7 = 0" "newaddr g = 0" "clearaddr g = 0" using assms(4) by (simp_all add: clean_def)
  show ?thesis
    using gate_flags[OF assms(1,2) i g(1,2), of N w] g(3,4) by (fastforce simp: addr_events_def clean_def)
qed

lemma scan_clean:
  assumes "same_but_info (g\<lparr>ifname := n, afp := a, af := f\<rparr>) g'" "sock g' \<ge> 0" "clean g"
  shows "clean g'"
  using same_but_info_fields[OF assms(1)] assms(2,3) by (simp add: clean_def sock_ok_def)

text \<open>What the kernel answers to the query for the nodes in range, whenever it is asked.\<close>

definition in_range :: "kernel \<Rightarrow> ieee80211_nodereq list \<Rightarrow> bool" where
  "in_range K ns \<longleftrightarrow> (\<forall>fd n t. k_ioctl K (EvIoctl fd SIOCG80211ALLNODES n IoNone # t) = Inr (IoNodes ns))"

lemma scan_in_range:
  assumes K: "granting K" "in_range K ns" and i: "good_name i" and g: "clean g" and d: "distinct names"
  shows "\<exists>g' w'. ieee80211_scan K i (map Str names) g w = Ok (filter (wanted names) ns, g') w' \<and> clean g' \<and>
     extends w w'"
proof -
  have i': "i \<noteq> []" "length i < 16" "map_of afs i = None" using i by (simp_all add: good_name_def)
  have g': "sock_ok g" using g by (simp add: clean_def)
  obtain g' w' a t where sc: "same_but_info (g\<lparr>ifname := take 7 i, afp := AF_inet, af := AF_INET\<rparr>) g'" "sock g' \<ge> 0"
    "extends w w'" "k_ioctl K (trace w') = Inr a"
    "trace w' = EvIoctl (sock g') SIOCG80211ALLNODES (take 7 i) IoNone #
       EvIoctl (sock g') SIOCS80211SCAN (take 7 i) IoNone # t"
    "ieee80211_scan K i (map Str names) g w = (if io_nodes a = [] then Ok ([], g') w'
        else case scan_nodes (map Str names) (io_nodes a) of
          None \<Rightarrow> Undef ''ieee80211_scan: strcmp'' w' | Some l \<Rightarrow> Ok (l, g') (emit (EvSleep 2) w'))"
    using scan_granted[OF K(1) i' g', of w "map Str names"] by blast
  have "extends w (emit (EvSleep 2) w')" using sc(3) by (auto simp: extends_def)
  moreover have "a = IoNodes ns" using sc(4,5) K(2) by (simp add: in_range_def)
  ultimately show ?thesis
    using sc(3,6) scan_clean[OF sc(1,2) g] scan_nodes_filter[OF d, of ns] by auto
qed

text \<open>The monitor brings an interface with nothing in range down again.\<close>

definition down_write :: "event \<Rightarrow> bool" where
  "down_write e \<longleftrightarrow> (\<exists>fd i r. e = EvIoctl fd SIOCSIFFLAGS i (IoFlags (r AND NOT 1)))"

lemma monitor_out_of_range:
  assumes K: "granting K" "in_range K ns"
    and wl: "\<forall>x\<in>set wlans. good_name (wl_interface x) \<and> wl_nwid x \<noteq> None \<and> filter (wanted [the (wl_nwid x)]) ns = []"
    and g: "clean g"
  shows "\<exists>g' w'. monitor_wireless_list K N wlans g w = Ok (None, g') w' \<and> clean g' \<and>
     (wlans = [] \<and> w' = w \<or> (\<exists>t fd r. trace w' =
        EvIoctl fd SIOCSIFFLAGS (take 7 (wl_interface (last wlans))) (IoFlags (r AND NOT 1)) # t))"
  using wl g
proof (induction wlans arbitrary: g w)
  case (Cons x r)
  let ?i = "wl_interface x"
  from Cons.prems obtain s where x: "good_name ?i" "wl_nwid x = Some s" "filter (wanted [s]) ns = []" by auto
  obtain g1 w1 where up: "ifconfig_gate K N 1 [Str ''up''] (Str ?i) g w = Ok g1 w1" "clean g1"
    using gate_clean[OF K(1) _ x(1) Cons.prems(2), of "''up''" N w] by blast
  obtain g2 w2 where sc: "ieee80211_scan K ?i [Str s] g1 w1 = Ok ([], g2) w2" "clean g2"
    using scan_in_range[OF K x(1) up(2), of "[s]" w1] x(3) by auto
  obtain g3 w3 rr t where dn: "ifconfig_gate K N 1 [Str ''down''] (Str ?i) g2 w2 = Ok g3 w3" "clean g3"
    "trace w3 = EvIoctl (sock g3) SIOCSIFFLAGS (take 7 ?i) (IoFlags (io_flags rr AND NOT 1)) # t"
    using gate_clean[OF K(1) _ x(1) sc(2), of "''down''" N w2] by fastforce
  have eq: "monitor_wireless_list K N (x # r) g w = monitor_wireless_list K N r g3 w3"
    using up sc dn x(2) by (simp add: Let_def)
  obtain g' w' where "monitor_wireless_list K N r g3 w3 = Ok (None, g') w'" "clean g'"
    "r = [] \<and> w' = w3 \<or> (\<exists>t fd rr. trace w' =
        EvIoctl fd SIOCSIFFLAGS (take 7 (wl_interface (last r))) (IoFlags (rr AND NOT 1)) # t)"
    using Cons.IH[OF _ dn(2), of w3] Cons.prems(1) by simp blast
  with eq dn(3) show ?case by auto
qed simp

lemma monitor_list_bssid:
  "\<forall>x\<in>set l. wl_bssid x \<noteq> None \<Longrightarrow> monitor_wireless_list K N l g w = Ok (r, g') w' \<Longrightarrow> r = None"
proof (induction l arbitrary: g w)
  case (Cons x l)
  obtain g1 w1 where up: "ifconfig_gate K N 1 [Str ''up''] (Str (wl_interface x)) g w = Ok g1 w1"
    using Cons.prems(2) by (auto simp: Let_def andthen_Ok_iff)
  obtain myre g2 w2 where sc: "ieee80211_scan K (wl_interface x) [ptr (wl_nwid x)] g1 w1 = Ok (myre, g2) w2"
    using Cons.prems(2) up by (auto simp: Let_def andthen_Ok_iff)
  show ?case
  proof (cases myre)
    case Nil
    with Cons up sc show ?thesis by (auto simp: Let_def andthen_Ok_iff)
  next
    case (Cons n ns)
    with Cons.prems up sc show ?thesis by (auto simp: Let_def split: if_splits)
  qed
qed simp

lemma monitor_networks_bssid:
  "\<forall>n\<in>set l. \<forall>x\<in>set (wireless_list n). wl_bssid x \<noteq> None \<Longrightarrow> monitor_networks K N l g w = Ok (r, g') w' \<Longrightarrow> r = - 1"
proof (induction l arbitrary: g w)
  case (Cons n l)
  then obtain ret g1 w1 where m: "monitor_wireless_list K N (wireless_list n) g w = Ok (ret, g1) w1"
    by (auto simp: andthen_Ok_iff)
  with monitor_list_bssid Cons.prems(1) have "ret = None" by fastforce
  with Cons m show ?case by auto
qed simp

section \<open>Samples\<close>

definition sample_node :: ieee80211_nodereq where
  "sample_node = \<lparr>nr_bssid = [0, 1, 2, 3, 4, 5], nr_nwid_len = 4, nr_nwid = map char_byte ''wir3'' @ replicate 28 0,
     nr_channel = 6, nr_rssi = 200, nr_flags = 1\<rparr>"

definition scan_kernel :: kernel where
  "scan_kernel = sample_kernel\<lparr>k_ioctl := (\<lambda>t. case t of
       EvIoctl _ SIOCG80211ALLNODES _ _ # _ \<Rightarrow> Inr (IoNodes [sample_node])
     | _ \<Rightarrow> Inr (IoFlags 0x8843))\<rparr>"

definition sample_wlan :: "string \<Rightarrow> string option \<Rightarrow> wireless" where
  "sample_wlan nwid bssid = \<lparr>wl_name = ''home'', wl_interface = ''iwn0'', wl_priority = 1, wl_nwid = Some nwid,
     wl_bssid = bssid, wl_minsignal = 30, wl_channel = 6, wl_isdhcp = 0, wl_staticopts = None, wl_wpa = None,
     wl_wep_nwkex = None, wl_lladdr = None, wl_run_up = None, wl_run_down = None\<rparr>"

definition sample_static :: static_cfg where
  "sample_static = \<lparr>sc_inet = Some ''10.0.0.1'', sc_netmask = Some ''255.0.0.0'', sc_domainname = None, sc_domainserver = None\<rparr>"

definition sample_eth :: ethernet where
  "sample_eth = \<lparr>eth_name = ''work'', eth_interface = ''em0'', eth_priority = 1, eth_isdhcp = 0,
     eth_staticopts = Some sample_static, eth_lladdr = None, eth_run_up = None, eth_run_down = None\<rparr>"

definition sample_network :: "string \<Rightarrow> string option \<Rightarrow> network" where
  "sample_network nwid bssid = \<lparr>nw_name = ''net'', nw_priority = 1, ethernet_list = [], wireless_list = [sample_wlan nwid bssid]\<rparr>"

definition sample_conf :: "string \<Rightarrow> string option \<Rightarrow> ifconfigd_conf" where
  "sample_conf nwid bssid = \<lparr>network_list = [sample_network nwid bssid], csock = ''/var/run/ifconfigd.sock'', upinterval = 5\<rparr>"

lemma scan_kernel_grants: "granting scan_kernel" "in_range scan_kernel [sample_node]"
  by (auto simp: granting_def in_range_def scan_kernel_def sample_kernel_def split: list.split event.split iocmd.split)

lemma sample_clean: "clean sample_ifc"
  using sample_gate by (simp add: clean_def)

lemma sample_good_name: "good_name ''iwn0''"
  by (simp add: good_name_def afs_def)

lemma sample_nwid: "nwid_str sample_node = ''wir3''"
  by code_simp

lemmas sample_monitor = scan_kernel_grants sample_clean sample_good_name sample_nwid

section \<open>Properties\<close>







text \<open>
  A network with a configured \<open>bssid\<close> is never connected: the strings are compared by
  address. If every network has one, the wireless monitor can only return -1.
\<close>

theorem monitor_wireless_bssid:
  assumes "\<forall>n\<in>set (network_list conf). \<forall>x\<in>set (wireless_list n). wl_bssid x \<noteq> None"
    and "monitor_wireless K N conf g w = Ok (r, g') w'"
  shows "r = - 1"
  using monitor_networks_bssid[OF assms(1)] assms(2) unfolding monitor_wireless_def by blast

theorem monitor_wireless_bssid_witness:
  "\<exists>r. r = - 1 \<and> (\<exists>g' w'. monitor_wireless scan_kernel sample_netdb (sample_conf ''wir3'' (Some ''00:01:02:03:04:05''))
     sample_ifc sample_world = Ok (r, g') w')"
proof -
  let ?c = "sample_conf ''wir3'' (Some ''00:01:02:03:04:05'')" and ?x = "sample_wlan ''wir3'' (Some ''00:01:02:03:04:05'')"
  obtain g1 w1 where up: "ifconfig_gate scan_kernel sample_netdb 1 [Str ''up''] (Str ''iwn0'') sample_ifc sample_world = Ok g1 w1"
    and c1: "clean g1"
    using gate_clean[OF sample_monitor(1) _ sample_good_name sample_clean, of "''up''"] by blast
  obtain g2 w2 where sc: "ieee80211_scan scan_kernel ''iwn0'' [Str ''wir3''] g1 w1 = Ok ([sample_node], g2) w2"
    using scan_in_range[OF sample_monitor(1,2) sample_good_name c1, of "[''wir3'']" w1]
    by (auto simp: wanted_def sample_nwid) (auto simp: sample_node_def)
  have "\<exists>r g' w'. monitor_wireless scan_kernel sample_netdb ?c sample_ifc sample_world = Ok (r, g') w'"
    using up sc by (auto simp: monitor_wireless_def sample_conf_def sample_network_def sample_wlan_def Let_def)
  moreover have "r = - 1" if "monitor_wireless scan_kernel sample_netdb ?c sample_ifc sample_world = Ok (r, g') w'" for r g' w'
    by (rule monitor_wireless_bssid[OF _ that]) (simp add: sample_conf_def sample_network_def sample_wlan_def)
  ultimately show ?thesis by blast
qed



text \<open>
  A static configuration of an ethernet interface never reaches the kernel: after the log
  message the run is undefined, because the name is passed as the pointer its letters spell.
\<close>

theorem connect_ethernet_static_undefined:
  assumes "eth_isdhcp eth \<noteq> 1" "eth_staticopts eth = Some so"
  shows "connect_ethernet K N eth g w = Undef ''ifconfig_gate: iface''
     (log_info K ''init static route on'' [AS (eth_interface eth)] w)"
  using assms interface0_bad[of "eth_interface eth"]
  by (auto simp: connect_ethernet_def gate_bad_iface split: prod.split)

theorem connect_ethernet_static_undefined_witness:
  "connect_ethernet sample_kernel sample_netdb sample_eth sample_ifc sample_world =
     Undef ''ifconfig_gate: iface'' (log_info sample_kernel ''init static route on'' [AS (eth_interface sample_eth)] sample_world)"
  by (rule connect_ethernet_static_undefined[where so = sample_static]) (simp_all add: sample_eth_def)

text \<open>
  (C40) A static configuration of a wireless network never succeeds either: the second \<open>bzero\<close>
  wipes the first word of the vector, and no run of \<open>connect_wireless\<close> returns.
\<close>

theorem connect_wireless_static_fails:
  assumes "wl_isdhcp wlan \<noteq> 1" "wl_staticopts wlan = Some so"
  shows "\<nexists>r w'. connect_wireless K N wlan g w = Ok r w'"
proof
  assume "\<exists>r w'. connect_wireless K N wlan g w = Ok r w'"
  then obtain r w' g1 v1 w1 g2 v2 w2 where "connect_lladdr K N wlan (replicate 11 Wild) g w = Ok (g1, v1) w1"
    and "connect_wpa K N wlan v1 g1 w1 = Ok (g2, v2) w2"
    and ca: "connect_address K N wlan v2 g2 w2 = Ok r w'"
    by (auto simp: connect_wireless_def andthen_Ok_iff)
  then have len: "length v2 = 11" by (auto dest!: connect_keeps_array)
  obtain todo argc where st: "static_todo v2 so = (todo, argc)" by fastforce
  with ca assms obtain g3 where "ifconfig_gate K N argc todo (Str (wl_interface wlan)) g2
      (log_info K ''init static route on'' [AS (wl_interface wlan)] w2) = Ok g3 w'"
    by (auto simp: connect_address_def andthen_Ok_iff)
  with static_todo_null[OF len st] gate_null_argv show False by blast
qed

theorem connect_wireless_static_fails_witness:
  "\<nexists>r w'. connect_wireless sample_kernel sample_netdb ((sample_wlan ''wir3'' None)\<lparr>wl_staticopts := Some sample_static\<rparr>)
     sample_ifc sample_world = Ok r w'"
  by (rule connect_wireless_static_fails[where so = sample_static]) (simp_all add: sample_wlan_def)

text \<open>
  The vector of a WPA connection fits its array of eleven pointers, and needs all of them
  when every option is configured.
\<close>

theorem wpa_vector_fits:
  "length (wpa_todo nwid wp) \<le> 11 \<and>
   (length (wpa_todo nwid wp) = 11 \<longleftrightarrow> wc_wpaakms wp \<noteq> None \<and> wc_wpaciphers wp \<noteq> None \<and> wc_wpagroupcipher wp \<noteq> None)"
  by (simp add: wpa_todo_def opt_words_def)

end
