(* ===== verification/Conf_Parse.thy ===== *)
theory Conf_Parse
  imports Conf_Lex Monitor Imsgev
begin

text \<open>
  The grammar of the configuration file with its actions (\<open>ifconfigd/parse.y\<close>) and
  \<open>parse_config\<close>. The parser that yacc makes of the grammar is modelled as a machine that takes one
  construct after the other: its state is the stack of open blocks, each with the place in its
  option list, the one token of lookahead, and the error flag. Conflicts of the grammar are resolved
  as yacc does, by shifting: an end of line goes into \<open>optnl\<close> where it can, an empty option is used
  only before an end of line. The structures the actions allocate are kept in stores, because the
  globals \<open>staticonfig\<close> and \<open>wpa\<close> are aliases of members of the configuration.
\<close>

section \<open>State\<close>

text \<open>A network under construction: its interfaces with their pointers into the stores.\<close>

record pnet =
  pn_name :: string
  pn_eths :: "(ethernet \<times> nat option) list"
  pn_wlans :: "(wireless \<times> nat option \<times> nat option) list"

text \<open>
  Blocks, and the place in a block: before the first option, after an option that ends its line or
  the first one, after a later option, which needs the end of its line. At the top there are also
  the value of a variable being collected and the search for the end of a line after an error.
\<close>

datatype block = BTop | BNet | BEth | BWlan | BWpa | BWep

datatype place = PFirst | PMore | PLine | PVar string string | PSkip

record pstate =
  lx :: lexer
  ahead :: "token option"
  errflag :: nat
  blocks :: "(block \<times> place) list"
  p_upinterval :: int
  p_nets :: "pnet list"
  statics :: "static_cfg list"
  wpas :: "wpa_cfg list"
  staticonfig :: "nat option"
  p_wpa :: "nat option"

datatype verdict = Continue | Accept | Abort

type_synonym step_result = "(bool \<times> pstate) outcome"

section \<open>Tokens and errors\<close>

text \<open>The lookahead; yacc takes a character that is not positive for the end of the input.\<close>

fun yychar :: "token \<Rightarrow> token" where
  "yychar (TChr c) = (if c \<le> 0 then TEnd else TChr c)"
| "yychar t = t"

definition peek :: "kernel \<Rightarrow> pstate \<Rightarrow> world \<Rightarrow> (token \<times> pstate) outcome" where
  "peek K p w =
     (case ahead p of
        Some t \<Rightarrow> Ok (t, p) w
      | None \<Rightarrow> andthen (yylex K (lx p) w) (\<lambda>(t, L). Ok (yychar t, p\<lparr>lx := L, ahead := Some (yychar t)\<rparr>)))"

definition shift :: "pstate \<Rightarrow> pstate" where
  "shift p = p\<lparr>ahead := None, errflag := errflag p - 1\<rparr>"

text \<open>An action that failed (\<open>YYERROR\<close>), with its message, and a token that does not fit.\<close>

definition p_error :: "string \<Rightarrow> carg list \<Rightarrow> pstate \<Rightarrow> world \<Rightarrow> step_result" where
  "p_error fmt ap p w = (case yyerror fmt ap (lx p) w of (L, w1) \<Rightarrow> Ok (False, p\<lparr>lx := L\<rparr>) w1)"

definition syntax_error :: "pstate \<Rightarrow> world \<Rightarrow> step_result" where
  "syntax_error p w = (if errflag p = 0 then p_error ''syntax error'' [] p w else Ok (False, p) w)"

definition with_string :: "kernel \<Rightarrow> (string \<Rightarrow> pstate \<Rightarrow> world \<Rightarrow> step_result) \<Rightarrow> pstate \<Rightarrow> world \<Rightarrow> step_result" where
  "with_string K f p w = andthen (peek K p w) (\<lambda>(t, p1) w1.
     case t of STRING s \<Rightarrow> f s (shift p1) w1 | _ \<Rightarrow> syntax_error p1 w1)"

definition with_number :: "kernel \<Rightarrow> (int \<Rightarrow> pstate \<Rightarrow> world \<Rightarrow> step_result) \<Rightarrow> pstate \<Rightarrow> world \<Rightarrow> step_result" where
  "with_number K f p w = andthen (peek K p w) (\<lambda>(t, p1) w1.
     case t of NUMBER n \<Rightarrow> f n (shift p1) w1 | _ \<Rightarrow> syntax_error p1 w1)"

definition with_yesno :: "kernel \<Rightarrow> (bool \<Rightarrow> pstate \<Rightarrow> world \<Rightarrow> step_result) \<Rightarrow> pstate \<Rightarrow> world \<Rightarrow> step_result" where
  "with_yesno K f p w = andthen (peek K p w) (\<lambda>(t, p1) w1.
     if t = TKw YES then f True (shift p1) w1
     else if t = TKw NO then f False (shift p1) w1
     else syntax_error p1 w1)"

text \<open>An action that only changes the state, and one on the network, ethernet or wireless in hand.\<close>

definition act :: "(pstate \<Rightarrow> pstate) \<Rightarrow> pstate \<Rightarrow> world \<Rightarrow> step_result" where
  "act f p w = Ok (True, f p) w"

definition on_eth :: "(ethernet \<Rightarrow> ethernet) \<Rightarrow> pstate \<Rightarrow> pstate" where
  "on_eth f p = (case p_nets p of
     n # ns \<Rightarrow> (case pn_eths n of
        (e, sp) # r \<Rightarrow> p\<lparr>p_nets := n\<lparr>pn_eths := (f e, sp) # r\<rparr> # ns\<rparr>
      | [] \<Rightarrow> p)
   | [] \<Rightarrow> p)"

definition point_eth :: "nat option \<Rightarrow> pstate \<Rightarrow> pstate" where
  "point_eth q p = (case p_nets p of
     n # ns \<Rightarrow> (case pn_eths n of
        (e, sp) # r \<Rightarrow> p\<lparr>p_nets := n\<lparr>pn_eths := (e, q) # r\<rparr> # ns\<rparr>
      | [] \<Rightarrow> p)
   | [] \<Rightarrow> p)"

definition on_wlan :: "(wireless \<Rightarrow> wireless) \<Rightarrow> pstate \<Rightarrow> pstate" where
  "on_wlan f p = (case p_nets p of
     n # ns \<Rightarrow> (case pn_wlans n of
        (x, sp) # r \<Rightarrow> p\<lparr>p_nets := n\<lparr>pn_wlans := (f x, sp) # r\<rparr> # ns\<rparr>
      | [] \<Rightarrow> p)
   | [] \<Rightarrow> p)"

definition point_wlan :: "nat option \<Rightarrow> pstate \<Rightarrow> pstate" where
  "point_wlan q p = (case p_nets p of
     n # ns \<Rightarrow> (case pn_wlans n of
        (x, sp, wp) # r \<Rightarrow> p\<lparr>p_nets := n\<lparr>pn_wlans := (x, q, wp) # r\<rparr> # ns\<rparr>
      | [] \<Rightarrow> p)
   | [] \<Rightarrow> p)"

text \<open>Writes through \<open>staticonfig\<close> and \<open>wpa\<close>.\<close>

definition on_static :: "(static_cfg \<Rightarrow> static_cfg) \<Rightarrow> pstate \<Rightarrow> world \<Rightarrow> step_result" where
  "on_static f p w = (case staticonfig p of
     None \<Rightarrow> Undef ''parse.y: staticonfig'' w
   | Some i \<Rightarrow> Ok (True, p\<lparr>statics := (statics p)[i := f (statics p ! i)]\<rparr>) w)"

definition on_wpa :: "(wpa_cfg \<Rightarrow> wpa_cfg) \<Rightarrow> pstate \<Rightarrow> world \<Rightarrow> step_result" where
  "on_wpa f p w = (case p_wpa p of
     None \<Rightarrow> Undef ''parse.y: wpa'' w
   | Some i \<Rightarrow> Ok (True, p\<lparr>wpas := (wpas p)[i := f (wpas p ! i)]\<rparr>) w)"

definition calloc :: "kernel \<Rightarrow> nat \<Rightarrow> string \<Rightarrow> (pstate \<Rightarrow> world \<Rightarrow> step_result) \<Rightarrow> pstate \<Rightarrow> world \<Rightarrow> step_result" where
  "calloc K n msg f p w = (case alloc K n w of (ok, w1) \<Rightarrow> if ok then f p w1 else errx msg [] w1)"

definition zero_static :: static_cfg where
  "zero_static = \<lparr>sc_inet = None, sc_netmask = None, sc_domainname = None, sc_domainserver = None\<rparr>"

definition zero_wpa :: wpa_cfg where
  "zero_wpa = \<lparr>wc_wpakey = None, wc_wpagroupcipher = None, wc_wpaciphers = None, wc_wpaakms = None\<rparr>"

definition zero_eth :: ethernet where
  "zero_eth = \<lparr>eth_name = [], eth_interface = [], eth_priority = 0, eth_isdhcp = 0, eth_staticopts = None,
     eth_lladdr = None, eth_run_up = None, eth_run_down = None\<rparr>"

definition zero_wlan :: wireless where
  "zero_wlan = \<lparr>wl_name = [], wl_interface = [], wl_priority = 0, wl_nwid = None, wl_bssid = None,
     wl_minsignal = 0, wl_channel = 0, wl_isdhcp = 0, wl_staticopts = None, wl_wpa = None,
     wl_wep_nwkex = None, wl_lladdr = None, wl_run_up = None, wl_run_down = None\<rparr>"

text \<open>A new \<open>static_cfg\<close>, which \<open>staticonfig\<close> points to.\<close>

definition new_static :: "kernel \<Rightarrow> (pstate \<Rightarrow> world \<Rightarrow> step_result) \<Rightarrow> pstate \<Rightarrow> world \<Rightarrow> step_result" where
  "new_static K f = calloc K 32 ''new_static_cfg: calloc''
     (\<lambda>p. f (p\<lparr>statics := statics p @ [zero_static], staticonfig := Some (length (statics p))\<rparr>))"

text \<open>An \<open>int64_t\<close> stored in an \<open>int\<close>.\<close>

definition to_int :: "int \<Rightarrow> int" where
  "to_int n = sint (word_of_int n :: 32 word)"

section \<open>Options\<close>

text \<open>\<open>static network options\<close>, shared by both kinds of interfaces.\<close>

fun static_option :: "kernel \<Rightarrow> kw \<Rightarrow> (pstate \<Rightarrow> world \<Rightarrow> step_result) option" where
  "static_option K DOMAINNAME = Some (with_string K (\<lambda>s. on_static (\<lambda>c. c\<lparr>sc_domainname := Some s\<rparr>)))"
| "static_option K DOMAINNAMESERVERS = Some (with_string K (\<lambda>s. on_static (\<lambda>c. c\<lparr>sc_domainserver := Some s\<rparr>)))"
| "static_option K INET = Some (with_string K (\<lambda>s. on_static (\<lambda>c. c\<lparr>sc_inet := Some s\<rparr>)))"
| "static_option K NETMASK = Some (with_string K (\<lambda>s. on_static (\<lambda>c. c\<lparr>sc_netmask := Some s\<rparr>)))"
| "static_option K _ = None"

text \<open>\<open>strncpy\<close> into \<open>interface\<close>, an array of 16 pointers.\<close>

fun eth_option :: "kernel \<Rightarrow> kw \<Rightarrow> (pstate \<Rightarrow> world \<Rightarrow> step_result) option" where
  "eth_option K PRIORITY = Some (with_number K (\<lambda>n. act (on_eth (\<lambda>e. e\<lparr>eth_priority := to_int n\<rparr>))))"
| "eth_option K INTERFACE = Some (with_string K (\<lambda>s. act (on_eth (\<lambda>e. e\<lparr>eth_interface := take 128 s\<rparr>))))"
| "eth_option K DHCP = Some (with_yesno K (\<lambda>yes p w.
     if yes then act (\<lambda>p. point_eth None (on_eth (\<lambda>e. e\<lparr>eth_isdhcp := 1\<rparr>) p)) p w
     else let p1 = on_eth (\<lambda>e. e\<lparr>eth_isdhcp := 0\<rparr>) p;
              fin = act (\<lambda>p. point_eth (staticonfig p) p) in
          if staticonfig p1 = None then new_static K fin p1 w else fin p1 w))"
| "eth_option K LLADDR = Some (with_string K (\<lambda>s. act (on_eth (\<lambda>e. e\<lparr>eth_lladdr := Some s\<rparr>))))"
| "eth_option K RUNUP = Some (with_string K (\<lambda>s. act (on_eth (\<lambda>e. e\<lparr>eth_run_up := Some s\<rparr>))))"
| "eth_option K RUNDOWN = Some (with_string K (\<lambda>s. act (on_eth (\<lambda>e. e\<lparr>eth_run_down := Some s\<rparr>))))"
| "eth_option K k = static_option K k"

text \<open>The action at the end of a block: \<open>ether\<close> and \<open>staticonfig\<close> are reset after an ethernet.\<close>

definition end_block :: "block \<Rightarrow> pstate \<Rightarrow> pstate" where
  "end_block b p = (if b = BEth then p\<lparr>staticonfig := None\<rparr> else p)"

text \<open>A block that may follow: if it does not, the option is complete.\<close>

definition open_block :: "kernel \<Rightarrow> block \<Rightarrow> pstate \<Rightarrow> world \<Rightarrow> step_result" where
  "open_block K b p w = andthen (peek K p w) (\<lambda>(t, p1) w1.
     if t = TChr 123 then Ok (True, (shift p1)\<lparr>blocks := (b, PFirst) # blocks p1\<rparr>) w1
     else Ok (True, end_block b p1) w1)"

fun wlan_option :: "kernel \<Rightarrow> kw \<Rightarrow> (pstate \<Rightarrow> world \<Rightarrow> step_result) option" where
  "wlan_option K PRIORITY = Some (with_number K (\<lambda>n. act (on_wlan (\<lambda>x. x\<lparr>wl_priority := to_int n\<rparr>))))"
| "wlan_option K INTERFACE = Some (with_string K (\<lambda>s. act (on_wlan (\<lambda>x. x\<lparr>wl_interface := take 128 s\<rparr>))))"
| "wlan_option K NWID = Some (with_string K (\<lambda>s. act (on_wlan (\<lambda>x. x\<lparr>wl_nwid := Some s\<rparr>))))"
| "wlan_option K CHANNEL = Some (with_number K (\<lambda>n. act (on_wlan (\<lambda>x. x\<lparr>wl_channel := to_int n\<rparr>))))"
| "wlan_option K BSSID = Some (with_string K (\<lambda>s. act (on_wlan (\<lambda>x. x\<lparr>wl_bssid := Some s\<rparr>))))"
| "wlan_option K MINSIGNAL = Some (with_number K (\<lambda>n. act (on_wlan (\<lambda>x. x\<lparr>wl_minsignal := to_int n\<rparr>))))"
| "wlan_option K DHCP = Some (with_yesno K (\<lambda>yes p w.
     if yes then act (on_wlan (\<lambda>x. x\<lparr>wl_isdhcp := 1\<rparr>)) p w
     else new_static K (act (\<lambda>p. point_wlan (staticonfig p) p)) (on_wlan (\<lambda>x. x\<lparr>wl_isdhcp := 0\<rparr>) p) w))"
| "wlan_option K WPA = Some (open_block K BWpa)"
| "wlan_option K WEP = Some (open_block K BWep)"
| "wlan_option K RUNUP = Some (with_string K (\<lambda>s. act (on_wlan (\<lambda>x. x\<lparr>wl_run_up := Some s\<rparr>))))"
| "wlan_option K RUNDOWN = Some (with_string K (\<lambda>s. act (on_wlan (\<lambda>x. x\<lparr>wl_run_down := Some s\<rparr>))))"
| "wlan_option K LLADDR = Some (with_string K (\<lambda>s. act (on_wlan (\<lambda>x. x\<lparr>wl_lladdr := Some s\<rparr>))))"
| "wlan_option K k = static_option K k"

fun wpa_option :: "kernel \<Rightarrow> kw \<Rightarrow> (pstate \<Rightarrow> world \<Rightarrow> step_result) option" where
  "wpa_option K WPAKEY = Some (with_string K (\<lambda>s. on_wpa (\<lambda>c. c\<lparr>wc_wpakey := Some s\<rparr>)))"
| "wpa_option K WPAGROUPCIPHER = Some (with_string K (\<lambda>s. on_wpa (\<lambda>c. c\<lparr>wc_wpagroupcipher := Some s\<rparr>)))"
| "wpa_option K WPAAKMS = Some (with_string K (\<lambda>s. on_wpa (\<lambda>c. c\<lparr>wc_wpaakms := Some s\<rparr>)))"
| "wpa_option K WPACIPHERS = Some (with_string K (\<lambda>s. on_wpa (\<lambda>c. c\<lparr>wc_wpaciphers := Some s\<rparr>)))"
| "wpa_option K _ = None"

fun wep_option :: "kernel \<Rightarrow> kw \<Rightarrow> (pstate \<Rightarrow> world \<Rightarrow> step_result) option" where
  "wep_option K WEPKEY = Some (with_string K (\<lambda>s. act (on_wlan (\<lambda>x. x\<lparr>wl_wep_nwkex := Some s\<rparr>))))"
| "wep_option K _ = None"

fun net_option :: "kernel \<Rightarrow> kw \<Rightarrow> (pstate \<Rightarrow> world \<Rightarrow> step_result) option" where
  "net_option K ETHERNETNAME = Some (with_string K (\<lambda>s.
     calloc K 696 ''new_ethernet: calloc'' (\<lambda>p.
       let p1 = (case p_nets p of n # ns \<Rightarrow>
              p\<lparr>p_nets := n\<lparr>pn_eths := (zero_eth\<lparr>eth_name := take 512 s\<rparr>, None) # pn_eths n\<rparr> # ns\<rparr> | [] \<Rightarrow> p) in
       new_static K (\<lambda>p2. open_block K BEth (point_eth (staticonfig p2) p2)) p1)))"
| "net_option K WIRELESSNAME = Some (with_string K (\<lambda>s.
     calloc K 744 ''new_wlan: calloc'' (\<lambda>p.
       let p1 = (case p_nets p of n # ns \<Rightarrow>
              p\<lparr>p_nets := n\<lparr>pn_wlans := (zero_wlan\<lparr>wl_name := take 512 s\<rparr>, None, None) # pn_wlans n\<rparr> # ns\<rparr> | [] \<Rightarrow> p) in
       new_static K (\<lambda>p2.
         calloc K 32 ''new_static_cfg: calloc'' (\<lambda>p3.
           let p4 = p3\<lparr>wpas := wpas p3 @ [zero_wpa], p_wpa := Some (length (wpas p3))\<rparr>;
               p5 = (case p_nets p4 of
                  n # ns \<Rightarrow> (case pn_wlans n of
                     (x, sp, wp) # r \<Rightarrow> p4\<lparr>p_nets := n\<lparr>pn_wlans := (x, sp, p_wpa p4) # r\<rparr> # ns\<rparr>
                   | [] \<Rightarrow> p4)
                | [] \<Rightarrow> p4) in
           open_block K BWlan p5) (point_wlan (staticonfig p2) p2)) p1)))"
| "net_option K _ = None"

text \<open>The statements of the top level.\<close>

definition MIN_UPDATE_INTERVAL :: int where "MIN_UPDATE_INTERVAL = 5"

fun top_option :: "kernel \<Rightarrow> kw \<Rightarrow> (pstate \<Rightarrow> world \<Rightarrow> step_result) option" where
  "top_option K INCLUDE = Some (with_string K (\<lambda>s p w.
     case pushfile K s True (lx p) w of
       (None, w1) \<Rightarrow> p_error ''failed to include file %s'' [AS s] p w1
     | (Some L, w1) \<Rightarrow> Ok (True, p\<lparr>lx := lungetc 10 L\<rparr>) w1))"
| "top_option K UPDATEINTERVAL = Some (with_number K (\<lambda>n p w.
     if n < MIN_UPDATE_INTERVAL then p_error ''update interval is to short'' [] p w
     else act (\<lambda>p. p\<lparr>p_upinterval := to_int n\<rparr>) p w))"
| "top_option K NETWORK = Some (with_string K (\<lambda>s p w.
     if length s > MAX_NETWORK_NAME_SIZE then
       p_error ''network name too long (max length %d)'' [AI (int MAX_NETWORK_NAME_SIZE)] p w
     else calloc K 552 ''new_network: calloc'' (\<lambda>p w.
       andthen (peek K (p\<lparr>p_nets := \<lparr>pn_name = take 512 s, pn_eths = [], pn_wlans = []\<rparr> # p_nets p\<rparr>) w) (\<lambda>(t, p1) w1.
         if t = TChr 123 then Ok (True, (shift p1)\<lparr>blocks := (BNet, PFirst) # blocks p1\<rparr>) w1
         else syntax_error p1 w1)) p w))"
| "top_option K _ = None"

definition option_of :: "kernel \<Rightarrow> block \<Rightarrow> kw \<Rightarrow> (pstate \<Rightarrow> world \<Rightarrow> step_result) option" where
  "option_of K b k = (case b of
     BTop \<Rightarrow> top_option K k
   | BNet \<Rightarrow> net_option K k
   | BEth \<Rightarrow> eth_option K k
   | BWlan \<Rightarrow> wlan_option K k
   | BWpa \<Rightarrow> wpa_option K k
   | BWep \<Rightarrow> wep_option K k)"

section \<open>The parser\<close>

definition set_place :: "place \<Rightarrow> pstate \<Rightarrow> pstate" where
  "set_place pl p = (case blocks p of [] \<Rightarrow> p | (b, _) # r \<Rightarrow> p\<lparr>blocks := (b, pl) # r\<rparr>)"

text \<open>
  What follows an option: at the top and after a later option the end of the line, after the first
  option of a block anything.
\<close>

definition after_option :: "block \<Rightarrow> place \<Rightarrow> place" where
  "after_option b pl = (if pl = PFirst then PMore else PLine)"

definition place_step :: "kernel \<Rightarrow> block \<Rightarrow> place \<Rightarrow> token \<Rightarrow> pstate \<Rightarrow> world \<Rightarrow> step_result" where
  "place_step K b pl t p w =
     (case pl of
        PLine \<Rightarrow> if t = TChr 10 then Ok (True, set_place PMore (shift p)) w else syntax_error p w
      | PVar nam val \<Rightarrow>
          (case t of
             STRING s \<Rightarrow>
               (case alloc K (length val + length s + 2) w of (ok, w1) \<Rightarrow>
                  if ok then Ok (True, set_place (PVar nam (val @ '' '' @ s)) (shift p)) w1
                  else p_error ''string: asprintf'' [] (shift p) w1)
           | _ \<Rightarrow>
               if t = TChr 10 then
                 (case symset K nam val 0 (lx p) w of (r, L, w1) \<Rightarrow>
                    if r = - 1 then err K ''cannot store variable'' [] w1
                    else Ok (True, set_place PMore (shift (p\<lparr>lx := L\<rparr>))) w1)
               else syntax_error p w)
      | _ \<Rightarrow>
          if t = TChr 10 then Ok (True, shift p) w
          else if t = TChr 125 \<and> b \<noteq> BTop then Ok (True, (end_block b (shift p))\<lparr>blocks := tl (blocks p)\<rparr>) w
          else (case t of
             TKw k \<Rightarrow>
               (case option_of K b k of
                  Some f \<Rightarrow> f (set_place (after_option b pl) (shift p)) w
                | None \<Rightarrow> syntax_error p w)
           | STRING s \<Rightarrow>
               if b = BTop then with_string K (\<lambda>v p w. Ok (True, set_place (PVar s v) p) w) (shift p) w
               else syntax_error p w
           | _ \<Rightarrow> syntax_error p w))"

text \<open>\<open>file->errors++\<close>.\<close>

definition count_error :: "lexer \<Rightarrow> lexer" where
  "count_error L = (case lx_files L of [] \<Rightarrow> L | f # fs \<Rightarrow> L\<lparr>lx_files := f\<lparr>fl_errors := fl_errors f + 1\<rparr> # fs\<rparr>)"

text \<open>
  One step. After an error the blocks are left and the rest of the line is skipped; the end of the
  input there makes the parser give up.
\<close>

definition parse_step :: "kernel \<Rightarrow> pstate \<Rightarrow> world \<Rightarrow> (verdict \<times> pstate) outcome" where
  "parse_step K p w =
     andthen (peek K p w) (\<lambda>(t, p1) w1.
       case blocks p1 of
         [] \<Rightarrow> Ok (Abort, p1) w1
       | (b, pl) # _ \<Rightarrow>
           if pl = PSkip then
             (if t = TChr 10 then
                Ok (Continue, set_place PMore (shift (p1\<lparr>lx := count_error (lx p1)\<rparr>))) w1
              else if t = TEnd then Ok (Abort, p1) w1
              else Ok (Continue, p1\<lparr>ahead := None\<rparr>) w1)
           else if t = TEnd \<and> b = BTop \<and> pl = PMore then Ok (Accept, p1) w1
           else andthen (place_step K b pl t p1 w1) (\<lambda>(ok, p2).
             Ok (Continue, if ok then p2 else p2\<lparr>errflag := 3, blocks := [(BTop, PSkip)]\<rparr>)))"

text \<open>\<open>yyparse\<close>. A file that includes itself is never read to its end.\<close>

partial_function (option) yyparse :: "kernel \<Rightarrow> pstate \<Rightarrow> world \<Rightarrow> pstate outcome option" where
  "yyparse K p w =
     (case parse_step K p w of
        Ok r w1 \<Rightarrow> if fst r = Continue then yyparse K (snd r) w1 else Some (Ok (snd r) w1)
      | Exit c v \<Rightarrow> Some (Exit c v)
      | Undef s v \<Rightarrow> Some (Undef s v))"

text \<open>The configuration with its pointers followed.\<close>

definition the_eth :: "pstate \<Rightarrow> ethernet \<times> nat option \<Rightarrow> ethernet" where
  "the_eth p e = (fst e)\<lparr>eth_staticopts := map_option (nth (statics p)) (snd e)\<rparr>"

definition the_wlan :: "pstate \<Rightarrow> wireless \<times> nat option \<times> nat option \<Rightarrow> wireless" where
  "the_wlan p x = (case x of (e, sp, wp) \<Rightarrow>
     e\<lparr>wl_staticopts := map_option (nth (statics p)) sp, wl_wpa := map_option (nth (wpas p)) wp\<rparr>)"

definition the_conf :: "pstate \<Rightarrow> ifconfigd_conf" where
  "the_conf p = \<lparr>network_list = map (\<lambda>n. \<lparr>nw_name = pn_name n, nw_priority = 0,
       ethernet_list = map (the_eth p) (pn_eths n), wireless_list = map (the_wlan p) (pn_wlans n)\<rparr>) (p_nets p),
     csock = [], upinterval = p_upinterval p\<rparr>"

definition start_state :: "lexer \<Rightarrow> pstate" where
  "start_state L = \<lparr>lx = L, ahead = None, errflag = 0, blocks = [(BTop, PMore)], p_upinterval = 0,
     p_nets = [], statics = [], wpas = [], staticonfig = None, p_wpa = None\<rparr>"

definition empty_lexer :: lexer where
  "empty_lexer = \<lparr>lx_files = [], parsebuf = None, parseindex = 0, pushback = [], yylineno = 0, symhead = []\<rparr>"

definition parse_config :: "kernel \<Rightarrow> string \<Rightarrow> world \<Rightarrow> ifconfigd_conf option outcome option" where
  "parse_config K filename w =
     (case alloc K 24 w of (ok, w1) \<Rightarrow>
        if \<not> ok then Some (Ok None w1)
        else case pushfile K filename False empty_lexer w1 of
          (None, w2) \<Rightarrow> Some (Ok None w2)
        | (Some L, w2) \<Rightarrow>
            (case yyparse K (start_state L) w2 of
               None \<Rightarrow> None
             | Some r \<Rightarrow> Some (andthen r (\<lambda>p w3.
                 case popfile (lx p) w3 of (_, _, w4) \<Rightarrow>
                   Ok (if list_ex (\<lambda>f. fl_errors f \<noteq> 0) (take 1 (lx_files (lx p))) then None else Some (the_conf p)) w4))))"

end
