(* ===== verification/Conf_Print.thy ===== *)
theory Conf_Print
  imports Conf_Parse
begin

text \<open>
  Configuration files that are printed from a configuration, and what the parser makes of them. A
  file is printed as a sequence of tokens with a blank after each. The lemmas go from the token
  (\<open>yylex\<close> reads back what is printed) over the option and the block to the whole file.
\<close>

section \<open>Printing\<close>

datatype ptok = PKw kw | PStr string | PNum nat | PNl | PLbrace | PRbrace

definition kw_text :: "kw \<Rightarrow> string" where
  "kw_text k = fst (the (find (\<lambda>e. snd e = k) conf_keywords))"

fun text_of :: "ptok \<Rightarrow> string" where
  "text_of (PKw k) = kw_text k"
| "text_of (PStr s) = [CHR 0x22] @ s @ [CHR 0x22]"
| "text_of (PNum n) = digits n"
| "text_of PNl = [CHR 0x0A]"
| "text_of PLbrace = ''{''"
| "text_of PRbrace = ''}''"

fun tok_of :: "ptok \<Rightarrow> token" where
  "tok_of (PKw k) = TKw k"
| "tok_of (PStr s) = STRING s"
| "tok_of (PNum n) = NUMBER (int n)"
| "tok_of PNl = TChr 10"
| "tok_of PLbrace = TChr 123"
| "tok_of PRbrace = TChr 125"

definition render :: "ptok list \<Rightarrow> string" where
  "render ts = concat (map (\<lambda>t. text_of t @ '' '') ts)"

text \<open>Strings that can be printed between quotes, and numbers that fit.\<close>

definition str_ok :: "string \<Rightarrow> bool" where
  "str_ok s \<longleftrightarrow> length s < 8000 \<and> list_all (\<lambda>c. plain_char c \<and> ord c \<noteq> 10 \<and> ord c \<noteq> 34) s"

fun tok_ok :: "ptok \<Rightarrow> bool" where
  "tok_ok (PStr s) \<longleftrightarrow> str_ok s"
| "tok_ok (PNum n) \<longleftrightarrow> int n \<le> LLONG_MAX"
| "tok_ok _ \<longleftrightarrow> True"

section \<open>Tokens are read back\<close>

definition lexes :: "ptok list \<Rightarrow> lexer \<Rightarrow> bool" where
  "lexes ts L \<longleftrightarrow> list_all tok_ok ts \<and> (\<exists>n\<le>1. reads (render ts) n L \<or> reads ('' '' @ render ts) n L)"

lemma kw_text_word:
  "\<exists>c cs. kw_text k = c # cs \<and> isalpha c \<and> (\<forall>x\<in>set cs. allowed_in_string (int (ord x))) \<and> length cs < 30 \<and>
     lookup (kw_text k) = TKw k"
proof -
  have "lookup (kw_text k) = TKw k"
    by (subst lookup_keyword; cases k) (simp_all add: kw_text_def conf_keywords_def cstr_def)
  then show ?thesis
    by (cases k)
       (simp_all add: kw_text_def conf_keywords_def isalpha_def islower_def allowed_in_string_def isalnum_def
          isdigit_def ispunct_def cch_def isupper_def)
qed

lemma blank_ends: "\<not> allowed_in_string 32" "allowed_to_end_number 32" "\<not> isdigit CHR '' ''"
  by (simp_all add: allowed_in_string_def allowed_to_end_number_def isalnum_def isalpha_def isupper_def
      islower_def isdigit_def ispunct_def isspace_def cch_def)

lemma yylex_token:
  assumes "k_mem K = (\<lambda>_. True)" "tok_ok t" "reads (text_of t @ '' '' @ s) n L" "n \<le> 1"
  shows "\<exists>L' w' m. yylex K L w = Ok (tok_of t, L') w' \<and> m \<le> 1 \<and> reads ('' '' @ s) m L'"
proof (cases t)
  case (PKw k)
  obtain c cs where k: "kw_text k = c # cs" "isalpha c" "\<forall>x\<in>set cs. allowed_in_string (int (ord x))"
      "length cs < 30" "lookup (kw_text k) = TKw k" using kw_text_word by blast
  have "reads (c # cs @ CHR '' '' # s) n L" using assms(3) PKw k(1) by simp
  from yylex_word[OF assms(1) this assms(4) k(2,3), of w] k blank_ends(1) PKw show ?thesis
    by (fastforce simp: sizeof_buf_def)
next
  case (PStr x)
  have "reads (CHR 0x22 # x @ CHR 0x22 # '' '' @ s) n L" using assms(3) PStr by simp
  from yylex_quoted[OF assms(1) this assms(4), of w] assms(2) PStr show ?thesis
    by (fastforce simp: str_ok_def list_all_iff sizeof_buf_def)
next
  case (PNum m)
  have "reads (digits m @ CHR '' '' # s) n L" using assms(3) PNum by simp
  from yylex_number[OF this assms(4), of K w] assms(2) PNum blank_ends show ?thesis by fastforce
next
  case PNl
  from yylex_punct[of "CHR 0x0A" "'' '' @ s" n L K w] assms(3,4) PNl show ?thesis by fastforce
next
  case PLbrace
  from yylex_punct[of "CHR ''{''" "'' '' @ s" n L K w] assms(3,4) PLbrace show ?thesis by fastforce
next
  case PRbrace
  from yylex_punct[of "CHR ''}''" "'' '' @ s" n L K w] assms(3,4) PRbrace show ?thesis by fastforce
qed

lemma lexes_reads:
  assumes "lexes ts L"
  shows "\<exists>L' n. n \<le> 1 \<and> reads (render ts) n L' \<and> yylex K L w = yylex K L' w"
proof -
  from assms obtain n where n: "n \<le> 1" "reads (render ts) n L \<or> reads (CHR '' '' # render ts) n L"
    by (auto simp: lexes_def)
  then show ?thesis
  proof (cases "reads (render ts) n L")
    case False
    with n yylex_blank[of "CHR '' ''" "render ts" n L K w] show ?thesis by (auto intro: exI[of _ "0 :: nat"])
  qed (use n in auto)
qed

lemma yylex_lexes:
  assumes "k_mem K = (\<lambda>_. True)" "lexes (t # ts) L"
  shows "\<exists>L' w'. yylex K L w = Ok (tok_of t, L') w' \<and> lexes ts L'"
proof -
  obtain L1 n where L1: "n \<le> 1" "reads (text_of t @ '' '' @ render ts) n L1" "yylex K L w = yylex K L1 w"
    using lexes_reads[OF assms(2), of K w] by (auto simp: render_def)
  from yylex_token[OF assms(1) _ L1(2,1), of w] assms(2) L1(3) show ?thesis by (auto simp: lexes_def)
qed

lemma yylex_end:
  assumes "lexes [] L"
  shows "\<exists>L'. yylex K L w = Ok (TEnd, L') w \<and> lexes [] L'"
proof -
  obtain L1 n where L1: "n \<le> 1" "reads [] n L1" "yylex K L w = yylex K L1 w"
    using lexes_reads[OF assms, of K w] by (auto simp: render_def)
  then obtain f where f: "lx_files L1 = [f]" "fl_rest f = []" "pushback L1 = []" "parsebuf L1 = None" "fl_errors f = 0"
    by (auto simp: reads_def)
  then have "lgetc 0 L1 w = (EOF, L1, w)"
    by (simp add: lgetc_def lgetc_file_def lgetc_cont.simps getc_def EOF_def lgetc_eof.simps popfile_def)
  then have "lex_blank L1 w = (EOF, L1, w)" by (subst lex_blank.simps) (simp add: EOF_def)
  then have "yylex K L1 w = Ok (TEnd, note_line L1) w"
    by (subst yylex.simps)
       (simp add: EOF_def lex_char_def lex_number_def lex_word_def cch_def isdigit_def isalnum_def isalpha_def
         isupper_def islower_def)
  moreover have "lexes [] (note_line L1)" using L1(1,2) by (auto simp: lexes_def render_def)
  ultimately show ?thesis using L1(3) by auto
qed

section \<open>Steps of the parser\<close>

text \<open>
  The parser is in the blocks \<open>bs\<close>, has no lookahead and no error, and \<open>ts\<close> is to come. What the
  actions work on is the rest of its state.
\<close>

definition ready :: "(block \<times> place) list \<Rightarrow> ptok list \<Rightarrow> pstate \<Rightarrow> bool" where
  "ready bs ts p \<longleftrightarrow> blocks p = bs \<and> ahead p = None \<and> errflag p = 0 \<and> lexes ts (lx p)"

definition core :: "pstate \<Rightarrow> pstate" where
  "core p = p\<lparr>lx := empty_lexer, ahead := None, errflag := 0, blocks := []\<rparr>"

lemma core_simps [simp]:
  "core (p\<lparr>lx := L\<rparr>) = core p" "core (p\<lparr>ahead := a\<rparr>) = core p" "core (p\<lparr>errflag := n\<rparr>) = core p"
  "core (p\<lparr>blocks := b\<rparr>) = core p" "core (shift p) = core p" "core (set_place pl p) = core p"
  "core (core p) = core p"
  by (simp_all add: core_def shift_def set_place_def split: list.split)

lemma core_fields [simp]:
  "p_nets (core p) = p_nets p" "statics (core p) = statics p" "wpas (core p) = wpas p"
  "staticonfig (core p) = staticonfig p" "p_wpa (core p) = p_wpa p" "p_upinterval (core p) = p_upinterval p"
  by (simp_all add: core_def)

lemma core_upd [simp]:
  "core (p\<lparr>p_nets := n\<rparr>) = (core p)\<lparr>p_nets := n\<rparr>" "core (p\<lparr>statics := t\<rparr>) = (core p)\<lparr>statics := t\<rparr>"
  "core (p\<lparr>wpas := v\<rparr>) = (core p)\<lparr>wpas := v\<rparr>" "core (p\<lparr>staticonfig := q\<rparr>) = (core p)\<lparr>staticonfig := q\<rparr>"
  "core (p\<lparr>p_wpa := q\<rparr>) = (core p)\<lparr>p_wpa := q\<rparr>" "core (p\<lparr>p_upinterval := i\<rparr>) = (core p)\<lparr>p_upinterval := i\<rparr>"
  by (cases p; simp add: core_def)+

lemma peek_ready:
  assumes "k_mem K = (\<lambda>_. True)" "ready bs (t # ts) p"
  shows "\<exists>p' w'. peek K p w = Ok (tok_of t, p') w' \<and> ready bs ts (shift p') \<and> core p' = core p \<and> blocks p' = bs \<and>
     errflag p' = 0"
proof -
  have y: "yychar (tok_of t) = tok_of t" by (cases t) auto
  from yylex_lexes[OF assms(1), of t ts "lx p" w] assms(2) obtain L' w' where
    "yylex K (lx p) w = Ok (tok_of t, L') w'" "lexes ts L'" by (auto simp: ready_def)
  with assms(2) y show ?thesis
    by (intro exI[of _ "p\<lparr>lx := L', ahead := Some (tok_of t)\<rparr>"] exI[of _ w']) (auto simp: peek_def ready_def shift_def)
qed

lemma with_token:
  assumes "k_mem K = (\<lambda>_. True)"
  shows "ready bs (PStr s # ts) p \<Longrightarrow> \<exists>p' w'. with_string K f p w = f s p' w' \<and> ready bs ts p' \<and> core p' = core p"
    "ready bs (PNum n # ts) p \<Longrightarrow> \<exists>p' w'. with_number K g p w = g (int n) p' w' \<and> ready bs ts p' \<and> core p' = core p"
    "ready bs (PKw (if y then YES else NO) # ts) p \<Longrightarrow>
       \<exists>p' w'. with_yesno K h p w = h y p' w' \<and> ready bs ts p' \<and> core p' = core p"
    "ready bs (PLbrace # ts) p \<Longrightarrow>
       \<exists>p' w'. open_block K b p w = Ok (True, p') w' \<and> ready ((b, PFirst) # bs) ts p' \<and> core p' = core p"
proof -
  show "\<exists>p' w'. with_string K f p w = f s p' w' \<and> ready bs ts p' \<and> core p' = core p" if "ready bs (PStr s # ts) p"
    using peek_ready[OF assms that, of w] by (fastforce simp: with_string_def)
  show "\<exists>p' w'. with_number K g p w = g (int n) p' w' \<and> ready bs ts p' \<and> core p' = core p" if "ready bs (PNum n # ts) p"
    using peek_ready[OF assms that, of w] by (fastforce simp: with_number_def)
  show "\<exists>p' w'. with_yesno K h p w = h y p' w' \<and> ready bs ts p' \<and> core p' = core p"
    if "ready bs (PKw (if y then YES else NO) # ts) p"
    using peek_ready[OF assms that, of w] by (cases y) (fastforce simp: with_yesno_def)+
  show "\<exists>p' w'. open_block K b p w = Ok (True, p') w' \<and> ready ((b, PFirst) # bs) ts p' \<and> core p' = core p"
    if r: "ready bs (PLbrace # ts) p"
  proof -
    from peek_ready[OF assms r, of w] obtain p' w' where
      "peek K p w = Ok (TChr 123, p') w'" "ready bs ts (shift p')" "core p' = core p" "blocks p' = bs" by auto
    then show ?thesis
      by (intro exI[of _ "(shift p')\<lparr>blocks := (b, PFirst) # bs\<rparr>"] exI[of _ w']) (auto simp: open_block_def ready_def)
  qed
qed

lemma option_step:
  assumes "k_mem K = (\<lambda>_. True)" "ready ((b, pl) # r) (PKw k # ts) p" "pl = PFirst \<or> pl = PMore" "option_of K b k = Some f"
  shows "\<exists>p1 w1. ready ((b, after_option b pl) # r) ts p1 \<and> core p1 = core p \<and>
     (\<forall>q w2. f p1 w1 = Ok (True, q) w2 \<longrightarrow> yyparse K p w = yyparse K q w2)"
proof -
  from peek_ready[OF assms(1,2), of w] obtain p' w' where
    p': "peek K p w = Ok (TKw k, p') w'" "ready ((b, pl) # r) ts (shift p')" "core p' = core p" "blocks p' = (b, pl) # r" by auto
  let ?p1 = "set_place (after_option b pl) (shift p')"
  have "ready ((b, after_option b pl) # r) ts ?p1" "core ?p1 = core p"
    using p' by (auto simp: ready_def set_place_def)
  moreover have "yyparse K p w = yyparse K q w2" if "f ?p1 w' = Ok (True, q) w2" for q w2
    using that p' assms(3,4) by (subst yyparse.simps) (auto simp: parse_step_def place_step_def)
  ultimately show ?thesis by blast
qed

lemma line_step:
  assumes "k_mem K = (\<lambda>_. True)" "ready ((b, pl) # r) (PNl # ts) p" "pl = PFirst \<or> pl = PMore \<or> pl = PLine"
  shows "\<exists>p' w'. yyparse K p w = yyparse K p' w' \<and> core p' = core p \<and>
     ready ((b, if pl = PLine then PMore else pl) # r) ts p'"
proof -
  from peek_ready[OF assms(1,2), of w] obtain p' w' where
    p': "peek K p w = Ok (TChr 10, p') w'" "ready ((b, pl) # r) ts (shift p')" "core p' = core p" "blocks p' = (b, pl) # r" by auto
  then have "yyparse K p w = yyparse K (if pl = PLine then set_place PMore (shift p') else shift p') w'"
    using assms(3) by (subst yyparse.simps) (auto simp: parse_step_def place_step_def)
  with p' show ?thesis by (auto simp: ready_def set_place_def intro!: exI)
qed

lemma close_step:
  assumes "k_mem K = (\<lambda>_. True)" "ready ((b, pl) # r) (PRbrace # ts) p" "pl = PFirst \<or> pl = PMore" "b \<noteq> BTop"
  shows "\<exists>p' w'. yyparse K p w = yyparse K p' w' \<and> core p' = end_block b (core p) \<and> ready r ts p'"
proof -
  from peek_ready[OF assms(1,2), of w] obtain p' w' where
    p': "peek K p w = Ok (TChr 125, p') w'" "ready ((b, pl) # r) ts (shift p')" "core p' = core p" "blocks p' = (b, pl) # r" by auto
  then have "yyparse K p w = yyparse K ((end_block b (shift p'))\<lparr>blocks := r\<rparr>) w'"
    using assms(3,4) by (subst yyparse.simps) (auto simp: parse_step_def place_step_def)
  moreover have "core (end_block b (shift p')) = end_block b (core p)"
    using p'(3) by (auto simp: end_block_def)
  ultimately show ?thesis using p'(2)
    by (intro exI[of _ "(end_block b (shift p'))\<lparr>blocks := r\<rparr>"] exI[of _ w']) (auto simp: ready_def end_block_def)
qed

lemma end_step:
  assumes "ready [(BTop, PMore)] [] p"
  shows "\<exists>p' w'. yyparse K p w = Some (Ok p' w') \<and> core p' = core p \<and> lexes [] (lx p')"
proof -
  from yylex_end[of "lx p" K w] assms obtain L' where "yylex K (lx p) w = Ok (TEnd, L') w" "lexes [] L'"
    by (auto simp: ready_def)
  with assms show ?thesis
    by (subst yyparse.simps) (auto simp: parse_step_def peek_def ready_def intro!: exI)
qed

section \<open>Options\<close>

definition set_static :: "(static_cfg \<Rightarrow> static_cfg) \<Rightarrow> pstate \<Rightarrow> pstate" where
  "set_static f p = (case staticonfig p of None \<Rightarrow> p | Some i \<Rightarrow> p\<lparr>statics := (statics p)[i := f (statics p ! i)]\<rparr>)"

definition set_wpa :: "(wpa_cfg \<Rightarrow> wpa_cfg) \<Rightarrow> pstate \<Rightarrow> pstate" where
  "set_wpa f p = (case p_wpa p of None \<Rightarrow> p | Some i \<Rightarrow> p\<lparr>wpas := (wpas p)[i := f (wpas p ! i)]\<rparr>)"

text \<open>What an option with a string and one with a number does to the configuration.\<close>

definition static_sem :: "(kw \<times> (string \<Rightarrow> pstate \<Rightarrow> pstate)) list" where
  "static_sem = [
     (DOMAINNAME, \<lambda>s. set_static (\<lambda>c. c\<lparr>sc_domainname := Some s\<rparr>)),
     (DOMAINNAMESERVERS, \<lambda>s. set_static (\<lambda>c. c\<lparr>sc_domainserver := Some s\<rparr>)),
     (INET, \<lambda>s. set_static (\<lambda>c. c\<lparr>sc_inet := Some s\<rparr>)),
     (NETMASK, \<lambda>s. set_static (\<lambda>c. c\<lparr>sc_netmask := Some s\<rparr>))]"

definition str_sem :: "block \<Rightarrow> kw \<Rightarrow> (string \<Rightarrow> pstate \<Rightarrow> pstate) option" where
  "str_sem b = (case b of
     BEth \<Rightarrow> map_of ([
       (INTERFACE, \<lambda>s. on_eth (\<lambda>e. e\<lparr>eth_interface := take 128 s\<rparr>)),
       (LLADDR, \<lambda>s. on_eth (\<lambda>e. e\<lparr>eth_lladdr := Some s\<rparr>)),
       (RUNUP, \<lambda>s. on_eth (\<lambda>e. e\<lparr>eth_run_up := Some s\<rparr>)),
       (RUNDOWN, \<lambda>s. on_eth (\<lambda>e. e\<lparr>eth_run_down := Some s\<rparr>))] @ static_sem)
   | BWlan \<Rightarrow> map_of ([
       (INTERFACE, \<lambda>s. on_wlan (\<lambda>x. x\<lparr>wl_interface := take 128 s\<rparr>)),
       (NWID, \<lambda>s. on_wlan (\<lambda>x. x\<lparr>wl_nwid := Some s\<rparr>)),
       (BSSID, \<lambda>s. on_wlan (\<lambda>x. x\<lparr>wl_bssid := Some s\<rparr>)),
       (LLADDR, \<lambda>s. on_wlan (\<lambda>x. x\<lparr>wl_lladdr := Some s\<rparr>)),
       (RUNUP, \<lambda>s. on_wlan (\<lambda>x. x\<lparr>wl_run_up := Some s\<rparr>)),
       (RUNDOWN, \<lambda>s. on_wlan (\<lambda>x. x\<lparr>wl_run_down := Some s\<rparr>))] @ static_sem)
   | BWpa \<Rightarrow> map_of [
       (WPAKEY, \<lambda>s. set_wpa (\<lambda>c. c\<lparr>wc_wpakey := Some s\<rparr>)),
       (WPAGROUPCIPHER, \<lambda>s. set_wpa (\<lambda>c. c\<lparr>wc_wpagroupcipher := Some s\<rparr>)),
       (WPAAKMS, \<lambda>s. set_wpa (\<lambda>c. c\<lparr>wc_wpaakms := Some s\<rparr>)),
       (WPACIPHERS, \<lambda>s. set_wpa (\<lambda>c. c\<lparr>wc_wpaciphers := Some s\<rparr>))]
   | BWep \<Rightarrow> map_of [(WEPKEY, \<lambda>s. on_wlan (\<lambda>x. x\<lparr>wl_wep_nwkex := Some s\<rparr>))]
   | _ \<Rightarrow> (\<lambda>_. None))"

definition num_sem :: "block \<Rightarrow> kw \<Rightarrow> (int \<Rightarrow> pstate \<Rightarrow> pstate) option" where
  "num_sem b = (case b of
     BEth \<Rightarrow> map_of [(PRIORITY, \<lambda>n. on_eth (\<lambda>e. e\<lparr>eth_priority := to_int n\<rparr>))]
   | BWlan \<Rightarrow> map_of [
       (PRIORITY, \<lambda>n. on_wlan (\<lambda>x. x\<lparr>wl_priority := to_int n\<rparr>)),
       (CHANNEL, \<lambda>n. on_wlan (\<lambda>x. x\<lparr>wl_channel := to_int n\<rparr>)),
       (MINSIGNAL, \<lambda>n. on_wlan (\<lambda>x. x\<lparr>wl_minsignal := to_int n\<rparr>))]
   | _ \<Rightarrow> (\<lambda>_. None))"

text \<open>Actions leave the place in the file alone.\<close>

definition neutral :: "(pstate \<Rightarrow> pstate) \<Rightarrow> bool" where
  "neutral g \<longleftrightarrow> (\<forall>p. lx (g p) = lx p \<and> ahead (g p) = ahead p \<and> errflag (g p) = errflag p \<and> blocks (g p) = blocks p \<and>
     core (g p) = g (core p))"

lemma neutral_ready: "neutral g \<Longrightarrow> ready bs ts (g p) \<longleftrightarrow> ready bs ts p"
  by (simp add: neutral_def ready_def)

lemma neutral_ops [simp]:
  "neutral (on_eth f)" "neutral (on_wlan f')" "neutral (set_static h)" "neutral (set_wpa h')"
  "neutral (point_eth q)" "neutral (point_wlan q)"
  by (auto simp: neutral_def on_eth_def on_wlan_def set_static_def set_wpa_def point_eth_def point_wlan_def
      split: list.split option.split)

lemma str_sem_option:
  assumes "str_sem b k = Some g"
  shows "\<exists>f. option_of K b k = Some (with_string K f) \<and> neutral (g s) \<and>
     (\<forall>p w. staticonfig p \<noteq> None \<longrightarrow> p_wpa p \<noteq> None \<or> b \<noteq> BWpa \<longrightarrow> f s p w = Ok (True, g s p) w)"
  using assms
  by (cases b) (auto simp: str_sem_def static_sem_def option_of_def act_def on_static_def on_wpa_def set_static_def
      set_wpa_def split: if_splits)

lemma num_sem_option:
  assumes "num_sem b k = Some g"
  shows "\<exists>f. option_of K b k = Some (with_number K f) \<and> neutral (g n) \<and> (\<forall>p w. f n p w = Ok (True, g n p) w)"
  using assms
  by (cases b) (auto simp: num_sem_def option_of_def act_def split: if_splits)

lemma option_line:
  assumes K: "k_mem K = (\<lambda>_. True)" and r: "ready ((b, pl) # r) (PKw k # a # PNl # ts) p" and pl: "pl = PFirst \<or> pl = PMore"
    and f: "option_of K b k = Some f"
    and run: "\<And>p1 w1. ready ((b, after_option b pl) # r) (a # PNl # ts) p1 \<Longrightarrow> core p1 = core p \<Longrightarrow>
       \<exists>q w2. f p1 w1 = Ok (True, q) w2 \<and> ready ((b, after_option b pl) # r) (PNl # ts) q \<and> core q = c"
  shows "\<exists>p' w'. yyparse K p w = yyparse K p' w' \<and> core p' = c \<and> ready ((b, PMore) # r) ts p'"
proof -
  from option_step[OF K r pl f, of w] obtain p1 w1 where
    p1: "ready ((b, after_option b pl) # r) (a # PNl # ts) p1" "core p1 = core p"
      "\<forall>q w2. f p1 w1 = Ok (True, q) w2 \<longrightarrow> yyparse K p w = yyparse K q w2" by blast
  from run[OF p1(1,2), of w1] obtain q w2 where
    q: "f p1 w1 = Ok (True, q) w2" "ready ((b, after_option b pl) # r) (PNl # ts) q" "core q = c" by blast
  have "after_option b pl = PFirst \<or> after_option b pl = PMore \<or> after_option b pl = PLine" by (simp add: after_option_def)
  from line_step[OF K q(2) this, of w2] p1(3) q show ?thesis by (auto simp: after_option_def split: if_splits)
qed

lemma string_line:
  assumes "k_mem K = (\<lambda>_. True)" "ready ((b, pl) # r) (PKw k # PStr s # PNl # ts) p" "pl = PFirst \<or> pl = PMore"
    "str_sem b k = Some g" "staticonfig (core p) \<noteq> None" "p_wpa (core p) \<noteq> None \<or> b \<noteq> BWpa"
  shows "\<exists>p' w'. yyparse K p w = yyparse K p' w' \<and> core p' = g s (core p) \<and> ready ((b, PMore) # r) ts p'"
proof -
  from str_sem_option[OF assms(4), of K s] obtain f where f: "option_of K b k = Some (with_string K f)" "neutral (g s)"
    "\<forall>p w. staticonfig p \<noteq> None \<longrightarrow> p_wpa p \<noteq> None \<or> b \<noteq> BWpa \<longrightarrow> f s p w = Ok (True, g s p) w" by blast
  show ?thesis
  proof (rule option_line[OF assms(1-3) f(1)])
    fix p1 w1
    assume a: "ready ((b, after_option b pl) # r) (PStr s # PNl # ts) p1" "core p1 = core p"
    from with_token(1)[OF assms(1) a(1), of f w1] obtain p2 w2 where
      p2: "with_string K f p1 w1 = f s p2 w2" "ready ((b, after_option b pl) # r) (PNl # ts) p2" "core p2 = core p" using a(2) by auto
    have "staticonfig p2 \<noteq> None" "p_wpa p2 \<noteq> None \<or> b \<noteq> BWpa"
      using assms(5,6) p2(3) core_fields(4,5)[of p2] by simp_all
    then have "f s p2 w2 = Ok (True, g s p2) w2" using f(3) by blast
    with p2(1) have "with_string K f p1 w1 = Ok (True, g s p2) w2" by simp
    with p2 f(2) show "\<exists>q w2. with_string K f p1 w1 = Ok (True, q) w2 \<and>
        ready ((b, after_option b pl) # r) (PNl # ts) q \<and> core q = g s (core p)"
      by (intro exI[of _ "g s p2"] exI[of _ w2]) (auto simp: neutral_ready, simp add: neutral_def)
  qed
qed

lemma number_line:
  assumes "k_mem K = (\<lambda>_. True)" "ready ((b, pl) # r) (PKw k # PNum n # PNl # ts) p" "pl = PFirst \<or> pl = PMore"
    "num_sem b k = Some g"
  shows "\<exists>p' w'. yyparse K p w = yyparse K p' w' \<and> core p' = g (int n) (core p) \<and> ready ((b, PMore) # r) ts p'"
proof -
  from num_sem_option[OF assms(4), of K "int n"] obtain f where f: "option_of K b k = Some (with_number K f)"
    "neutral (g (int n))" "\<forall>p w. f (int n) p w = Ok (True, g (int n) p) w" by blast
  show ?thesis
  proof (rule option_line[OF assms(1-3) f(1)])
    fix p1 w1
    assume a: "ready ((b, after_option b pl) # r) (PNum n # PNl # ts) p1" "core p1 = core p"
    from with_token(2)[OF assms(1) a(1), of f w1] obtain p2 w2 where
      p2: "with_number K f p1 w1 = f (int n) p2 w2" "ready ((b, after_option b pl) # r) (PNl # ts) p2" "core p2 = core p" using a(2) by auto
    with f show "\<exists>q w2. with_number K f p1 w1 = Ok (True, q) w2 \<and>
        ready ((b, after_option b pl) # r) (PNl # ts) q \<and> core q = g (int n) (core p)"
      by (intro exI[of _ "g (int n) p2"] exI[of _ w2]) (auto simp: neutral_ready, simp add: neutral_def)
  qed
qed

end
