(* ===== verification/Conf_Roundtrip.thy ===== *)
theory Conf_Roundtrip
  imports Conf_Print
begin

text \<open>
  Configuration files printed from a configuration are parsed to the same configuration
  (\<open>ifconfigd/parse.y\<close>). The runs of the parser over a piece of the file compose; options, blocks
  and networks are one such piece each.
\<close>

section \<open>Runs\<close>

text \<open>The parser gets from one position to another, whatever the state of its lexer.\<close>

definition goes ::
  "kernel \<Rightarrow> (block \<times> place) list \<times> ptok list \<times> pstate \<Rightarrow> (block \<times> place) list \<times> ptok list \<times> pstate \<Rightarrow> bool" where
  "goes K a b \<longleftrightarrow> (\<forall>p w. ready (fst a) (fst (snd a)) p \<longrightarrow> core p = snd (snd a) \<longrightarrow>
     (\<exists>p' w'. yyparse K p w = yyparse K p' w' \<and> ready (fst b) (fst (snd b)) p' \<and> core p' = snd (snd b)))"

lemma goesI:
  assumes "\<And>p w. ready bs ts p \<Longrightarrow> core p = c \<Longrightarrow>
      \<exists>p' w'. yyparse K p w = yyparse K p' w' \<and> core p' = c' \<and> ready bs' ts' p'"
  shows "goes K (bs, ts, c) (bs', ts', c')"
  using assms unfolding goes_def by (metis fst_conv snd_conv)

lemma goes_refl: "goes K a a"
  unfolding goes_def by blast

lemma goes_trans [trans]: "goes K a b \<Longrightarrow> goes K b c \<Longrightarrow> goes K a c"
  unfolding goes_def by metis

lemma goes_line:
  assumes "k_mem K = (\<lambda>_. True)" "pl = PFirst \<or> pl = PMore \<or> pl = PLine"
  shows "goes K ((b, pl) # r, PNl # ts, c) ((b, if pl = PLine then PMore else pl) # r, ts, c)"
  by (rule goesI) (use line_step[OF assms(1) _ assms(2)] in metis)

lemma goes_close:
  assumes "k_mem K = (\<lambda>_. True)" "pl = PFirst \<or> pl = PMore" "b \<noteq> BTop"
  shows "goes K ((b, pl) # r, PRbrace # ts, c) (r, ts, end_block b c)"
  by (rule goesI) (use close_step[OF assms(1) _ assms(2,3)] in metis)

section \<open>Lines\<close>

text \<open>One line of a block: an option with its argument.\<close>

datatype pline = LStr kw string | LNum kw int | LDhcp bool

fun line_toks :: "pline \<Rightarrow> ptok list" where
  "line_toks (LStr k s) = [PKw k, PStr s, PNl]"
| "line_toks (LNum k n) = [PKw k, PNum (nat n), PNl]"
| "line_toks (LDhcp y) = [PKw DHCP, PKw (if y then YES else NO), PNl]"

definition lines_toks :: "pline list \<Rightarrow> ptok list" where
  "lines_toks ls = concat (map line_toks ls)"

definition opt_line :: "kw \<Rightarrow> string option \<Rightarrow> pline list" where
  "opt_line k v = (case v of None \<Rightarrow> [] | Some s \<Rightarrow> [LStr k s])"

definition dhcp_sem :: "block \<Rightarrow> bool \<Rightarrow> pstate \<Rightarrow> pstate" where
  "dhcp_sem b y p =
     (if b = BEth then
        (if y then point_eth None (on_eth (\<lambda>e. e\<lparr>eth_isdhcp := 1\<rparr>) p)
         else (let p1 = on_eth (\<lambda>e. e\<lparr>eth_isdhcp := 0\<rparr>) p in point_eth (staticonfig p1) p1))
      else if y then on_wlan (\<lambda>x. x\<lparr>wl_isdhcp := 1\<rparr>) p
      else (let p1 = on_wlan (\<lambda>x. x\<lparr>wl_isdhcp := 0\<rparr>) p;
                p2 = p1\<lparr>statics := statics p1 @ [zero_static], staticonfig := Some (length (statics p1))\<rparr> in
            point_wlan (staticonfig p2) p2))"

fun line_sem :: "block \<Rightarrow> pline \<Rightarrow> (pstate \<Rightarrow> pstate) option" where
  "line_sem b (LStr k s) = map_option (\<lambda>g. g s) (str_sem b k)"
| "line_sem b (LNum k n) = (if n < 0 then None else map_option (\<lambda>g. g n) (num_sem b k))"
| "line_sem b (LDhcp y) = (if b = BEth \<or> b = BWlan then Some (dhcp_sem b y) else None)"

text \<open>What the lines of a block do, if each of them is an option there.\<close>

fun lines_sem :: "block \<Rightarrow> pline list \<Rightarrow> pstate \<Rightarrow> pstate" where
  "lines_sem b [] c = c"
| "lines_sem b (l # ls) c = lines_sem b ls (case line_sem b l of None \<Rightarrow> c | Some g \<Rightarrow> g c)"

lemma lines_sem_append [simp]: "lines_sem b (xs @ ys) c = lines_sem b ys (lines_sem b xs c)"
  by (induction xs arbitrary: c) auto

lemma lines_sem_opt:
  "str_sem b k = Some g \<Longrightarrow> lines_sem b (opt_line k v) c = (case v of None \<Rightarrow> c | Some s \<Rightarrow> g s c)"
  by (simp add: opt_line_def split: option.split)

lemma opt_line_ok [simp]: "str_sem b k = Some g \<Longrightarrow> l \<in> set (opt_line k v) \<Longrightarrow> line_sem b l \<noteq> None"
  by (auto simp: opt_line_def split: option.splits)

text \<open>The pointers the options write through are set, and lines keep them so.\<close>

definition aimed :: "block \<Rightarrow> pstate \<Rightarrow> bool" where
  "aimed b c \<longleftrightarrow> staticonfig c \<noteq> None \<and> (p_wpa c \<noteq> None \<or> b \<noteq> BWpa)"

lemma pointers_kept [simp]:
  "staticonfig (on_eth f c) = staticonfig c" "staticonfig (on_wlan f' c) = staticonfig c"
  "staticonfig (point_eth q c) = staticonfig c" "staticonfig (point_wlan q c) = staticonfig c"
  "staticonfig (set_static h c) = staticonfig c" "staticonfig (set_wpa h' c) = staticonfig c"
  "p_wpa (on_eth f c) = p_wpa c" "p_wpa (on_wlan f' c) = p_wpa c"
  "p_wpa (point_eth q c) = p_wpa c" "p_wpa (point_wlan q c) = p_wpa c"
  "p_wpa (set_static h c) = p_wpa c" "p_wpa (set_wpa h' c) = p_wpa c"
  by (simp_all add: on_eth_def on_wlan_def point_eth_def point_wlan_def set_static_def set_wpa_def
      split: list.split option.split)

lemma line_sem_aimed:
  assumes "line_sem b l = Some g" "aimed b c"
  shows "aimed b (g c)"
proof (cases l)
  case (LStr k s)
  then obtain h where "str_sem b k = Some h" "g = h s" using assms(1) by auto
  then show ?thesis using assms(2)
    by (cases b) (auto simp: str_sem_def static_sem_def aimed_def split: if_splits)
next
  case (LNum k n)
  then obtain h where "num_sem b k = Some h" "g = h n" using assms(1) by (auto split: if_splits)
  then show ?thesis using assms(2) by (cases b) (auto simp: num_sem_def aimed_def split: if_splits)
next
  case (LDhcp y)
  then show ?thesis using assms by (auto simp: dhcp_sem_def aimed_def Let_def split: if_splits)
qed

lemma neutral_comp: "neutral g \<Longrightarrow> neutral h \<Longrightarrow> neutral (\<lambda>p. g (h p))"
  by (simp add: neutral_def)

lemma neutral_point: "neutral (\<lambda>p. point_eth (staticonfig p) p)" "neutral (\<lambda>p. point_wlan (staticonfig p) p)"
  by (auto simp: neutral_def point_eth_def point_wlan_def split: list.split)

lemma neutral_static: "neutral (\<lambda>p. p\<lparr>statics := statics p @ [x], staticonfig := Some (length (statics p))\<rparr>)"
  by (simp add: neutral_def)

lemma neutral_dhcp: "neutral (dhcp_sem b y)"
  unfolding dhcp_sem_def[abs_def] Let_def
  by (cases y; cases "b = BEth")
     (simp_all add: neutral_comp[OF neutral_ops(5) neutral_ops(1)] neutral_comp[OF neutral_point(1) neutral_ops(1), simplified]
       neutral_comp[OF neutral_point(2) neutral_comp[OF neutral_static neutral_ops(2)], simplified])

lemma calloc_ok: "k_mem K = (\<lambda>_. True) \<Longrightarrow> \<exists>w'. calloc K n msg f p w = f p w'"
  by (auto simp: alloc_def calloc_def)

lemma dhcp_option:
  assumes "k_mem K = (\<lambda>_. True)" "b = BEth \<or> b = BWlan"
  shows "\<exists>f. option_of K b DHCP = Some (with_yesno K f) \<and>
     (\<forall>p w. staticonfig p \<noteq> None \<longrightarrow> (\<exists>w'. f y p w = Ok (True, dhcp_sem b y p) w'))"
  using assms
  by (auto simp: option_of_def act_def dhcp_sem_def Let_def new_static_def calloc_def alloc_def)

lemma goes_pline:
  assumes K: "k_mem K = (\<lambda>_. True)" and pl: "pl = PFirst \<or> pl = PMore" and l: "line_sem b l = Some g" and c: "aimed b c"
  shows "goes K ((b, pl) # r, line_toks l @ ts, c) ((b, PMore) # r, ts, g c)"
proof (rule goesI)
  fix p w
  assume p: "ready ((b, pl) # r) (line_toks l @ ts) p" "core p = c"
  show "\<exists>p' w'. yyparse K p w = yyparse K p' w' \<and> core p' = g c \<and> ready ((b, PMore) # r) ts p'"
  proof (cases l)
    case (LStr k s)
    with l obtain h where "str_sem b k = Some h" "g = h s" by auto
    with string_line[OF K _ pl, of b r k s ts p h w] p c LStr show ?thesis by (simp add: aimed_def)
  next
    case (LNum k n)
    with l obtain h where "num_sem b k = Some h" "g = h n" "n \<ge> 0" by (auto split: if_splits)
    with number_line[OF K _ pl, of b r k "nat n" ts p h w] p LNum show ?thesis by simp
  next
    case (LDhcp y)
    with l have b: "b = BEth \<or> b = BWlan" and g: "g = dhcp_sem b y" by (auto split: if_splits)
    from dhcp_option[OF K b, of y] obtain f where f: "option_of K b DHCP = Some (with_yesno K f)"
      "\<And>p w. staticonfig p \<noteq> None \<Longrightarrow> \<exists>w'. f y p w = Ok (True, dhcp_sem b y p) w'" by blast
    have r: "ready ((b, pl) # r) (PKw DHCP # PKw (if y then YES else NO) # PNl # ts) p" using p(1) LDhcp by simp
    show ?thesis
    proof (rule option_line[OF K r pl f(1)])
      fix p1 w1
      assume a: "ready ((b, after_option b pl) # r) (PKw (if y then YES else NO) # PNl # ts) p1" "core p1 = core p"
      from with_token(3)[OF K a(1), of f w1] obtain p2 w2 where
        p2: "with_yesno K f p1 w1 = f y p2 w2" "ready ((b, after_option b pl) # r) (PNl # ts) p2" "core p2 = c"
        using a(2) p(2) by auto
      have "staticonfig p2 \<noteq> None" using c p2(3) core_fields(4)[of p2] by (simp add: aimed_def)
      from f(2)[OF this, of w2] obtain w3 where "f y p2 w2 = Ok (True, dhcp_sem b y p2) w3" by blast
      with p2 g neutral_dhcp[of b y]
      show "\<exists>q w2. with_yesno K f p1 w1 = Ok (True, q) w2 \<and> ready ((b, after_option b pl) # r) (PNl # ts) q \<and> core q = g c"
        by (intro exI[of _ "dhcp_sem b y p2"] exI[of _ w3]) (auto simp: neutral_ready, simp add: neutral_def)
    qed
  qed
qed

lemma goes_lines:
  assumes K: "k_mem K = (\<lambda>_. True)"
  shows "\<forall>l\<in>set ls. line_sem b l \<noteq> None \<Longrightarrow> aimed b c \<Longrightarrow>
    goes K ((b, PMore) # r, lines_toks ls @ ts, c) ((b, PMore) # r, ts, lines_sem b ls c)"
proof (induction ls arbitrary: c)
  case (Cons l ls)
  then obtain g where g: "line_sem b l = Some g" by auto
  have "goes K ((b, PMore) # r, line_toks l @ lines_toks ls @ ts, c) ((b, PMore) # r, lines_toks ls @ ts, g c)"
    by (rule goes_pline[OF K _ g Cons.prems(2)]) simp
  also have "goes K \<dots> ((b, PMore) # r, ts, lines_sem b ls (g c))"
    by (rule Cons.IH) (use Cons.prems line_sem_aimed[OF g] in auto)
  finally show ?case using g by (simp add: lines_toks_def)
qed (simp add: lines_toks_def goes_refl)

text \<open>The lines of a block between its braces; the first line of the block is not empty.\<close>

lemma goes_body:
  assumes K: "k_mem K = (\<lambda>_. True)" and ls: "\<forall>l\<in>set ls. line_sem b l \<noteq> None" "ls \<noteq> []" and c: "aimed b c"
  shows "goes K ((b, PFirst) # r, PNl # lines_toks ls @ ts, c) ((b, PMore) # r, ts, lines_sem b ls c)"
proof -
  from ls obtain l ls' g where l: "ls = l # ls'" "line_sem b l = Some g" by (cases ls) auto
  have "goes K ((b, PFirst) # r, PNl # lines_toks ls @ ts, c) ((b, PFirst) # r, line_toks l @ lines_toks ls' @ ts, c)"
    using goes_line[OF K, of PFirst b r "lines_toks ls @ ts" c] l by (simp add: lines_toks_def)
  also have "goes K \<dots> ((b, PMore) # r, lines_toks ls' @ ts, g c)"
    by (rule goes_pline[OF K _ l(2) c]) simp
  also have "goes K \<dots> ((b, PMore) # r, ts, lines_sem b ls' (g c))"
    by (rule goes_lines[OF K]) (use ls l line_sem_aimed[OF l(2) c] in auto)
  finally show ?thesis using l by simp
qed

section \<open>Blocks\<close>

text \<open>Into a block, with a name and without, and through one up to the line after it.\<close>

lemma goes_open:
  assumes K: "k_mem K = (\<lambda>_. True)" and pl: "pl = PFirst \<or> pl = PMore" and f: "option_of K b k = Some (with_string K f)"
    and run: "\<And>bs p w. ready bs (PLbrace # ts) p \<Longrightarrow>
      \<exists>p' w'. f s p w = Ok (True, p') w' \<and> ready ((b', PFirst) # bs) ts p' \<and> core p' = g (core p)"
  shows "goes K ((b, pl) # r, PKw k # PStr s # PLbrace # ts, c) ((b', PFirst) # (b, after_option b pl) # r, ts, g c)"
proof (rule goesI)
  fix p w
  assume p: "ready ((b, pl) # r) (PKw k # PStr s # PLbrace # ts) p" "core p = c"
  from option_step[OF K p(1) pl f, of w] obtain p1 w1 where
    p1: "ready ((b, after_option b pl) # r) (PStr s # PLbrace # ts) p1" "core p1 = core p"
      "\<forall>q w2. with_string K f p1 w1 = Ok (True, q) w2 \<longrightarrow> yyparse K p w = yyparse K q w2" by blast
  from with_token(1)[OF K p1(1), of f w1] obtain p2 w2 where
    p2: "with_string K f p1 w1 = f s p2 w2" "ready ((b, after_option b pl) # r) (PLbrace # ts) p2" "core p2 = core p1" by blast
  from run[OF p2(2), of w2] p1 p2 p(2)
  show "\<exists>p' w'. yyparse K p w = yyparse K p' w' \<and> core p' = g c \<and> ready ((b', PFirst) # (b, after_option b pl) # r) ts p'"
    by auto
qed

lemma goes_sub:
  assumes K: "k_mem K = (\<lambda>_. True)" and pl: "pl = PFirst \<or> pl = PMore" and f: "option_of K b k = Some (open_block K b')"
  shows "goes K ((b, pl) # r, PKw k # PLbrace # ts, c) ((b', PFirst) # (b, after_option b pl) # r, ts, c)"
proof (rule goesI)
  fix p w
  assume p: "ready ((b, pl) # r) (PKw k # PLbrace # ts) p" "core p = c"
  from option_step[OF K p(1) pl f, of w] obtain p1 w1 where
    p1: "ready ((b, after_option b pl) # r) (PLbrace # ts) p1" "core p1 = core p"
      "\<forall>q w2. open_block K b' p1 w1 = Ok (True, q) w2 \<longrightarrow> yyparse K p w = yyparse K q w2" by blast
  from with_token(4)[OF K p1(1), of b' w1] p1 p(2)
  show "\<exists>p' w'. yyparse K p w = yyparse K p' w' \<and> core p' = c \<and> ready ((b', PFirst) # (b, after_option b pl) # r) ts p'"
    by auto
qed

lemma open_neutral:
  assumes "k_mem K = (\<lambda>_. True)" "neutral g" "\<exists>w'. f p w = open_block K b (g p) w'" "ready bs (PLbrace # ts) p"
  shows "\<exists>p' w'. f p w = Ok (True, p') w' \<and> ready ((b, PFirst) # bs) ts p' \<and> core p' = g (core p)"
proof -
  from assms(3) obtain w' where w': "f p w = open_block K b (g p) w'" by blast
  from with_token(4)[OF assms(1), of bs ts "g p" b w'] w' assms(2,4) show ?thesis
    by (auto simp: neutral_ready) (auto simp: neutral_def)
qed

text \<open>Out of a block and its line.\<close>

lemma goes_out:
  assumes K: "k_mem K = (\<lambda>_. True)" and pl: "pl = PFirst \<or> pl = PMore" "pl' = PFirst \<or> pl' = PMore" and b: "b \<noteq> BTop"
  shows "goes K ((b, pl) # (b', after_option b' pl') # r, PRbrace # PNl # ts, c) ((b', PMore) # r, ts, end_block b c)"
proof -
  have "goes K ((b, pl) # (b', after_option b' pl') # r, PRbrace # PNl # ts, c)
      ((b', after_option b' pl') # r, PNl # ts, end_block b c)"
    by (rule goes_close[OF K pl(1) b])
  also have "goes K \<dots> ((b', PMore) # r, ts, end_block b c)"
    using goes_line[OF K, of "after_option b' pl'" b' r ts "end_block b c"] pl(2)
    by (auto simp: after_option_def split: if_splits)
  finally show ?thesis .
qed

section \<open>Interfaces\<close>

text \<open>The state in an ethernet block: the interface in hand, its pointer, and the static options.\<close>

definition ES ::
  "pnet \<Rightarrow> pnet list \<Rightarrow> static_cfg list \<Rightarrow> pstate \<Rightarrow> ethernet \<Rightarrow> nat option \<Rightarrow> static_cfg \<Rightarrow> pstate" where
  "ES n ns st c e sp sc = c\<lparr>p_nets := n\<lparr>pn_eths := (e, sp) # pn_eths n\<rparr> # ns, statics := st @ [sc],
     staticonfig := Some (length st)\<rparr>"

lemma ES_ops [simp]:
  "on_eth f (ES n ns st c e sp sc) = ES n ns st c (f e) sp sc"
  "point_eth q (ES n ns st c e sp sc) = ES n ns st c e q sc"
  "set_static h (ES n ns st c e sp sc) = ES n ns st c e sp (h sc)"
  "staticonfig (ES n ns st c e sp sc) = Some (length st)"
  by (simp_all add: ES_def on_eth_def point_eth_def set_static_def)

lemma static_lines_ES [simp]:
  "sc_domainname x = None \<Longrightarrow> lines_sem BEth (opt_line DOMAINNAME v) (ES n ns st c e sp x) = ES n ns st c e sp (x\<lparr>sc_domainname := v\<rparr>)"
  "sc_domainserver x = None \<Longrightarrow> lines_sem BEth (opt_line DOMAINNAMESERVERS v) (ES n ns st c e sp x) = ES n ns st c e sp (x\<lparr>sc_domainserver := v\<rparr>)"
  "sc_inet x = None \<Longrightarrow> lines_sem BEth (opt_line INET v) (ES n ns st c e sp x) = ES n ns st c e sp (x\<lparr>sc_inet := v\<rparr>)"
  "sc_netmask x = None \<Longrightarrow> lines_sem BEth (opt_line NETMASK v) (ES n ns st c e sp x) = ES n ns st c e sp (x\<lparr>sc_netmask := v\<rparr>)"
  by (cases x; cases v; simp add: opt_line_def str_sem_def static_sem_def)+

lemma eth_lines_ES [simp]:
  "eth_lladdr e = None \<Longrightarrow> lines_sem BEth (opt_line LLADDR v) (ES n ns st c e sp x) = ES n ns st c (e\<lparr>eth_lladdr := v\<rparr>) sp x"
  "eth_run_up e = None \<Longrightarrow> lines_sem BEth (opt_line RUNUP v) (ES n ns st c e sp x) = ES n ns st c (e\<lparr>eth_run_up := v\<rparr>) sp x"
  "eth_run_down e = None \<Longrightarrow> lines_sem BEth (opt_line RUNDOWN v) (ES n ns st c e sp x) = ES n ns st c (e\<lparr>eth_run_down := v\<rparr>) sp x"
  by (cases e; cases v; simp add: opt_line_def str_sem_def static_sem_def)+

lemma static_eta [simp]:
  "\<lparr>sc_inet = sc_inet a, sc_netmask = sc_netmask a, sc_domainname = sc_domainname a, sc_domainserver = sc_domainserver a\<rparr> = a"
  by (cases a) simp

definition static_lines :: "static_cfg option \<Rightarrow> pline list" where
  "static_lines v = (case v of None \<Rightarrow> [] | Some c \<Rightarrow>
     opt_line DOMAINNAME (sc_domainname c) @ opt_line DOMAINNAMESERVERS (sc_domainserver c) @
     opt_line INET (sc_inet c) @ opt_line NETMASK (sc_netmask c))"

definition eth_lines :: "ethernet \<Rightarrow> pline list" where
  "eth_lines e = [LStr INTERFACE (eth_interface e), LNum PRIORITY (eth_priority e)] @ opt_line LLADDR (eth_lladdr e) @
     opt_line RUNUP (eth_run_up e) @ opt_line RUNDOWN (eth_run_down e) @ [LDhcp (eth_isdhcp e \<noteq> 0)] @
     static_lines (eth_staticopts e)"

definition eth_toks :: "ethernet \<Rightarrow> ptok list" where
  "eth_toks e = [PKw ETHERNETNAME, PStr (eth_name e), PLbrace, PNl] @ lines_toks (eth_lines e) @ [PRbrace, PNl]"

text \<open>What a configuration must be to come out of the parser.\<close>

definition int_ok :: "int \<Rightarrow> bool" where
  "int_ok n \<longleftrightarrow> 0 \<le> n \<and> n < 2 ^ 31"

definition opt_ok :: "string option \<Rightarrow> bool" where
  "opt_ok v = (case v of None \<Rightarrow> True | Some s \<Rightarrow> str_ok s)"

definition static_ok :: "static_cfg option \<Rightarrow> bool" where
  "static_ok v = (case v of None \<Rightarrow> True | Some c \<Rightarrow> opt_ok (sc_domainname c) \<and> opt_ok (sc_domainserver c) \<and>
     opt_ok (sc_inet c) \<and> opt_ok (sc_netmask c))"

definition eth_ok :: "ethernet \<Rightarrow> bool" where
  "eth_ok e \<longleftrightarrow> str_ok (eth_name e) \<and> length (eth_name e) \<le> 512 \<and> str_ok (eth_interface e) \<and>
     length (eth_interface e) \<le> 128 \<and> int_ok (eth_priority e) \<and> opt_ok (eth_lladdr e) \<and> opt_ok (eth_run_up e) \<and>
     opt_ok (eth_run_down e) \<and> static_ok (eth_staticopts e) \<and>
     eth_isdhcp e = (if eth_staticopts e = None then 1 else 0)"

lemma to_int_ok [simp]: "int_ok n \<Longrightarrow> to_int n = n"
  by (simp add: int_ok_def to_int_def sint_sbintrunc' signed_take_bit_int_eq_self)

lemma eth_lines_ok: "int_ok (eth_priority e) \<Longrightarrow> \<forall>l\<in>set (eth_lines e). line_sem BEth l \<noteq> None"
  by (auto simp: eth_lines_def static_lines_def str_sem_def num_sem_def static_sem_def opt_line_def int_ok_def
      split: option.splits)

lemma eth_lines_sem:
  assumes "eth_ok e"
  shows "lines_sem BEth (eth_lines e) (ES n ns st c (zero_eth\<lparr>eth_name := eth_name e\<rparr>) (Some (length st)) zero_static) =
    ES n ns st c (e\<lparr>eth_staticopts := None\<rparr>) (map_option (\<lambda>_. length st) (eth_staticopts e))
      (case eth_staticopts e of None \<Rightarrow> zero_static | Some sc \<Rightarrow> sc)"
proof -
  have *: "\<not> eth_priority e < 0" "take 128 (eth_interface e) = eth_interface e" "to_int (eth_priority e) = eth_priority e"
    using assms by (auto simp: eth_ok_def int_ok_def)
  show ?thesis
    using assms *
    by (cases e; cases "eth_staticopts e")
       (simp_all add: eth_lines_def static_lines_def str_sem_def num_sem_def dhcp_sem_def zero_eth_def zero_static_def
          eth_ok_def Let_def)
qed

definition new_eth :: "string \<Rightarrow> pstate \<Rightarrow> pstate" where
  "new_eth s p =
     (let p1 = (case p_nets p of n # ns \<Rightarrow>
            p\<lparr>p_nets := n\<lparr>pn_eths := (zero_eth\<lparr>eth_name := take 512 s\<rparr>, None) # pn_eths n\<rparr> # ns\<rparr> | [] \<Rightarrow> p);
          p2 = p1\<lparr>statics := statics p1 @ [zero_static], staticonfig := Some (length (statics p1))\<rparr> in
      point_eth (staticonfig p2) p2)"

lemma new_eth_neutral: "neutral (new_eth s)"
  by (auto simp: neutral_def new_eth_def Let_def point_eth_def split: list.split)

lemma new_eth_ES:
  "p_nets c = n # ns \<Longrightarrow> length s \<le> 512 \<Longrightarrow>
    new_eth s c = ES n ns (statics c) c (zero_eth\<lparr>eth_name := s\<rparr>) (Some (length (statics c))) zero_static"
  by (simp add: new_eth_def ES_def point_eth_def)

lemma new_eth_option:
  assumes "k_mem K = (\<lambda>_. True)"
  shows "\<exists>f. option_of K BNet ETHERNETNAME = Some (with_string K f) \<and>
    (\<forall>s p w. \<exists>w'. f s p w = open_block K BEth (new_eth s p) w')"
  unfolding option_of_def block.case net_option.simps
  by (rule exI, rule conjI, rule refl)
     (use assms in \<open>auto simp: calloc_def new_static_def alloc_def new_eth_def Let_def split: list.split\<close>)

lemma goes_eth:
  assumes K: "k_mem K = (\<lambda>_. True)" and pl: "pl = PFirst \<or> pl = PMore" and e: "eth_ok e" and c: "p_nets c = n # ns"
  shows "goes K ((BNet, pl) # r, eth_toks e @ ts, c) ((BNet, PMore) # r, ts,
    (ES n ns (statics c) c (e\<lparr>eth_staticopts := None\<rparr>) (map_option (\<lambda>_. length (statics c)) (eth_staticopts e))
      (case eth_staticopts e of None \<Rightarrow> zero_static | Some sc \<Rightarrow> sc))\<lparr>staticonfig := None\<rparr>)"
proof -
  let ?c1 = "new_eth (eth_name e) c" and ?ls = "lines_toks (eth_lines e)"
  have c1: "?c1 = ES n ns (statics c) c (zero_eth\<lparr>eth_name := eth_name e\<rparr>) (Some (length (statics c))) zero_static"
    using new_eth_ES[OF c] e by (simp add: eth_ok_def)
  obtain f where f: "option_of K BNet ETHERNETNAME = Some (with_string K f)"
      "\<And>p w. \<exists>w'. f (eth_name e) p w = open_block K BEth (new_eth (eth_name e) p) w'"
    using new_eth_option[OF K] by blast
  have "goes K ((BNet, pl) # r, PKw ETHERNETNAME # PStr (eth_name e) # PLbrace # PNl # ?ls @ [PRbrace, PNl] @ ts, c)
      ((BEth, PFirst) # (BNet, after_option BNet pl) # r, PNl # ?ls @ [PRbrace, PNl] @ ts, ?c1)"
    by (rule goes_open[OF K pl f(1)]) (rule open_neutral[OF K new_eth_neutral, where f = "f (eth_name e)", OF f(2)])
  also have "goes K \<dots> ((BEth, PMore) # (BNet, after_option BNet pl) # r, [PRbrace, PNl] @ ts, lines_sem BEth (eth_lines e) ?c1)"
    by (rule goes_body[OF K eth_lines_ok]) (use e c1 in \<open>auto simp: eth_ok_def aimed_def eth_lines_def\<close>)
  also have "goes K \<dots> ((BNet, PMore) # r, ts, end_block BEth (lines_sem BEth (eth_lines e) ?c1))"
    using goes_out[OF K _ pl, of PMore BEth BNet r ts "lines_sem BEth (eth_lines e) ?c1"] by simp
  finally show ?thesis by (simp add: c1 eth_lines_sem[OF e] end_block_def eth_toks_def)
qed

subsection \<open>Wireless networks\<close>

text \<open>The state in a wireless block. Both global pointers are those of the interface in hand.\<close>

definition WS ::
  "pnet \<Rightarrow> pnet list \<Rightarrow> static_cfg list \<Rightarrow> wpa_cfg list \<Rightarrow> pstate \<Rightarrow> wireless \<Rightarrow> nat option \<Rightarrow> static_cfg \<Rightarrow> wpa_cfg \<Rightarrow> pstate" where
  "WS n ns st ws c x sp t u = c\<lparr>p_nets := n\<lparr>pn_wlans := (x, sp, Some (length ws)) # pn_wlans n\<rparr> # ns,
     statics := st @ [t], staticonfig := Some (length st), wpas := ws @ [u], p_wpa := Some (length ws)\<rparr>"

lemma WS_ops [simp]:
  "on_wlan f (WS n ns st ws c x sp t u) = WS n ns st ws c (f x) sp t u"
  "point_wlan q (WS n ns st ws c x sp t u) = WS n ns st ws c x q t u"
  "set_static h (WS n ns st ws c x sp t u) = WS n ns st ws c x sp (h t) u"
  "set_wpa h' (WS n ns st ws c x sp t u) = WS n ns st ws c x sp t (h' u)"
  "staticonfig (WS n ns st ws c x sp t u) = Some (length st)" "p_wpa (WS n ns st ws c x sp t u) = Some (length ws)"
  by (simp_all add: WS_def on_wlan_def point_wlan_def set_static_def set_wpa_def)

lemma dhcp_WS [simp]:
  "dhcp_sem BWlan True (WS n ns st ws c x sp t u) = WS n ns st ws c (x\<lparr>wl_isdhcp := 1\<rparr>) sp t u"
  "dhcp_sem BWlan False (WS n ns st ws c x sp t u) =
     WS n ns (st @ [t]) ws c (x\<lparr>wl_isdhcp := 0\<rparr>) (Some (Suc (length st))) zero_static u"
  by (simp_all add: dhcp_sem_def Let_def) (simp add: WS_def point_wlan_def)

lemma static_lines_WS [simp]:
  "sc_domainname t = None \<Longrightarrow> lines_sem BWlan (opt_line DOMAINNAME v) (WS n ns st ws c x sp t u) =
     WS n ns st ws c x sp (t\<lparr>sc_domainname := v\<rparr>) u"
  "sc_domainserver t = None \<Longrightarrow> lines_sem BWlan (opt_line DOMAINNAMESERVERS v) (WS n ns st ws c x sp t u) =
     WS n ns st ws c x sp (t\<lparr>sc_domainserver := v\<rparr>) u"
  "sc_inet t = None \<Longrightarrow> lines_sem BWlan (opt_line INET v) (WS n ns st ws c x sp t u) =
     WS n ns st ws c x sp (t\<lparr>sc_inet := v\<rparr>) u"
  "sc_netmask t = None \<Longrightarrow> lines_sem BWlan (opt_line NETMASK v) (WS n ns st ws c x sp t u) =
     WS n ns st ws c x sp (t\<lparr>sc_netmask := v\<rparr>) u"
  by (cases t; cases v; simp add: opt_line_def str_sem_def static_sem_def)+

lemma wlan_lines_WS [simp]:
  "wl_nwid x = None \<Longrightarrow> lines_sem BWlan (opt_line NWID v) (WS n ns st ws c x sp t u) =
     WS n ns st ws c (x\<lparr>wl_nwid := v\<rparr>) sp t u"
  "wl_bssid x = None \<Longrightarrow> lines_sem BWlan (opt_line BSSID v) (WS n ns st ws c x sp t u) =
     WS n ns st ws c (x\<lparr>wl_bssid := v\<rparr>) sp t u"
  "wl_lladdr x = None \<Longrightarrow> lines_sem BWlan (opt_line LLADDR v) (WS n ns st ws c x sp t u) =
     WS n ns st ws c (x\<lparr>wl_lladdr := v\<rparr>) sp t u"
  "wl_run_up x = None \<Longrightarrow> lines_sem BWlan (opt_line RUNUP v) (WS n ns st ws c x sp t u) =
     WS n ns st ws c (x\<lparr>wl_run_up := v\<rparr>) sp t u"
  "wl_run_down x = None \<Longrightarrow> lines_sem BWlan (opt_line RUNDOWN v) (WS n ns st ws c x sp t u) =
     WS n ns st ws c (x\<lparr>wl_run_down := v\<rparr>) sp t u"
  by (cases x; cases v; simp add: opt_line_def str_sem_def static_sem_def)+

lemma wep_lines_WS [simp]:
  "wl_wep_nwkex x = None \<Longrightarrow> lines_sem BWep (opt_line WEPKEY v) (WS n ns st ws c x sp t u) =
     WS n ns st ws c (x\<lparr>wl_wep_nwkex := v\<rparr>) sp t u"
  by (cases x; cases v; simp add: opt_line_def str_sem_def static_sem_def)+

lemma wpa_lines_WS [simp]:
  "wc_wpakey u = None \<Longrightarrow> lines_sem BWpa (opt_line WPAKEY v) (WS n ns st ws c x sp t u) =
     WS n ns st ws c x sp t (u\<lparr>wc_wpakey := v\<rparr>)"
  "wc_wpagroupcipher u = None \<Longrightarrow> lines_sem BWpa (opt_line WPAGROUPCIPHER v) (WS n ns st ws c x sp t u) =
     WS n ns st ws c x sp t (u\<lparr>wc_wpagroupcipher := v\<rparr>)"
  "wc_wpaakms u = None \<Longrightarrow> lines_sem BWpa (opt_line WPAAKMS v) (WS n ns st ws c x sp t u) =
     WS n ns st ws c x sp t (u\<lparr>wc_wpaakms := v\<rparr>)"
  "wc_wpaciphers u = None \<Longrightarrow> lines_sem BWpa (opt_line WPACIPHERS v) (WS n ns st ws c x sp t u) =
     WS n ns st ws c x sp t (u\<lparr>wc_wpaciphers := v\<rparr>)"
  by (cases u; cases v; simp add: opt_line_def str_sem_def static_sem_def)+

lemma wpa_eta [simp]:
  "\<lparr>wc_wpakey = wc_wpakey a, wc_wpagroupcipher = wc_wpagroupcipher a, wc_wpaciphers = wc_wpaciphers a, wc_wpaakms = wc_wpaakms a\<rparr> = a"
  by (cases a) simp

definition wlan_lines :: "wireless \<Rightarrow> pline list" where
  "wlan_lines x = [LDhcp (wl_isdhcp x \<noteq> 0), LStr INTERFACE (wl_interface x), LNum PRIORITY (wl_priority x),
     LNum CHANNEL (wl_channel x), LNum MINSIGNAL (wl_minsignal x)] @ opt_line NWID (wl_nwid x) @ opt_line BSSID (wl_bssid x) @
     opt_line LLADDR (wl_lladdr x) @ opt_line RUNUP (wl_run_up x) @ opt_line RUNDOWN (wl_run_down x) @
     static_lines (wl_staticopts x)"

definition wpa_lines :: "wpa_cfg option \<Rightarrow> pline list" where
  "wpa_lines v = (case v of None \<Rightarrow> [] | Some u \<Rightarrow> opt_line WPAKEY (wc_wpakey u) @
     opt_line WPAGROUPCIPHER (wc_wpagroupcipher u) @ opt_line WPAAKMS (wc_wpaakms u) @ opt_line WPACIPHERS (wc_wpaciphers u))"

definition sub_toks :: "kw \<Rightarrow> pline list \<Rightarrow> ptok list" where
  "sub_toks k ls = (if ls = [] then [] else [PKw k, PLbrace, PNl] @ lines_toks ls @ [PRbrace, PNl])"

definition wlan_toks :: "wireless \<Rightarrow> ptok list" where
  "wlan_toks x = [PKw WIRELESSNAME, PStr (wl_name x), PLbrace, PNl] @ lines_toks (wlan_lines x) @
     sub_toks WPA (wpa_lines (wl_wpa x)) @ sub_toks WEP (opt_line WEPKEY (wl_wep_nwkex x)) @ [PRbrace, PNl]"

definition wpa_ok :: "wpa_cfg option \<Rightarrow> bool" where
  "wpa_ok v = (case v of None \<Rightarrow> False | Some u \<Rightarrow> opt_ok (wc_wpakey u) \<and> opt_ok (wc_wpagroupcipher u) \<and>
     opt_ok (wc_wpaakms u) \<and> opt_ok (wc_wpaciphers u))"

definition wlan_ok :: "wireless \<Rightarrow> bool" where
  "wlan_ok x \<longleftrightarrow> str_ok (wl_name x) \<and> length (wl_name x) \<le> 512 \<and> str_ok (wl_interface x) \<and>
     length (wl_interface x) \<le> 128 \<and> int_ok (wl_priority x) \<and> int_ok (wl_channel x) \<and> int_ok (wl_minsignal x) \<and>
     opt_ok (wl_nwid x) \<and> opt_ok (wl_bssid x) \<and> opt_ok (wl_lladdr x) \<and> opt_ok (wl_run_up x) \<and> opt_ok (wl_run_down x) \<and>
     static_ok (wl_staticopts x) \<and> wl_staticopts x \<noteq> None \<and> wpa_ok (wl_wpa x) \<and> opt_ok (wl_wep_nwkex x) \<and>
     (wl_isdhcp x = 0 \<or> wl_isdhcp x = 1)"

lemma wlan_lines_ok:
  "wlan_ok x \<Longrightarrow> \<forall>l\<in>set (wlan_lines x). line_sem BWlan l \<noteq> None"
  by (auto simp: wlan_ok_def wlan_lines_def static_lines_def str_sem_def num_sem_def static_sem_def opt_line_def int_ok_def
      split: option.splits)

lemma sub_lines_ok:
  "\<forall>l\<in>set (wpa_lines v). line_sem BWpa l \<noteq> None" "\<forall>l\<in>set (opt_line WEPKEY k). line_sem BWep l \<noteq> None"
  by (auto simp: wpa_lines_def str_sem_def opt_line_def split: option.splits)

text \<open>The static options of the interface are at the end of the store, behind the unused ones with \<open>dhcp no\<close>.\<close>

definition wlan_statics :: "wireless \<Rightarrow> static_cfg list \<Rightarrow> static_cfg list" where
  "wlan_statics x st = (if wl_isdhcp x = 0 then st @ [zero_static] else st)"

lemma wlan_lines_sem:
  assumes "wlan_ok x"
  shows "lines_sem BWlan (wlan_lines x) (WS n ns st ws c (zero_wlan\<lparr>wl_name := wl_name x\<rparr>) (Some (length st)) zero_static zero_wpa) =
    WS n ns (wlan_statics x st) ws c (x\<lparr>wl_staticopts := None, wl_wpa := None, wl_wep_nwkex := None\<rparr>)
      (Some (length (wlan_statics x st))) (the (wl_staticopts x)) zero_wpa"
proof -
  have *: "\<not> wl_priority x < 0" "\<not> wl_channel x < 0" "\<not> wl_minsignal x < 0" "take 128 (wl_interface x) = wl_interface x"
      "to_int (wl_priority x) = wl_priority x" "to_int (wl_channel x) = wl_channel x" "to_int (wl_minsignal x) = wl_minsignal x"
    using assms by (auto simp: wlan_ok_def int_ok_def)
  obtain t where t: "wl_staticopts x = Some t" using assms by (auto simp: wlan_ok_def)
  show ?thesis
    using assms * t
    by (cases x; cases "wl_isdhcp x = 0")
       (simp_all add: wlan_lines_def static_lines_def str_sem_def num_sem_def zero_wlan_def zero_static_def
          wlan_ok_def wlan_statics_def)
qed

lemma sub_lines_sem:
  assumes "wpa_ok v" "wl_wep_nwkex x = None"
  shows "lines_sem BWpa (wpa_lines v) (WS n ns st ws c x sp t zero_wpa) = WS n ns st ws c x sp t (the v)"
    "lines_sem BWep (opt_line WEPKEY k) (WS n ns st ws c x sp t u) = WS n ns st ws c (x\<lparr>wl_wep_nwkex := k\<rparr>) sp t u"
  using assms by (auto simp: wpa_ok_def wpa_lines_def zero_wpa_def split: option.splits)

lemma goes_subblock:
  assumes K: "k_mem K = (\<lambda>_. True)" and f: "option_of K b k = Some (open_block K b')" and b: "b' = BWpa \<or> b' = BWep"
    and ls: "\<forall>l\<in>set ls. line_sem b' l \<noteq> None" and c: "aimed b' c"
  shows "goes K ((b, PMore) # r, sub_toks k ls @ ts, c) ((b, PMore) # r, ts, lines_sem b' ls c)"
proof (cases "ls = []")
  case False
  have "goes K ((b, PMore) # r, PKw k # PLbrace # PNl # lines_toks ls @ [PRbrace, PNl] @ ts, c)
      ((b', PFirst) # (b, after_option b PMore) # r, PNl # lines_toks ls @ [PRbrace, PNl] @ ts, c)"
    by (rule goes_sub[OF K _ f]) simp
  also have "goes K \<dots> ((b', PMore) # (b, after_option b PMore) # r, [PRbrace, PNl] @ ts, lines_sem b' ls c)"
    by (rule goes_body[OF K ls False c])
  also have "goes K \<dots> ((b, PMore) # r, ts, end_block b' (lines_sem b' ls c))"
    using goes_out[OF K, of PMore PMore b' b r ts "lines_sem b' ls c"] b by auto
  finally show ?thesis using b False by (auto simp: end_block_def sub_toks_def)
qed (simp add: sub_toks_def goes_refl)

text \<open>A new wireless network: its structure, its static options, its wpa options and the pointers to them.\<close>

definition push_wlan :: "string \<Rightarrow> pstate \<Rightarrow> pstate" where
  "push_wlan s p = (case p_nets p of
     n # ns \<Rightarrow> p\<lparr>p_nets := n\<lparr>pn_wlans := (zero_wlan\<lparr>wl_name := take 512 s\<rparr>, None, None) # pn_wlans n\<rparr> # ns\<rparr>
   | [] \<Rightarrow> p)"

definition push_static :: "pstate \<Rightarrow> pstate" where
  "push_static p = p\<lparr>statics := statics p @ [zero_static], staticonfig := Some (length (statics p))\<rparr>"

definition push_wpa :: "pstate \<Rightarrow> pstate" where
  "push_wpa p = p\<lparr>wpas := wpas p @ [zero_wpa], p_wpa := Some (length (wpas p))\<rparr>"

definition point_wpa :: "pstate \<Rightarrow> pstate" where
  "point_wpa p = (case p_nets p of
     n # ns \<Rightarrow> (case pn_wlans n of
        (x, sp, wp) # r \<Rightarrow> p\<lparr>p_nets := n\<lparr>pn_wlans := (x, sp, p_wpa p) # r\<rparr> # ns\<rparr>
      | [] \<Rightarrow> p)
   | [] \<Rightarrow> p)"

definition new_wlan :: "string \<Rightarrow> pstate \<Rightarrow> pstate" where
  "new_wlan s p = (let p2 = push_static (push_wlan s p) in point_wpa (push_wpa (point_wlan (staticonfig p2) p2)))"

lemma new_wlan_neutral: "neutral (new_wlan s)"
proof -
  have "neutral point_wpa" "neutral push_wpa" "neutral push_static" "neutral (push_wlan s)"
    by (auto simp: neutral_def point_wpa_def push_wpa_def push_static_def push_wlan_def split: list.split)
  from neutral_comp[OF neutral_comp[OF this(1,2)] neutral_comp[OF neutral_point(2) neutral_comp[OF this(3,4)]]]
  show ?thesis by (simp add: new_wlan_def[abs_def] Let_def)
qed

lemma new_wlan_WS:
  "p_nets c = n # ns \<Longrightarrow> length s \<le> 512 \<Longrightarrow> new_wlan s c =
     WS n ns (statics c) (wpas c) c (zero_wlan\<lparr>wl_name := s\<rparr>) (Some (length (statics c))) zero_static zero_wpa"
  by (simp add: new_wlan_def WS_def point_wlan_def Let_def push_wlan_def push_static_def push_wpa_def point_wpa_def)

lemma new_wlan_option:
  assumes "k_mem K = (\<lambda>_. True)"
  shows "\<exists>f. option_of K BNet WIRELESSNAME = Some (with_string K f) \<and>
    (\<forall>s p w. \<exists>w'. f s p w = open_block K BWlan (new_wlan s p) w')"
  unfolding option_of_def block.case net_option.simps Let_def push_wlan_def[symmetric] point_wpa_def[symmetric]
    push_wpa_def[symmetric]
  by (rule exI, rule conjI, rule refl)
     (use assms in \<open>auto simp: calloc_def new_static_def alloc_def new_wlan_def Let_def push_static_def[symmetric]\<close>)

lemma goes_wlan:
  assumes K: "k_mem K = (\<lambda>_. True)" and pl: "pl = PFirst \<or> pl = PMore" and x: "wlan_ok x" and c: "p_nets c = n # ns"
  shows "goes K ((BNet, pl) # r, wlan_toks x @ ts, c) ((BNet, PMore) # r, ts,
    WS n ns (wlan_statics x (statics c)) (wpas c) c (x\<lparr>wl_staticopts := None, wl_wpa := None\<rparr>)
      (Some (length (wlan_statics x (statics c)))) (the (wl_staticopts x)) (the (wl_wpa x)))"
proof -
  let ?c1 = "new_wlan (wl_name x) c" and ?ls = "lines_toks (wlan_lines x)" and ?r = "(BNet, after_option BNet pl) # r"
  let ?p = "sub_toks WPA (wpa_lines (wl_wpa x))" and ?e = "sub_toks WEP (opt_line WEPKEY (wl_wep_nwkex x))"
  let ?S = "WS n ns (wlan_statics x (statics c)) (wpas c) c"
  let ?sp = "Some (length (wlan_statics x (statics c)))"
  let ?x1 = "x\<lparr>wl_staticopts := None, wl_wpa := None, wl_wep_nwkex := None\<rparr>"
  have wpa: "wpa_ok (wl_wpa x)" using x by (simp add: wlan_ok_def)
  have c1: "?c1 = WS n ns (statics c) (wpas c) c (zero_wlan\<lparr>wl_name := wl_name x\<rparr>) (Some (length (statics c))) zero_static zero_wpa"
    using new_wlan_WS[OF c] x by (simp add: wlan_ok_def)
  obtain f where f: "option_of K BNet WIRELESSNAME = Some (with_string K f)"
      "\<And>p w. \<exists>w'. f (wl_name x) p w = open_block K BWlan (new_wlan (wl_name x) p) w'"
    using new_wlan_option[OF K] by blast
  have "goes K ((BNet, pl) # r, PKw WIRELESSNAME # PStr (wl_name x) # PLbrace # PNl # ?ls @ ?p @ ?e @ [PRbrace, PNl] @ ts, c)
      ((BWlan, PFirst) # ?r, PNl # ?ls @ ?p @ ?e @ [PRbrace, PNl] @ ts, ?c1)"
    by (rule goes_open[OF K pl f(1)]) (rule open_neutral[OF K new_wlan_neutral, where f = "f (wl_name x)", OF f(2)])
  also have "goes K \<dots> ((BWlan, PMore) # ?r, ?p @ ?e @ [PRbrace, PNl] @ ts, ?S ?x1 ?sp (the (wl_staticopts x)) zero_wpa)"
    using goes_body[OF K wlan_lines_ok[OF x], of ?c1 ?r "?p @ ?e @ [PRbrace, PNl] @ ts"]
    by (simp add: c1 wlan_lines_sem[OF x]) (simp add: aimed_def wlan_lines_def)
  also have "goes K \<dots> ((BWlan, PMore) # ?r, ?e @ [PRbrace, PNl] @ ts, ?S ?x1 ?sp (the (wl_staticopts x)) (the (wl_wpa x)))"
    using goes_subblock[OF K, of BWlan WPA BWpa "wpa_lines (wl_wpa x)"] sub_lines_ok(1)
    by (simp add: option_of_def aimed_def sub_lines_sem(1)[OF wpa, of ?x1, symmetric])
  also have "goes K \<dots> ((BWlan, PMore) # ?r, [PRbrace, PNl] @ ts,
      ?S (?x1\<lparr>wl_wep_nwkex := wl_wep_nwkex x\<rparr>) ?sp (the (wl_staticopts x)) (the (wl_wpa x)))"
    using goes_subblock[OF K, of BWlan WEP BWep "opt_line WEPKEY (wl_wep_nwkex x)"
        "?S ?x1 ?sp (the (wl_staticopts x)) (the (wl_wpa x))"] sub_lines_ok(2)
    by (simp add: option_of_def aimed_def sub_lines_sem(2)[OF wpa])
  also have "goes K \<dots> ((BNet, PMore) # r, ts,
      ?S (?x1\<lparr>wl_wep_nwkex := wl_wep_nwkex x\<rparr>) ?sp (the (wl_staticopts x)) (the (wl_wpa x)))"
    using goes_out[OF K _ pl, of PMore BWlan BNet r ts] by (simp add: end_block_def)
  finally show ?thesis by (cases x) (simp add: wlan_toks_def)
qed

section \<open>Networks\<close>

text \<open>The pointers into the stores are in range; the networks are those of the finished configuration.\<close>

fun below :: "nat option \<Rightarrow> nat \<Rightarrow> bool" where
  "below None m \<longleftrightarrow> True"
| "below (Some i) m \<longleftrightarrow> i < m"

definition stored :: "pstate \<Rightarrow> bool" where
  "stored c \<longleftrightarrow> (\<forall>n\<in>set (p_nets c). (\<forall>e\<in>set (pn_eths n). below (snd e) (length (statics c))) \<and>
     (\<forall>x\<in>set (pn_wlans n). below (fst (snd x)) (length (statics c)) \<and> below (snd (snd x)) (length (wpas c))))"

definition the_net :: "pstate \<Rightarrow> pnet \<Rightarrow> network" where
  "the_net c n = \<lparr>nw_name = pn_name n, nw_priority = 0, ethernet_list = map (the_eth c) (pn_eths n),
     wireless_list = map (the_wlan c) (pn_wlans n)\<rparr>"

definition nets :: "pstate \<Rightarrow> network list" where
  "nets c = map (the_net c) (p_nets c)"

lemma the_conf_core: "the_conf (core p) = the_conf p"
  by (simp add: the_conf_def the_eth_def[abs_def] the_wlan_def[abs_def])

lemma the_conf_nets: "the_conf c = \<lparr>network_list = nets c, csock = [], upinterval = p_upinterval c\<rparr>"
  by (simp add: the_conf_def nets_def the_net_def)

text \<open>Stores only grow, so what was resolved stays so.\<close>

definition grows :: "pstate \<Rightarrow> pstate \<Rightarrow> bool" where
  "grows c c' \<longleftrightarrow> (\<exists>s u. statics c' = statics c @ s \<and> wpas c' = wpas c @ u)"

lemma below_append: "below q (length xs) \<Longrightarrow> map_option (nth (xs @ ys)) q = map_option (nth xs) q"
  by (cases q) (auto simp: nth_append)

lemma below_mono: "below q m \<Longrightarrow> m \<le> m' \<Longrightarrow> below q m'"
  by (cases q) auto

lemma resolve_grows:
  assumes "grows c c'"
  shows "below (snd e) (length (statics c)) \<Longrightarrow> the_eth c' e = the_eth c e"
    "below (fst (snd x)) (length (statics c)) \<Longrightarrow> below (snd (snd x)) (length (wpas c)) \<Longrightarrow> the_wlan c' x = the_wlan c x"
  using assms by (auto simp: grows_def the_eth_def the_wlan_def below_append split: prod.split)

lemma stores_grow:
  assumes "stored c" "grows c c'" "n \<in> set (p_nets c)"
  shows "the_net c' n = the_net c n"
    "\<forall>e\<in>set (pn_eths n). below (snd e) (length (statics c'))"
    "\<forall>x\<in>set (pn_wlans n). below (fst (snd x)) (length (statics c')) \<and> below (snd (snd x)) (length (wpas c'))"
proof -
  have r: "\<forall>e\<in>set (pn_eths n). below (snd e) (length (statics c))"
      "\<forall>x\<in>set (pn_wlans n). below (fst (snd x)) (length (statics c)) \<and> below (snd (snd x)) (length (wpas c))"
    using assms(1,3) by (auto simp: stored_def)
  then show "the_net c' n = the_net c n" using resolve_grows[OF assms(2)] by (auto simp: the_net_def)
  have "length (statics c) \<le> length (statics c')" "length (wpas c) \<le> length (wpas c')" using assms(2) by (auto simp: grows_def)
  then show "\<forall>e\<in>set (pn_eths n). below (snd e) (length (statics c'))"
      "\<forall>x\<in>set (pn_wlans n). below (fst (snd x)) (length (statics c')) \<and> below (snd (snd x)) (length (wpas c'))"
    using r below_mono by blast+
qed

text \<open>A network in hand with one more interface.\<close>

lemma nets_extend:
  assumes "stored c" "grows c c'" "p_nets c = n # ns" "p_nets c' = n' # ns"
    "pn_name n' = pn_name n"
    "pn_eths n' = es @ pn_eths n" "pn_wlans n' = xs @ pn_wlans n"
    "\<forall>e\<in>set es. below (snd e) (length (statics c'))"
    "\<forall>x\<in>set xs. below (fst (snd x)) (length (statics c')) \<and> below (snd (snd x)) (length (wpas c'))"
  shows "stored c'"
    "nets c' = (the_net c n)\<lparr>ethernet_list := map (the_eth c') es @ ethernet_list (the_net c n),
       wireless_list := map (the_wlan c') xs @ wireless_list (the_net c n)\<rparr> # tl (nets c)"
proof -
  have r: "\<And>m. m \<in> set (n # ns) \<Longrightarrow> the_net c' m = the_net c m"
    using stores_grow(1)[OF assms(1,2)] assms(3) by simp
  show "stored c'"
    unfolding stored_def
  proof
    fix m
    assume "m \<in> set (p_nets c')"
    then consider "m = n'" | "m \<in> set ns" using assms(4) by auto
    then show "(\<forall>e\<in>set (pn_eths m). below (snd e) (length (statics c'))) \<and>
      (\<forall>x\<in>set (pn_wlans m). below (fst (snd x)) (length (statics c')) \<and> below (snd (snd x)) (length (wpas c')))"
    proof cases
      case 1
      with stores_grow(2,3)[OF assms(1,2), of n] assms(3,6-9) show ?thesis by auto
    next
      case 2
      with stores_grow(2,3)[OF assms(1,2), of m] assms(3) show ?thesis by auto
    qed
  qed
  have "the_net c' n' = (the_net c' n)\<lparr>ethernet_list := map (the_eth c') es @ ethernet_list (the_net c' n),
       wireless_list := map (the_wlan c') xs @ wireless_list (the_net c' n)\<rparr>"
    using assms(5-7) by (simp add: the_net_def)
  then show "nets c' = (the_net c n)\<lparr>ethernet_list := map (the_eth c') es @ ethernet_list (the_net c n),
       wireless_list := map (the_wlan c') xs @ wireless_list (the_net c n)\<rparr> # tl (nets c)"
    using r assms(3,4) by (simp add: nets_def)
qed

lemma reach_eth:
  assumes K: "k_mem K = (\<lambda>_. True)" and pl: "pl = PFirst \<or> pl = PMore" and e: "eth_ok e" and c: "stored c" "nets c = N # Ns"
  shows "\<exists>c'. goes K ((BNet, pl) # r, eth_toks e @ ts, c) ((BNet, PMore) # r, ts, c') \<and> stored c' \<and>
    nets c' = N\<lparr>ethernet_list := e # ethernet_list N\<rparr> # Ns \<and> p_upinterval c' = p_upinterval c"
proof -
  obtain n ns where n: "p_nets c = n # ns" "the_net c n = N" "Ns = tl (nets c)" using c(2) by (auto simp: nets_def)
  let ?sp = "map_option (\<lambda>_. length (statics c)) (eth_staticopts e)"
  let ?sc = "case eth_staticopts e of None \<Rightarrow> zero_static | Some sc \<Rightarrow> sc"
  let ?c = "(ES n ns (statics c) c (e\<lparr>eth_staticopts := None\<rparr>) ?sp ?sc)\<lparr>staticonfig := None\<rparr>"
  have "the_eth ?c (e\<lparr>eth_staticopts := None\<rparr>, ?sp) = e"
    by (cases e; cases "eth_staticopts e") (simp_all add: the_eth_def ES_def)
  moreover have "grows c ?c" "p_upinterval ?c = p_upinterval c" by (simp_all add: grows_def ES_def)
  moreover have "below ?sp (length (statics ?c))" by (cases "eth_staticopts e") (simp_all add: ES_def)
  ultimately show ?thesis
    using goes_eth[OF K pl e n(1), of r ts]
      nets_extend[OF c(1), of ?c n ns "n\<lparr>pn_eths := (e\<lparr>eth_staticopts := None\<rparr>, ?sp) # pn_eths n\<rparr>"
        "[(e\<lparr>eth_staticopts := None\<rparr>, ?sp)]" "[]"] n
    by (intro exI[of _ ?c]) (simp add: ES_def)
qed

lemma reach_wlan:
  assumes K: "k_mem K = (\<lambda>_. True)" and pl: "pl = PFirst \<or> pl = PMore" and x: "wlan_ok x" and c: "stored c" "nets c = N # Ns"
  shows "\<exists>c'. goes K ((BNet, pl) # r, wlan_toks x @ ts, c) ((BNet, PMore) # r, ts, c') \<and> stored c' \<and>
    nets c' = N\<lparr>wireless_list := x # wireless_list N\<rparr> # Ns \<and> p_upinterval c' = p_upinterval c"
proof -
  obtain n ns where n: "p_nets c = n # ns" "the_net c n = N" "Ns = tl (nets c)" using c(2) by (auto simp: nets_def)
  let ?st = "wlan_statics x (statics c)"
  let ?x = "(x\<lparr>wl_staticopts := None, wl_wpa := None\<rparr>, Some (length ?st), Some (length (wpas c)))"
  let ?c = "WS n ns ?st (wpas c) c (x\<lparr>wl_staticopts := None, wl_wpa := None\<rparr>) (Some (length ?st)) (the (wl_staticopts x)) (the (wl_wpa x))"
  have "wl_staticopts x \<noteq> None" "wl_wpa x \<noteq> None" using x by (auto simp: wlan_ok_def wpa_ok_def split: option.splits)
  then have "the_wlan ?c ?x = x" by (cases x) (auto simp: the_wlan_def WS_def)
  moreover have "grows c ?c" "p_upinterval ?c = p_upinterval c" by (simp_all add: grows_def WS_def wlan_statics_def)
  ultimately show ?thesis
    using goes_wlan[OF K pl x n(1), of r ts]
      nets_extend[OF c(1), of ?c n ns "n\<lparr>pn_wlans := ?x # pn_wlans n\<rparr>" "[]" "[?x]"] n
    by (intro exI[of _ ?c]) (simp add: WS_def)
qed

lemma reach_eths:
  assumes K: "k_mem K = (\<lambda>_. True)"
  shows "pl = PFirst \<or> pl = PMore \<Longrightarrow> list_all eth_ok es \<Longrightarrow> stored c \<Longrightarrow> nets c = N # Ns \<Longrightarrow>
    \<exists>c' pl'. goes K ((BNet, pl) # r, concat (map eth_toks es) @ ts, c) ((BNet, pl') # r, ts, c') \<and> stored c' \<and>
      nets c' = N\<lparr>ethernet_list := rev es @ ethernet_list N\<rparr> # Ns \<and> p_upinterval c' = p_upinterval c \<and>
      (pl' = PFirst \<or> pl' = PMore)"
proof (induction es arbitrary: c N pl)
  case Nil
  then show ?case by (intro exI[of _ c] exI[of _ pl]) (simp add: goes_refl)
next
  case (Cons e es)
  from reach_eth[OF K Cons.prems(1) _ Cons.prems(3,4), of e r "concat (map eth_toks es) @ ts"] Cons.prems(2)
  obtain c1 where c1: "goes K ((BNet, pl) # r, eth_toks e @ concat (map eth_toks es) @ ts, c)
      ((BNet, PMore) # r, concat (map eth_toks es) @ ts, c1)" "stored c1"
      "nets c1 = N\<lparr>ethernet_list := e # ethernet_list N\<rparr> # Ns" "p_upinterval c1 = p_upinterval c" by auto
  from Cons.IH[OF _ _ c1(2,3), of PMore] Cons.prems(2) obtain c2 pl' where
    "goes K ((BNet, PMore) # r, concat (map eth_toks es) @ ts, c1) ((BNet, pl') # r, ts, c2)" "stored c2"
    "nets c2 = N\<lparr>ethernet_list := rev es @ e # ethernet_list N\<rparr> # Ns" "p_upinterval c2 = p_upinterval c"
    "pl' = PFirst \<or> pl' = PMore" using c1(4) by auto
  with goes_trans[OF c1(1)] show ?case by (intro exI[of _ c2] exI[of _ pl']) simp
qed

lemma reach_wlans:
  assumes K: "k_mem K = (\<lambda>_. True)"
  shows "pl = PFirst \<or> pl = PMore \<Longrightarrow> list_all wlan_ok xs \<Longrightarrow> stored c \<Longrightarrow> nets c = N # Ns \<Longrightarrow>
    \<exists>c' pl'. goes K ((BNet, pl) # r, concat (map wlan_toks xs) @ ts, c) ((BNet, pl') # r, ts, c') \<and> stored c' \<and>
      nets c' = N\<lparr>wireless_list := rev xs @ wireless_list N\<rparr> # Ns \<and> p_upinterval c' = p_upinterval c \<and>
      (pl' = PFirst \<or> pl' = PMore)"
proof (induction xs arbitrary: c N pl)
  case Nil
  then show ?case by (intro exI[of _ c] exI[of _ pl]) (simp add: goes_refl)
next
  case (Cons x xs)
  from reach_wlan[OF K Cons.prems(1) _ Cons.prems(3,4), of x r "concat (map wlan_toks xs) @ ts"] Cons.prems(2)
  obtain c1 where c1: "goes K ((BNet, pl) # r, wlan_toks x @ concat (map wlan_toks xs) @ ts, c)
      ((BNet, PMore) # r, concat (map wlan_toks xs) @ ts, c1)" "stored c1"
      "nets c1 = N\<lparr>wireless_list := x # wireless_list N\<rparr> # Ns" "p_upinterval c1 = p_upinterval c" by auto
  from Cons.IH[OF _ _ c1(2,3), of PMore] Cons.prems(2) obtain c2 pl' where
    "goes K ((BNet, PMore) # r, concat (map wlan_toks xs) @ ts, c1) ((BNet, pl') # r, ts, c2)" "stored c2"
    "nets c2 = N\<lparr>wireless_list := rev xs @ x # wireless_list N\<rparr> # Ns" "p_upinterval c2 = p_upinterval c"
    "pl' = PFirst \<or> pl' = PMore" using c1(4) by auto
  with goes_trans[OF c1(1)] show ?case by (intro exI[of _ c2] exI[of _ pl']) simp
qed

text \<open>
  The lists of the configuration are built at their heads (\<open>LIST_INSERT_HEAD\<close>), so they are printed
  from the end.
\<close>

definition net_toks :: "network \<Rightarrow> ptok list" where
  "net_toks N = [PKw NETWORK, PStr (nw_name N), PLbrace, PNl] @ concat (map eth_toks (rev (ethernet_list N))) @
     concat (map wlan_toks (rev (wireless_list N))) @ [PRbrace, PNl]"

definition net_ok :: "network \<Rightarrow> bool" where
  "net_ok N \<longleftrightarrow> str_ok (nw_name N) \<and> length (nw_name N) \<le> MAX_NETWORK_NAME_SIZE \<and> nw_priority N = 0 \<and>
     list_all eth_ok (ethernet_list N) \<and> list_all wlan_ok (wireless_list N)"

definition new_net :: "string \<Rightarrow> pstate \<Rightarrow> pstate" where
  "new_net s p = p\<lparr>p_nets := \<lparr>pn_name = take 512 s, pn_eths = [], pn_wlans = []\<rparr> # p_nets p\<rparr>"

lemma new_net_stored:
  assumes "stored c" "length s \<le> 512"
  shows "stored (new_net s c)"
    "nets (new_net s c) = \<lparr>nw_name = s, nw_priority = 0, ethernet_list = [], wireless_list = []\<rparr> # nets c"
proof -
  have g: "grows c (new_net s c)" by (simp add: grows_def new_net_def)
  show "stored (new_net s c)" using assms(1) by (auto simp: stored_def new_net_def)
  show "nets (new_net s c) = \<lparr>nw_name = s, nw_priority = 0, ethernet_list = [], wireless_list = []\<rparr> # nets c"
    using stores_grow(1)[OF assms(1) g] assms(2) by (simp add: nets_def new_net_def) (simp add: the_net_def)
qed

lemma new_net_option:
  assumes "k_mem K = (\<lambda>_. True)" "length s \<le> MAX_NETWORK_NAME_SIZE"
  shows "\<exists>f. option_of K BTop NETWORK = Some (with_string K f) \<and>
    (\<forall>p w. \<exists>w'. f s p w = andthen (peek K (new_net s p) w') (\<lambda>(t, p1) w1.
         if t = TChr 123 then Ok (True, (shift p1)\<lparr>blocks := (BNet, PFirst) # blocks p1\<rparr>) w1
         else syntax_error p1 w1))"
  unfolding option_of_def block.case top_option.simps
  by (rule exI, rule conjI, rule refl) (use assms in \<open>auto simp: calloc_def alloc_def new_net_def\<close>)

lemma goes_net:
  assumes K: "k_mem K = (\<lambda>_. True)" and s: "length s \<le> MAX_NETWORK_NAME_SIZE"
  shows "goes K ((BTop, PMore) # r, PKw NETWORK # PStr s # PLbrace # ts, c) ((BNet, PFirst) # (BTop, PLine) # r, ts, new_net s c)"
proof -
  obtain f where f: "option_of K BTop NETWORK = Some (with_string K f)"
      "\<And>p w. \<exists>w'. f s p w = andthen (peek K (new_net s p) w') (\<lambda>(t, p1) w1.
         if t = TChr 123 then Ok (True, (shift p1)\<lparr>blocks := (BNet, PFirst) # blocks p1\<rparr>) w1
         else syntax_error p1 w1)"
    using new_net_option[OF K s] by blast
  have n: "neutral (new_net s)" by (simp add: neutral_def new_net_def)
  have "\<exists>p' w'. f s p w = Ok (True, p') w' \<and> ready ((BNet, PFirst) # bs) ts p' \<and> core p' = new_net s (core p)"
    if p: "ready bs (PLbrace # ts) p" for bs p w
  proof -
    from f(2)[of p w] obtain w' where w': "f s p w = andthen (peek K (new_net s p) w') (\<lambda>(t, p1) w1.
         if t = TChr 123 then Ok (True, (shift p1)\<lparr>blocks := (BNet, PFirst) # blocks p1\<rparr>) w1
         else syntax_error p1 w1)" by blast
    have "ready bs (PLbrace # ts) (new_net s p)" using p n by (simp add: neutral_ready)
    from peek_ready[OF K this, of w'] obtain p' w2 where "peek K (new_net s p) w' = Ok (TChr 123, p') w2"
      "ready bs ts (shift p')" "core p' = core (new_net s p)" "blocks p' = bs" by auto
    with w' n show ?thesis
      by (intro exI[of _ "(shift p')\<lparr>blocks := (BNet, PFirst) # bs\<rparr>"] exI[of _ w2]) (auto simp: ready_def neutral_def)
  qed
  from goes_open[where b = BTop and g = "new_net s", OF K _ f(1) this, of PMore r c] show ?thesis
    by (simp add: after_option_def)
qed

lemma reach_net:
  assumes K: "k_mem K = (\<lambda>_. True)" and N: "net_ok N" and c: "stored c"
  shows "\<exists>c'. goes K ((BTop, PMore) # r, net_toks N @ ts, c) ((BTop, PMore) # r, ts, c') \<and> stored c' \<and>
    nets c' = N # nets c \<and> p_upinterval c' = p_upinterval c"
proof -
  let ?c = "new_net (nw_name N) c" and ?r = "(BTop, PLine) # r"
  let ?e = "concat (map eth_toks (rev (ethernet_list N)))" and ?x = "concat (map wlan_toks (rev (wireless_list N)))"
  have s: "length (nw_name N) \<le> MAX_NETWORK_NAME_SIZE" "length (nw_name N) \<le> 512"
    and l: "list_all eth_ok (rev (ethernet_list N))" "list_all wlan_ok (rev (wireless_list N))"
    using N by (auto simp: net_ok_def MAX_NETWORK_NAME_SIZE_def)
  note c0 = new_net_stored[OF c s(2)]
  from reach_eths[OF K _ l(1) c0, of PFirst ?r "?x @ [PRbrace, PNl] @ ts"] obtain c1 pl1 where
    c1: "goes K ((BNet, PFirst) # ?r, ?e @ ?x @ [PRbrace, PNl] @ ts, ?c) ((BNet, pl1) # ?r, ?x @ [PRbrace, PNl] @ ts, c1)"
      "stored c1" "nets c1 = \<lparr>nw_name = nw_name N, nw_priority = 0, ethernet_list = ethernet_list N, wireless_list = []\<rparr> # nets c"
      "p_upinterval c1 = p_upinterval ?c" "pl1 = PFirst \<or> pl1 = PMore" by auto
  from reach_wlans[OF K c1(5) l(2) c1(2,3), of ?r "[PRbrace, PNl] @ ts"] obtain c2 pl2 where
    c2: "goes K ((BNet, pl1) # ?r, ?x @ [PRbrace, PNl] @ ts, c1) ((BNet, pl2) # ?r, [PRbrace, PNl] @ ts, c2)"
      "stored c2" "nets c2 = N # nets c" "p_upinterval c2 = p_upinterval c1" "pl2 = PFirst \<or> pl2 = PMore"
    using N by (cases N) (auto simp: net_ok_def)
  have "goes K ((BTop, PMore) # r, net_toks N @ ts, c) ((BNet, PFirst) # ?r, PNl # ?e @ ?x @ [PRbrace, PNl] @ ts, ?c)"
    using goes_net[OF K s(1), of r "PNl # ?e @ ?x @ [PRbrace, PNl] @ ts" c] by (simp add: net_toks_def)
  also have "goes K \<dots> ((BNet, PFirst) # ?r, ?e @ ?x @ [PRbrace, PNl] @ ts, ?c)"
    using goes_line[OF K, of PFirst] by simp
  also note c1(1)
  also note c2(1)
  also have "goes K ((BNet, pl2) # ?r, [PRbrace, PNl] @ ts, c2) ((BTop, PMore) # r, ts, c2)"
    using goes_out[OF K c2(5), of PMore BNet BTop r ts c2] by (simp add: after_option_def end_block_def)
  finally show ?thesis using c1(4) c2 by (intro exI[of _ c2]) (auto simp: new_net_def)
qed

section \<open>The file\<close>

lemma reach_nets:
  assumes K: "k_mem K = (\<lambda>_. True)"
  shows "list_all net_ok Ns \<Longrightarrow> stored c \<Longrightarrow>
    \<exists>c'. goes K ((BTop, PMore) # r, concat (map net_toks Ns) @ ts, c) ((BTop, PMore) # r, ts, c') \<and> stored c' \<and>
      nets c' = rev Ns @ nets c \<and> p_upinterval c' = p_upinterval c"
proof (induction Ns arbitrary: c)
  case Nil
  then show ?case by (intro exI[of _ c]) (simp add: goes_refl)
next
  case (Cons N Ns)
  from reach_net[OF K _ Cons.prems(2), of N r "concat (map net_toks Ns) @ ts"] Cons.prems(1)
  obtain c1 where c1: "goes K ((BTop, PMore) # r, net_toks N @ concat (map net_toks Ns) @ ts, c)
      ((BTop, PMore) # r, concat (map net_toks Ns) @ ts, c1)" "stored c1" "nets c1 = N # nets c"
      "p_upinterval c1 = p_upinterval c" by auto
  from Cons.IH[OF _ c1(2)] Cons.prems(1) obtain c2 where
    "goes K ((BTop, PMore) # r, concat (map net_toks Ns) @ ts, c1) ((BTop, PMore) # r, ts, c2)" "stored c2"
    "nets c2 = rev Ns @ nets c1" "p_upinterval c2 = p_upinterval c1" by auto
  with goes_trans[OF c1(1)] c1(3,4) show ?case by (intro exI[of _ c2]) simp
qed

lemma goes_interval:
  assumes K: "k_mem K = (\<lambda>_. True)" and n: "MIN_UPDATE_INTERVAL \<le> n"
  shows "goes K ((BTop, PMore) # r, [PKw UPDATEINTERVAL, PNum (nat n), PNl] @ ts, c)
    ((BTop, PMore) # r, ts, c\<lparr>p_upinterval := to_int n\<rparr>)"
proof (rule goesI)
  fix p w
  assume p: "ready ((BTop, PMore) # r) ([PKw UPDATEINTERVAL, PNum (nat n), PNl] @ ts) p" "core p = c"
  have r: "ready ((BTop, PMore) # r) (PKw UPDATEINTERVAL # PNum (nat n) # PNl # ts) p" using p(1) by simp
  have o: "option_of K BTop UPDATEINTERVAL = Some (with_number K (\<lambda>n p w.
     if n < MIN_UPDATE_INTERVAL then p_error ''update interval is to short'' [] p w
     else act (\<lambda>p. p\<lparr>p_upinterval := to_int n\<rparr>) p w))" by (simp add: option_of_def)
  have n0: "0 \<le> n" using n by (simp add: MIN_UPDATE_INTERVAL_def)
  show "\<exists>p' w'. yyparse K p w = yyparse K p' w' \<and> core p' = c\<lparr>p_upinterval := to_int n\<rparr> \<and> ready ((BTop, PMore) # r) ts p'"
  proof (rule option_line[OF K r _ o])
    fix p1 w1
    assume a: "ready ((BTop, after_option BTop PMore) # r) (PNum (nat n) # PNl # ts) p1" "core p1 = core p"
    let ?f = "\<lambda>n p w. if n < MIN_UPDATE_INTERVAL then p_error ''update interval is to short'' [] p w
     else act (\<lambda>p. p\<lparr>p_upinterval := to_int n\<rparr>) p w"
    from with_token(2)[OF K a(1), of ?f w1] obtain p2 w2 where
      p2: "with_number K ?f p1 w1 = ?f (int (nat n)) p2 w2" "ready ((BTop, after_option BTop PMore) # r) (PNl # ts) p2"
        "core p2 = core p1" by blast
    with n n0 a(2) p(2) show "\<exists>q w2. with_number K ?f p1 w1 = Ok (True, q) w2 \<and>
        ready ((BTop, after_option BTop PMore) # r) (PNl # ts) q \<and> core q = c\<lparr>p_upinterval := to_int n\<rparr>"
      by (intro exI[of _ "p2\<lparr>p_upinterval := to_int n\<rparr>"] exI[of _ w2]) (auto simp: act_def ready_def)
  qed simp
qed

definition interval_toks :: "int \<Rightarrow> ptok list" where
  "interval_toks n = (if n = 0 then [] else [PKw UPDATEINTERVAL, PNum (nat n), PNl])"

definition conf_toks :: "ifconfigd_conf \<Rightarrow> ptok list" where
  "conf_toks c = interval_toks (upinterval c) @ concat (map net_toks (rev (network_list c)))"

definition conf_ok :: "ifconfigd_conf \<Rightarrow> bool" where
  "conf_ok c \<longleftrightarrow> csock c = [] \<and> int_ok (upinterval c) \<and> (upinterval c = 0 \<or> MIN_UPDATE_INTERVAL \<le> upinterval c) \<and>
     list_all net_ok (network_list c)"

lemma reach_conf:
  assumes K: "k_mem K = (\<lambda>_. True)" and c: "conf_ok c" and p: "core p = core (start_state empty_lexer)"
  shows "\<exists>q. goes K ([(BTop, PMore)], conf_toks c, core p) ([(BTop, PMore)], [], q) \<and> the_conf q = c"
proof -
  let ?q = "(core p)\<lparr>p_upinterval := upinterval c\<rparr>" and ?N = "concat (map net_toks (rev (network_list c)))"
  have 1: "goes K ([(BTop, PMore)], interval_toks (upinterval c) @ ?N, core p) ([(BTop, PMore)], ?N, ?q)"
  proof (cases "upinterval c = 0")
    case True
    have "p_upinterval (core p) = 0" using p by (simp add: start_state_def)
    with True have "?q = core p" by simp
    with True show ?thesis by (simp add: interval_toks_def goes_refl)
  next
    case False
    with goes_interval[OF K, of "upinterval c" "[]" ?N "core p"] c show ?thesis
      by (simp add: interval_toks_def conf_ok_def)
  qed
  have "p_nets (core p) = []" using p by (simp add: start_state_def)
  then have n: "stored ?q" "nets ?q = []" by (simp_all add: stored_def nets_def)
  from reach_nets[OF K _ n(1), of "rev (network_list c)" "[]" "[]"] c n(2) obtain q where
    q: "goes K ([(BTop, PMore)], ?N, ?q) ([(BTop, PMore)], [], q)" "nets q = network_list c" "p_upinterval q = upinterval c"
    by (auto simp: conf_ok_def)
  from goes_trans[OF 1 q(1)] q(2,3) c show ?thesis
    by (intro exI[of _ q]) (auto simp: conf_toks_def the_conf_nets conf_ok_def)
qed

text \<open>The printed file has only characters the lexer takes as they are.\<close>

lemma tok_plain:
  assumes "tok_ok t"
  shows "list_all plain_char (text_of t)"
proof (cases t)
  case (PKw k)
  then show ?thesis by (cases k) (simp_all add: kw_text_def conf_keywords_def plain_char_def)
next
  case (PNum n)
  then show ?thesis using digits_isdigit[of n] by (auto simp: list_all_iff plain_char_def isdigit_def)
qed (use assms in \<open>auto simp: plain_char_def str_ok_def list_all_iff\<close>)

lemma render_plain: "list_all tok_ok ts \<Longrightarrow> list_all plain_char (render ts)"
  by (induction ts) (auto simp: render_def tok_plain plain_char_def)

lemma opt_line_toks: "opt_ok v \<Longrightarrow> list_all tok_ok (lines_toks (opt_line k v))"
  by (auto simp: opt_line_def opt_ok_def lines_toks_def split: option.splits)

lemma lines_toks_simps [simp]:
  "lines_toks [] = []" "lines_toks (l # ls) = line_toks l @ lines_toks ls" "lines_toks (xs @ ys) = lines_toks xs @ lines_toks ys"
  by (simp_all add: lines_toks_def)

lemma static_line_toks: "static_ok v \<Longrightarrow> list_all tok_ok (lines_toks (static_lines v))"
  by (auto simp: static_lines_def static_ok_def opt_line_toks split: option.splits)

lemma int_ok_LLONG [simp]: "int_ok n \<Longrightarrow> n \<le> LLONG_MAX" "int_ok n \<Longrightarrow> 0 \<le> n"
  by (simp_all add: int_ok_def LLONG_MAX_def)

lemma eth_tok_ok: "eth_ok e \<Longrightarrow> list_all tok_ok (eth_toks e)"
  by (auto simp: eth_toks_def eth_lines_def eth_ok_def opt_line_toks static_line_toks)

lemma wlan_tok_ok: "wlan_ok x \<Longrightarrow> list_all tok_ok (wlan_toks x)"
  by (auto simp: wlan_toks_def wlan_lines_def wlan_ok_def wpa_ok_def wpa_lines_def sub_toks_def opt_line_toks static_line_toks
      split: option.splits)

lemma net_tok_ok: "net_ok N \<Longrightarrow> list_all tok_ok (net_toks N)"
  using eth_tok_ok wlan_tok_ok by (fastforce simp: net_toks_def net_ok_def list_all_iff)

lemma conf_tok_ok: "conf_ok c \<Longrightarrow> list_all tok_ok (conf_toks c)"
  using net_tok_ok by (fastforce simp: conf_toks_def conf_ok_def list_all_iff interval_toks_def)

text \<open>The file as \<open>pushfile\<close> leaves it.\<close>

lemma pushfile_ok:
  assumes "k_mem K = (\<lambda>_. True)" "\<And>t. k_file K (EvReadFile f # t) = Inr s" "list_all plain_char s"
  shows "\<exists>L w'. pushfile K f False empty_lexer w = (Some L, w') \<and> reads s 0 L"
  using assms by (auto simp: pushfile_def alloc_def fopen_def reads_def empty_lexer_def Let_def emit_def)

lemma parse_printed:
  assumes K: "k_mem K = (\<lambda>_. True)" and f: "\<And>t. k_file K (EvReadFile f # t) = Inr (render (conf_toks c))" and c: "conf_ok c"
  shows "\<exists>w'. parse_config K f w = Some (Ok (Some c) w')"
proof -
  obtain w1 where w1: "alloc K 24 w = (True, w1)" using K by (auto simp: alloc_def)
  from pushfile_ok[OF K f render_plain[OF conf_tok_ok[OF c]], of w1] obtain L w2 where
    L: "pushfile K f False empty_lexer w1 = (Some L, w2)" "reads (render (conf_toks c)) 0 L" by blast
  let ?p = "start_state L"
  have p: "core ?p = core (start_state empty_lexer)" by (simp add: start_state_def core_def)
  from reach_conf[OF K c p] obtain q where q: "goes K ([(BTop, PMore)], conf_toks c, core ?p) ([(BTop, PMore)], [], q)"
    "the_conf q = c" by blast
  have "ready [(BTop, PMore)] (conf_toks c) ?p"
    using L(2) conf_tok_ok[OF c] by (auto simp: ready_def start_state_def lexes_def)
  with q(1) obtain p1 w3 where p1: "yyparse K ?p w2 = yyparse K p1 w3" "ready [(BTop, PMore)] [] p1" "core p1 = q"
    by (fastforce simp: goes_def)
  from end_step[OF p1(2), of K w3] obtain p2 w4 where
    p2: "yyparse K p1 w3 = Some (Ok p2 w4)" "core p2 = core p1" "lexes [] (lx p2)" by blast
  have "the_conf p2 = c" using p2(2) p1(3) q(2) by (metis the_conf_core)
  moreover have "\<not> list_ex (\<lambda>f. fl_errors f \<noteq> 0) (take 1 (lx_files (lx p2)))"
    using p2(3) by (auto simp: lexes_def reads_def)
  ultimately show ?thesis using w1 L(1) p1(1) p2(1)
    by (auto simp: parse_config_def split: prod.split)
qed

section \<open>Properties\<close>

definition sample_file_conf :: ifconfigd_conf where
  "sample_file_conf = \<lparr>network_list = [\<lparr>nw_name = ''home'', nw_priority = 0, ethernet_list = [sample_eth],
     wireless_list = [(sample_wlan ''wir3'' None)\<lparr>wl_staticopts := Some sample_static,
       wl_wpa := Some (zero_wpa\<lparr>wc_wpakey := Some ''secret''\<rparr>)\<rparr>]\<rparr>], csock = [], upinterval = 10\<rparr>"

lemma sample_file_conf_ok: "conf_ok sample_file_conf"
  by (simp add: sample_file_conf_def conf_ok_def net_ok_def eth_ok_def wlan_ok_def wpa_ok_def static_ok_def opt_ok_def
      str_ok_def int_ok_def plain_char_def sample_eth_def sample_wlan_def sample_static_def zero_wpa_def
      MAX_NETWORK_NAME_SIZE_def MIN_UPDATE_INTERVAL_def)

definition file_kernel :: kernel where
  "file_kernel = sample_kernel\<lparr>k_file := (\<lambda>_. Inr (render (conf_toks sample_file_conf)))\<rparr>"



end
