(* ===== verification/Conf_Safety.thy ===== *)
theory Conf_Safety
  imports Conf_Roundtrip
begin

text \<open>
  What the parser of the configuration file (\<open>ifconfigd/parse.y\<close>) never does and always delivers,
  whatever the file: it never writes through a null pointer, and the configurations it returns are
  complete in the members that the monitor follows. The proofs carry an invariant of the parser
  through its options, in the style of weakest preconditions.
\<close>

section \<open>Outcomes\<close>

text \<open>A computation has a defined outcome, and if it returns, a value with the property.\<close>

fun holds :: "('a \<Rightarrow> bool) \<Rightarrow> 'a outcome \<Rightarrow> bool" where
  "holds Q (Ok a w) \<longleftrightarrow> Q a"
| "holds Q (Exit c w) \<longleftrightarrow> True"
| "holds Q (Undef s w) \<longleftrightarrow> False"

lemma holds_andthen:
  "holds P m \<Longrightarrow> (\<And>a w. P a \<Longrightarrow> holds Q (f a w)) \<Longrightarrow> holds Q (andthen m f)"
  by (cases m) auto

lemma holds_fails [simp]: "holds Q (errx m a w)" "holds Q (err K m a w)"
  by (simp_all add: errx_def err_def Let_def)

lemma yylex_holds: "holds (\<lambda>_. True) (yylex K L w)"
proof (induction K L w rule: yylex.induct)
  case (1 K L w)
  have d: "holds (\<lambda>_. True) (lex_strdup K b L' w')" for b L' w'
    by (simp add: lex_strdup_def Let_def split: prod.split)
  have wd: "holds (\<lambda>_. True) (lex_word K c L' w')" for c L' w'
    using d by (simp add: lex_word_def Let_def split: prod.split sum.split token.split)
  have "holds (\<lambda>_. True) (lex_char K c L' w')" for c L' w'
    using d wd by (simp add: lex_char_def split: prod.split sum.split)
  with 1 show ?case
    by (subst yylex.simps) (auto split: prod.split sum.split option.split)
qed

section \<open>The invariant\<close>

text \<open>
  Interfaces and networks under construction, for stores of the given sizes: pointers in range, no
  missing structure, names that fit their arrays.
\<close>

definition eth_wf :: "nat \<Rightarrow> ethernet \<times> nat option \<Rightarrow> bool" where
  "eth_wf n x \<longleftrightarrow> length (eth_name (fst x)) \<le> 512 \<and> length (eth_interface (fst x)) \<le> 128 \<and> below (snd x) n \<and>
     eth_isdhcp (fst x) = (if snd x = None then 1 else 0)"

definition wlan_wf :: "nat \<Rightarrow> nat \<Rightarrow> wireless \<times> nat option \<times> nat option \<Rightarrow> bool" where
  "wlan_wf n m x \<longleftrightarrow> length (wl_name (fst x)) \<le> 512 \<and> length (wl_interface (fst x)) \<le> 128 \<and>
     fst (snd x) \<noteq> None \<and> below (fst (snd x)) n \<and> snd (snd x) \<noteq> None \<and> below (snd (snd x)) m \<and>
     (wl_isdhcp (fst x) = 0 \<or> wl_isdhcp (fst x) = 1)"

definition net_wf :: "nat \<Rightarrow> nat \<Rightarrow> pnet \<Rightarrow> bool" where
  "net_wf n m N \<longleftrightarrow> length (pn_name N) \<le> MAX_NETWORK_NAME_SIZE \<and> list_all (eth_wf n) (pn_eths N) \<and>
     list_all (wlan_wf n m) (pn_wlans N)"

definition data_wf :: "pstate \<Rightarrow> bool" where
  "data_wf p \<longleftrightarrow> list_all (net_wf (length (statics p)) (length (wpas p))) (p_nets p) \<and>
     below (staticonfig p) (length (statics p)) \<and> below (p_wpa p) (length (wpas p))"

text \<open>The open blocks are nested as the grammar has them, and the pointers their options use are set.\<close>

fun nested :: "block list \<Rightarrow> bool" where
  "nested [] \<longleftrightarrow> True"
| "nested [b] \<longleftrightarrow> b = BTop"
| "nested (b # b' # r) \<longleftrightarrow> (b = BNet \<and> b' = BTop \<or> (b = BEth \<or> b = BWlan) \<and> b' = BNet \<or> (b = BWpa \<or> b = BWep) \<and> b' = BWlan) \<and>
     nested (b' # r)"

definition pointed :: "block \<Rightarrow> pstate \<Rightarrow> bool" where
  "pointed b p \<longleftrightarrow> (b \<notin> {BTop, BNet} \<longrightarrow> staticonfig p \<noteq> None) \<and> (b \<in> {BWlan, BWpa} \<longrightarrow> p_wpa p \<noteq> None)"

definition pinv :: "pstate \<Rightarrow> bool" where
  "pinv p \<longleftrightarrow> data_wf p \<and> nested (map fst (blocks p)) \<and> (\<forall>b\<in>set (map fst (blocks p)). pointed b p)"

lemma pinv_simps [simp]:
  "pinv (p\<lparr>lx := L\<rparr>) = pinv p" "pinv (p\<lparr>ahead := a\<rparr>) = pinv p" "pinv (p\<lparr>errflag := e\<rparr>) = pinv p"
  "pinv (shift p) = pinv p" "pinv (set_place pl p) = pinv p" "pinv (p\<lparr>p_upinterval := i\<rparr>) = pinv p"
  by (auto simp: pinv_def data_wf_def pointed_def shift_def set_place_def split: list.split prod.split)

lemma blocks_shift [simp]: "blocks (shift p) = blocks p"
  by (simp add: shift_def)

lemma nested_top [simp]: "nested (BTop # r) \<longleftrightarrow> r = []"
  by (cases r) auto

lemma nested_outside: "nested (b # r) \<Longrightarrow> b = BEth \<Longrightarrow> set r \<subseteq> {BNet, BTop}"
  by (cases r; cases "tl r"; auto)

lemma nested_tl: "nested (b # r) \<Longrightarrow> nested r"
  by (cases r) auto

text \<open>Steps that keep the blocks and the pointers.\<close>

definition keeps :: "pstate \<Rightarrow> pstate \<Rightarrow> bool" where
  "keeps p p' \<longleftrightarrow> blocks p' = blocks p \<and> (staticonfig p \<noteq> None \<longrightarrow> staticonfig p' \<noteq> None) \<and> (p_wpa p \<noteq> None \<longrightarrow> p_wpa p' \<noteq> None)"

lemma pinv_keeps: "pinv p \<Longrightarrow> data_wf p' \<Longrightarrow> keeps p p' \<Longrightarrow> pinv p'"
  unfolding pinv_def keeps_def pointed_def by auto

lemma data_wf_pinv [dest]: "pinv p \<Longrightarrow> data_wf p"
  by (simp add: pinv_def)

lemma eth_wf_mono: "eth_wf n x \<Longrightarrow> n \<le> n' \<Longrightarrow> eth_wf n' x"
  by (auto simp: eth_wf_def intro: below_mono)

lemma wlan_wf_mono: "wlan_wf n m x \<Longrightarrow> n \<le> n' \<Longrightarrow> m \<le> m' \<Longrightarrow> wlan_wf n' m' x"
  by (auto simp: wlan_wf_def intro: below_mono)

lemma net_wf_mono: "net_wf n m x \<Longrightarrow> n \<le> n' \<Longrightarrow> m \<le> m' \<Longrightarrow> net_wf n' m' x"
  by (auto simp: net_wf_def list_all_iff intro: eth_wf_mono wlan_wf_mono)

lemma nets_wf_mono: "list_all (net_wf n m) Ns \<Longrightarrow> n \<le> n' \<Longrightarrow> m \<le> m' \<Longrightarrow> list_all (net_wf n' m') Ns"
  by (auto simp: list_all_iff intro: net_wf_mono)

text \<open>The actions on the data.\<close>

lemma eth_data:
  assumes "data_wf p" "\<And>e sp. eth_wf (length (statics p)) (e, sp) \<Longrightarrow> eth_wf (length (statics p)) (f e, sp)"
  shows "data_wf (on_eth f p)"
  using assms by (auto simp: data_wf_def on_eth_def net_wf_def split: list.split)

lemma eth_dhcp_data:
  assumes "data_wf p" "below q (length (statics p))"
  shows "data_wf (point_eth q (on_eth (\<lambda>e. e\<lparr>eth_isdhcp := if q = None then 1 else 0\<rparr>) p))"
  using assms by (auto simp: data_wf_def on_eth_def point_eth_def net_wf_def eth_wf_def split: list.splits)

lemma wlan_data:
  assumes "data_wf p" "\<And>x q. wlan_wf (length (statics p)) (length (wpas p)) (x, q) \<Longrightarrow>
      wlan_wf (length (statics p)) (length (wpas p)) (f x, q)"
  shows "data_wf (on_wlan f p)"
  using assms by (auto simp: data_wf_def on_wlan_def net_wf_def split: list.split)

lemma push_static_data: "data_wf p \<Longrightarrow> data_wf (push_static p)"
  by (auto simp: data_wf_def push_static_def elim: nets_wf_mono intro: below_mono)

lemma point_wlan_data: "data_wf p \<Longrightarrow> q \<noteq> None \<Longrightarrow> below q (length (statics p)) \<Longrightarrow> data_wf (point_wlan q p)"
  by (auto simp: data_wf_def point_wlan_def net_wf_def wlan_wf_def split: list.split)

lemma eth_wf_zero: "eth_wf (Suc n) (zero_eth\<lparr>eth_name := take 512 s\<rparr>, Some n)"
  by (simp add: eth_wf_def zero_eth_def)

lemma wlan_wf_zero: "wlan_wf (Suc n) (Suc m) (zero_wlan\<lparr>wl_name := take 512 s\<rparr>, Some n, Some m)"
  by (simp add: wlan_wf_def zero_wlan_def)

lemma new_eth_data:
  assumes "data_wf p"
  shows "data_wf (new_eth s p)"
proof -
  have "list_all (net_wf (Suc (length (statics p))) (length (wpas p))) (p_nets p)"
    using assms by (auto simp: data_wf_def elim: nets_wf_mono)
  with assms show ?thesis
    by (auto simp: data_wf_def new_eth_def point_eth_def Let_def eth_wf_zero net_wf_def split: list.split)
qed

lemma new_wlan_data:
  assumes "data_wf p"
  shows "data_wf (new_wlan s p)"
proof -
  have "list_all (net_wf (Suc (length (statics p))) (Suc (length (wpas p)))) (p_nets p)"
    using assms by (auto simp: data_wf_def elim: nets_wf_mono)
  with assms show ?thesis
    by (auto simp: data_wf_def new_wlan_def point_wlan_def point_wpa_def push_wpa_def push_static_def push_wlan_def Let_def
        wlan_wf_zero net_wf_def split: list.split)
qed

lemma new_net_data: "data_wf p \<Longrightarrow> length s \<le> MAX_NETWORK_NAME_SIZE \<Longrightarrow> data_wf (new_net s p)"
  by (simp add: data_wf_def new_net_def net_wf_def)

lemma new_pointers [simp]:
  "staticonfig (new_eth s p) \<noteq> None" "p_wpa (new_eth s p) = p_wpa p" "blocks (new_eth s p) = blocks p"
  "staticonfig (new_wlan s p) \<noteq> None" "p_wpa (new_wlan s p) \<noteq> None" "blocks (new_wlan s p) = blocks p"
  by (auto simp: new_eth_def new_wlan_def point_eth_def point_wlan_def point_wpa_def push_wpa_def push_static_def
      push_wlan_def Let_def split: list.split)

section \<open>Options keep the invariant\<close>

text \<open>The results of the steps, and the tokens they take.\<close>

abbreviation sound :: "step_result \<Rightarrow> bool" where
  "sound \<equiv> holds (\<lambda>x. pinv (snd x))"

lemma peek_holds:
  "pinv p \<Longrightarrow> holds (\<lambda>x. pinv (snd x) \<and> blocks (snd x) = blocks p \<and> staticonfig (snd x) = staticonfig p \<and> p_wpa (snd x) = p_wpa p)
     (peek K p w)"
  by (auto simp: peek_def split: option.split intro!: holds_andthen[OF yylex_holds])

lemma error_sound [simp]: "pinv p \<Longrightarrow> sound (p_error m a p w)" "pinv p \<Longrightarrow> sound (syntax_error p w)"
  by (simp_all add: p_error_def syntax_error_def split: prod.split)

lemma token_sound:
  assumes "pinv p"
  shows "(\<And>s q w. pinv q \<Longrightarrow> blocks q = blocks p \<Longrightarrow> sound (f s q w)) \<Longrightarrow> sound (with_string K f p w)"
    "(\<And>n q w. pinv q \<Longrightarrow> blocks q = blocks p \<Longrightarrow> sound (g n q w)) \<Longrightarrow> sound (with_number K g p w)"
    "(\<And>b q w. pinv q \<Longrightarrow> blocks q = blocks p \<Longrightarrow> sound (h b q w)) \<Longrightarrow> sound (with_yesno K h p w)"
  unfolding with_string_def with_number_def with_yesno_def
  by (rule holds_andthen[OF peek_holds[OF assms]], auto split: token.split)+

lemma calloc_sound: "(\<And>w. sound (f p w)) \<Longrightarrow> sound (calloc K n m f p w)"
  by (simp add: calloc_def split: prod.split)

lemma end_block_pinv:
  assumes "pinv p" "nested (b # map fst (blocks p))"
  shows "pinv (end_block b p)"
  using assms nested_outside[OF assms(2)] by (fastforce simp: end_block_def pinv_def data_wf_def pointed_def)

lemma open_pinv:
  "pinv p \<Longrightarrow> nested (b # map fst (blocks p)) \<Longrightarrow> pointed b p \<Longrightarrow> pinv ((shift p)\<lparr>blocks := (b, PFirst) # blocks p\<rparr>)"
  by (auto simp: pinv_def data_wf_def pointed_def shift_def)

lemma open_block_sound:
  assumes "pinv p" "nested (b # map fst (blocks p))" "pointed b p"
  shows "sound (open_block K b p w)"
  unfolding open_block_def
proof (rule holds_andthen[OF peek_holds[OF assms(1)]])
  fix a :: "token \<times> pstate" and v
  assume a: "pinv (snd a) \<and> blocks (snd a) = blocks p \<and> staticonfig (snd a) = staticonfig p \<and> p_wpa (snd a) = p_wpa p"
  then have "pointed b (snd a)" "nested (b # map fst (blocks (snd a)))" using assms(2,3) by (auto simp: pointed_def)
  with a show "sound ((case a of (t, p1) \<Rightarrow> \<lambda>w1. if t = TChr 123 then Ok (True, (shift p1)\<lparr>blocks := (b, PFirst) # blocks p1\<rparr>) w1
      else Ok (True, end_block b p1) w1) v)"
    using open_pinv[of "snd a" b] end_block_pinv[of "snd a" b] by (cases a) auto
qed

text \<open>Writes through the two pointers.\<close>

lemma on_static_sound: "pinv p \<Longrightarrow> staticonfig p \<noteq> None \<Longrightarrow> sound (on_static f p w)"
  by (auto simp: on_static_def pinv_def data_wf_def pointed_def)

lemma on_wpa_sound: "pinv p \<Longrightarrow> p_wpa p \<noteq> None \<Longrightarrow> sound (on_wpa f p w)"
  by (auto simp: on_wpa_def pinv_def data_wf_def pointed_def)

lemma blocks_kept [simp]:
  "blocks (on_eth f p) = blocks p" "blocks (on_wlan g p) = blocks p" "blocks (point_eth q p) = blocks p"
  "blocks (point_wlan q p) = blocks p" "blocks (push_static p) = blocks p"
  by (simp_all add: on_eth_def on_wlan_def point_eth_def point_wlan_def push_static_def split: list.split)

lemma act_eth_sound:
  assumes "pinv p" "\<And>e sp n. eth_wf n (e, sp) \<Longrightarrow> eth_wf n (f e, sp)"
  shows "sound (act (on_eth f) p w)"
  using pinv_keeps[OF assms(1) eth_data] assms by (auto simp: act_def keeps_def)

lemma act_wlan_sound:
  assumes "pinv p" "\<And>x q n m. wlan_wf n m (x, q) \<Longrightarrow> wlan_wf n m (f x, q)"
  shows "sound (act (on_wlan f) p w)"
  using pinv_keeps[OF assms(1) wlan_data] assms by (auto simp: act_def keeps_def)

lemma eth_dhcp_sound:
  assumes "pinv p" "staticonfig p \<noteq> None"
  shows "sound (act (\<lambda>p. point_eth None (on_eth (\<lambda>e. e\<lparr>eth_isdhcp := 1\<rparr>) p)) p w)"
    "sound (act (\<lambda>p. point_eth (staticonfig p) p) (on_eth (\<lambda>e. e\<lparr>eth_isdhcp := 0\<rparr>) p) w)"
proof -
  have d: "data_wf p" "below (staticonfig p) (length (statics p))" using assms by (auto simp: pinv_def data_wf_def)
  have "pinv (point_eth None (on_eth (\<lambda>e. e\<lparr>eth_isdhcp := 1\<rparr>) p))"
    using pinv_keeps[OF assms(1) eth_dhcp_data[OF d(1), of None]] by (simp add: keeps_def)
  moreover have "pinv (point_eth (staticonfig p) (on_eth (\<lambda>e. e\<lparr>eth_isdhcp := 0\<rparr>) p))"
    using pinv_keeps[OF assms(1) eth_dhcp_data[OF d]] assms(2) by (simp add: keeps_def)
  ultimately show "sound (act (\<lambda>p. point_eth None (on_eth (\<lambda>e. e\<lparr>eth_isdhcp := 1\<rparr>) p)) p w)"
      "sound (act (\<lambda>p. point_eth (staticonfig p) p) (on_eth (\<lambda>e. e\<lparr>eth_isdhcp := 0\<rparr>) p) w)"
    by (simp_all add: act_def)
qed

lemma wlan_dhcp_sound:
  assumes "pinv p"
  shows "sound (new_static K (act (\<lambda>p. point_wlan (staticonfig p) p)) (on_wlan (\<lambda>x. x\<lparr>wl_isdhcp := 0\<rparr>) p) w)"
proof -
  let ?p = "push_static (on_wlan (\<lambda>x. x\<lparr>wl_isdhcp := 0\<rparr>) p)"
  have "data_wf (on_wlan (\<lambda>x. x\<lparr>wl_isdhcp := 0\<rparr>) p)"
    using assms by (intro wlan_data) (auto simp: wlan_wf_def)
  then have d: "data_wf ?p" by (rule push_static_data)
  have "data_wf (point_wlan (staticonfig ?p) ?p)"
    by (rule point_wlan_data[OF d]) (simp_all add: push_static_def)
  then have "pinv (point_wlan (staticonfig ?p) ?p)"
    by (rule pinv_keeps[OF assms]) (simp add: keeps_def push_static_def)
  then show ?thesis unfolding new_static_def by (intro calloc_sound) (simp add: act_def push_static_def)
qed

text \<open>Every option of every block.\<close>

lemma static_option_sound:
  assumes "pinv p" "staticonfig p \<noteq> None" "static_option K k = Some f"
    and "\<And>q. pinv q \<Longrightarrow> blocks q = blocks p \<Longrightarrow> staticonfig q \<noteq> None"
  shows "sound (f p w)"
  using assms by (cases k) (auto intro!: token_sound(1) on_static_sound)

lemma eth_option_sound:
  assumes "pinv p" "eth_option K k = Some f" and a: "\<And>q. pinv q \<Longrightarrow> blocks q = blocks p \<Longrightarrow> staticonfig q \<noteq> None"
  shows "sound (f p w)"
proof -
  have s: "staticonfig p \<noteq> None" by (rule a[OF assms(1) refl])
  have d: "sound (if b then act (\<lambda>p. point_eth None (on_eth (\<lambda>e. e\<lparr>eth_isdhcp := 1\<rparr>) p)) q v
     else let p1 = on_eth (\<lambda>e. e\<lparr>eth_isdhcp := 0\<rparr>) q; fin = act (\<lambda>p. point_eth (staticonfig p) p) in
          if staticonfig p1 = None then new_static K fin p1 v else fin p1 v)" if "pinv q" "blocks q = blocks p" for b q v
    using eth_dhcp_sound[OF that(1) a[OF that]] a[OF that] by (auto simp: Let_def)
  have st: "static_option K k = Some f \<Longrightarrow> sound (f p w)" by (rule static_option_sound[OF assms(1) s _ a])
  show ?thesis
    using assms(2) st d assms(1)
    by (cases k)
       (auto intro!: token_sound act_eth_sound simp: eth_wf_def split del: if_split)
qed

lemma wlan_option_sound:
  assumes "pinv p" "wlan_option K k = Some f" and a: "\<And>q. pinv q \<Longrightarrow> blocks q = blocks p \<Longrightarrow> staticonfig q \<noteq> None \<and> p_wpa q \<noteq> None"
    and b: "map fst (blocks p) = BWlan # r"
  shows "sound (f p w)"
proof -
  have s: "staticonfig p \<noteq> None" "p_wpa p \<noteq> None" using a[OF assms(1) refl] by auto
  have n: "nested (BWlan # r)" using assms(1) b by (simp add: pinv_def)
  have st: "static_option K k = Some f \<Longrightarrow> sound (f p w)" by (rule static_option_sound[OF assms(1) s(1)]) (use a in auto)
  have o: "sound (open_block K BWpa p w)" "sound (open_block K BWep p w)"
    by (rule open_block_sound[OF assms(1)], use b n s in \<open>simp_all add: pointed_def\<close>)+
  have y: "sound (act (on_wlan (\<lambda>x. x\<lparr>wl_isdhcp := 1\<rparr>)) q v)" if "pinv q" for q v
    by (rule act_wlan_sound[OF that]) (simp add: wlan_wf_def)
  show ?thesis
    using assms(2) st o assms(1)
    by (cases k) (auto intro!: token_sound act_wlan_sound wlan_dhcp_sound y simp: wlan_wf_def)
qed

lemma net_option_sound:
  assumes "pinv p" "net_option K k = Some f" "map fst (blocks p) = BNet # r"
  shows "sound (f p w)"
proof -
  have n: "nested (BNet # r)" using assms(1,3) by (simp add: pinv_def)
  have e: "sound (open_block K BEth (new_eth s q) v)" "sound (open_block K BWlan (new_wlan s q) v)"
    if "pinv q" "blocks q = blocks p" for s q v
    using that n assms(3)
    by (auto intro!: open_block_sound pinv_keeps[OF that(1)] new_eth_data new_wlan_data simp: keeps_def pointed_def)
  consider (eth) "k = ETHERNETNAME" | (wlan) "k = WIRELESSNAME" using assms(2) by (cases k) auto
  then show ?thesis
  proof cases
    case eth
    then have "Some f = net_option K ETHERNETNAME" using assms(2) by simp
    then show ?thesis
      unfolding net_option.simps option.inject
      apply -
      apply (elim ssubst, intro token_sound(1)[OF assms(1)] calloc_sound, unfold Let_def new_static_def)
      apply (intro calloc_sound, rule e(1)[unfolded new_eth_def Let_def]; assumption)
      done
  next
    case wlan
    then have "Some f = net_option K WIRELESSNAME" using assms(2) by simp
    then show ?thesis
      unfolding net_option.simps option.inject
      apply -
      apply (elim ssubst, intro token_sound(1)[OF assms(1)] calloc_sound, unfold Let_def new_static_def)
      apply (intro calloc_sound, rule e(2)[unfolded new_wlan_def push_static_def push_wpa_def push_wlan_def point_wpa_def Let_def]; assumption)
      done
  qed
qed

lemma wpa_option_sound:
  assumes "pinv p" and a: "\<And>q. pinv q \<Longrightarrow> blocks q = blocks p \<Longrightarrow> p_wpa q \<noteq> None"
  shows "wpa_option K k = Some f \<Longrightarrow> sound (f p w)"
  using assms by (cases k) (auto intro!: token_sound(1) on_wpa_sound)

lemma wep_option_sound: "pinv p \<Longrightarrow> wep_option K k = Some f \<Longrightarrow> sound (f p w)"
  by (cases k) (auto intro!: token_sound(1) act_wlan_sound simp: wlan_wf_def)

lemma top_option_sound:
  assumes "pinv p" "top_option K k = Some f" "map fst (blocks p) = [BTop]"
  shows "sound (f p w)"
proof -
  have n: "sound (andthen (peek K (new_net s q) v) (\<lambda>(t, p1) w1.
         if t = TChr 123 then Ok (True, (shift p1)\<lparr>blocks := (BNet, PFirst) # blocks p1\<rparr>) w1 else syntax_error p1 w1))"
    if q: "pinv q" "blocks q = blocks p" "length s \<le> MAX_NETWORK_NAME_SIZE" for s q v
  proof (rule holds_andthen[OF peek_holds])
    show i: "pinv (new_net s q)"
      by (rule pinv_keeps[OF q(1) new_net_data]) (use q in \<open>auto simp: keeps_def new_net_def\<close>)
    fix a :: "token \<times> pstate" and v
    assume a: "pinv (snd a) \<and> blocks (snd a) = blocks (new_net s q) \<and> staticonfig (snd a) = staticonfig (new_net s q) \<and>
      p_wpa (snd a) = p_wpa (new_net s q)"
    then have "nested (BNet # map fst (blocks (snd a)))" using q(2) assms(3) by (simp add: new_net_def)
    with a open_pinv[of "snd a" BNet]
    show "sound ((case a of (t, p1) \<Rightarrow> \<lambda>w1.
         if t = TChr 123 then Ok (True, (shift p1)\<lparr>blocks := (BNet, PFirst) # blocks p1\<rparr>) w1 else syntax_error p1 w1) v)"
      by (cases a) (auto simp: pointed_def)
  qed
  show ?thesis
    using assms(1,2) n
    by (cases k)
       (auto intro!: token_sound calloc_sound simp: act_def new_net_def split: prod.split option.split)
qed

lemma option_sound:
  assumes p: "pinv p" and f: "option_of K b k = Some f" and b: "map fst (blocks p) = b # r"
  shows "sound (f p w)"
proof -
  have a: "pointed b q" "nested (b # r)" if "pinv q" "blocks q = blocks p" for q
    using that b by (auto simp: pinv_def)
  have t: "b = BTop \<Longrightarrow> r = []" using a(2)[OF p refl] by auto
  show ?thesis
  proof (cases b)
    case BTop
    with f b t show ?thesis by (intro top_option_sound[OF p]) (auto simp: option_of_def)
  next
    case BNet
    with f b show ?thesis by (intro net_option_sound[OF p]) (auto simp: option_of_def)
  next
    case BEth
    with f a(1) show ?thesis by (intro eth_option_sound[OF p]) (auto simp: option_of_def pointed_def)
  next
    case BWlan
    with f b a(1) show ?thesis by (intro wlan_option_sound[OF p]) (auto simp: option_of_def pointed_def)
  next
    case BWpa
    with f a(1) show ?thesis by (intro wpa_option_sound[OF p]) (auto simp: option_of_def pointed_def)
  next
    case BWep
    with f show ?thesis by (intro wep_option_sound[OF p]) (auto simp: option_of_def)
  qed
qed

section \<open>The whole parser\<close>

lemma end_block_blocks: "(end_block b q)\<lparr>blocks := r\<rparr> = end_block b (q\<lparr>blocks := r\<rparr>)"
  by (simp add: end_block_def)

lemma place_step_sound:
  assumes p: "pinv p" and b: "blocks p = (b, pl) # r"
  shows "sound (place_step K b pl t p w)"
proof -
  have f: "sound (f (set_place (after_option b pl) (shift p)) w)" if "option_of K b k = Some f" for f k
  proof (rule option_sound[OF _ that])
    show "pinv (set_place (after_option b pl) (shift p))" using p by simp
    show "map fst (blocks (set_place (after_option b pl) (shift p))) = b # map fst r" using b by (simp add: set_place_def)
  qed
  have e: "pinv ((end_block b (shift p))\<lparr>blocks := r\<rparr>)"
  proof -
    have n: "nested (b # map fst r)" "\<forall>x\<in>set (map fst r). pointed x p" using p b by (auto simp: pinv_def)
    then have "pinv ((shift p)\<lparr>blocks := r\<rparr>)"
      using p nested_tl[OF n(1)] by (auto simp: pinv_def data_wf_def pointed_def shift_def)
    with end_block_pinv[of "(shift p)\<lparr>blocks := r\<rparr>" b] n(1) show ?thesis by (simp add: end_block_blocks)
  qed
  have v: "sound (with_string K (\<lambda>v p w. Ok (True, set_place (PVar s v) p) w) (shift p) w)" for s
    by (rule token_sound(1)) (use p in auto)
  show ?thesis
    using p b f e v
    by (auto simp: place_step_def Let_def split: place.split token.split option.split prod.split)
qed

lemma parse_step_holds: "pinv p \<Longrightarrow> holds (\<lambda>x. pinv (snd x)) (parse_step K p w)"
  unfolding parse_step_def
proof (rule holds_andthen[OF peek_holds], assumption)
  fix a :: "token \<times> pstate" and v
  assume "pinv (snd a) \<and> blocks (snd a) = blocks p \<and> staticonfig (snd a) = staticonfig p \<and> p_wpa (snd a) = p_wpa p"
  moreover obtain t p1 where a: "a = (t, p1)" by (cases a)
  ultimately have p1: "pinv p1" by simp
  have skip: "pinv (q\<lparr>errflag := 3, blocks := [(BTop, PSkip)]\<rparr>)" if "pinv q" for q
    using that by (auto simp: pinv_def data_wf_def pointed_def)
  have "holds (\<lambda>x. pinv (snd x)) (andthen (place_step K b pl t p1 v) (\<lambda>(ok, p2).
             Ok (Continue, if ok then p2 else p2\<lparr>errflag := 3, blocks := [(BTop, PSkip)]\<rparr>)))"
    if "blocks p1 = (b, pl) # r" for b pl r
    by (rule holds_andthen[OF place_step_sound[OF p1 that]]) (use skip in auto)
  with p1 a show "holds (\<lambda>x. pinv (snd x)) ((case a of (t, p1) \<Rightarrow> \<lambda>w1. case blocks p1 of
         [] \<Rightarrow> Ok (Abort, p1) w1
       | (b, pl) # _ \<Rightarrow>
           if pl = PSkip then
             (if t = TChr 10 then
                Ok (Continue, set_place PMore (shift (p1\<lparr>lx := count_error (lx p1)\<rparr>))) w1
              else if t = TEnd then Ok (Abort, p1) w1
              else Ok (Continue, p1\<lparr>ahead := None\<rparr>) w1)
           else if t = TEnd \<and> b = BTop \<and> pl = PMore then Ok (Accept, p1) w1
           else andthen (place_step K b pl t p1 w1) (\<lambda>(ok, p2).
             Ok (Continue, if ok then p2 else p2\<lparr>errflag := 3, blocks := [(BTop, PSkip)]\<rparr>))) v)"
    by (auto split: list.split)
qed

lemma yyparse_holds:
  assumes "yyparse K p w = Some r" "pinv p"
  shows "holds pinv r"
proof -
  have "pinv p \<longrightarrow> holds pinv r"
  proof (rule yyparse.raw_induct[OF _ assms(1), where P = "\<lambda>K p w r. pinv p \<longrightarrow> holds pinv r"], rule impI)
    fix rec K p w r
    assume ih: "\<And>K p w r. rec K p w = Some r \<Longrightarrow> pinv p \<longrightarrow> holds pinv r" and p: "pinv p"
      and r: "(case parse_step K p w of Ok r w1 \<Rightarrow> if fst r = Continue then rec K (snd r) w1 else Some (Ok (snd r) w1)
        | Exit c v \<Rightarrow> Some (Exit c v) | Undef s v \<Rightarrow> Some (Undef s v)) = Some r"
    from parse_step_holds[OF p, of K w] ih r show "holds pinv r"
      by (cases "parse_step K p w") (auto split: if_splits)
  qed
  with assms(2) show ?thesis by simp
qed

text \<open>What the monitor relies on: no structure it follows is missing, and the names fit their arrays.\<close>

definition conf_wf :: "ifconfigd_conf \<Rightarrow> bool" where
  "conf_wf c \<longleftrightarrow> list_all (\<lambda>N. length (nw_name N) \<le> MAX_NETWORK_NAME_SIZE \<and>
     list_all (\<lambda>e. length (eth_name e) \<le> 512 \<and> length (eth_interface e) \<le> 128 \<and>
       eth_isdhcp e = (if eth_staticopts e = None then 1 else 0)) (ethernet_list N) \<and>
     list_all (\<lambda>x. length (wl_name x) \<le> 512 \<and> length (wl_interface x) \<le> 128 \<and> wl_staticopts x \<noteq> None \<and> wl_wpa x \<noteq> None \<and>
       (wl_isdhcp x = 0 \<or> wl_isdhcp x = 1)) (wireless_list N)) (network_list c)"

lemma pinv_conf_wf:
  assumes "pinv p"
  shows "conf_wf (the_conf p)"
proof -
  have "list_all (net_wf (length (statics p)) (length (wpas p))) (p_nets p)" using assms by (simp add: pinv_def data_wf_def)
  then show ?thesis
    unfolding conf_wf_def the_conf_def list_all_iff net_wf_def
    by (fastforce simp: eth_wf_def wlan_wf_def the_eth_def the_wlan_def)
qed

lemma parse_config_holds: "parse_config K f w = Some r \<Longrightarrow> holds (\<lambda>c. c = None \<or> (\<exists>x. c = Some x \<and> conf_wf x)) r"
proof -
  assume r: "parse_config K f w = Some r"
  have s: "pinv (start_state L)" for L by (simp add: pinv_def data_wf_def pointed_def start_state_def)
  have y: "holds pinv q" if "yyparse K (start_state L) v = Some q" for L v q
    using yyparse_holds[OF that s] .
  from r show ?thesis
    by (auto simp: parse_config_def split: prod.splits if_splits option.splits dest!: y
        intro!: holds_andthen pinv_conf_wf)
qed

section \<open>Networks without a key\<close>

text \<open>Runs of the gate that do not come back, whatever the state.\<close>

definition stuck :: "(ifc \<Rightarrow> world \<Rightarrow> ifc outcome) \<Rightarrow> bool" where
  "stuck f \<longleftrightarrow> (\<forall>g w r w'. f g w \<noteq> Ok r w')"

lemma stuckI: "(\<And>g w r w'. f g w \<noteq> Ok r w') \<Longrightarrow> stuck f"
  by (simp add: stuck_def)

lemma stuck_andthen: "stuck f \<Longrightarrow> andthen m (\<lambda>g. f (h g)) \<noteq> Ok r w"
  by (auto simp: stuck_def andthen_Ok_iff)

lemma find_cmd_wpa:
  "find_cmd K N ''wpa'' = (1, 0, F1 (setifwpa K))" "find_cmd K N ''wpakey'' = (NEXTARG, 0, F1 (setifwpakey K))"
  "find_cmd K N ''wpaakms'' = (NEXTARG, 0, F1 (setifwpaakms K))"
  "find_cmd K N ''wpaciphers'' = (NEXTARG, 0, F1 (setifwpaciphers K))"
  "find_cmd K N ''wpagroupcipher'' = (NEXTARG, 0, F1 (setifwpagroupcipher K))"
  by (simp_all add: find_cmd_def cmds_def cmds_basic_def)

lemma stuck_arg:
  assumes "find_cmd K N a = (NEXTARG, ac, f)" "stuck (gate_loop K N n rest)"
  shows "stuck (gate_loop K N (Suc (Suc n)) (Str a # ptr v # rest))"
  using assms stuck_andthen[OF assms(2)] by (intro stuckI) (cases v; simp add: gate_loop.simps errx_def)

lemma stuck_wpa: "stuck (gate_loop K N n rest) \<Longrightarrow> stuck (gate_loop K N (Suc n) (Str ''wpa'' # rest))"
  using stuck_andthen by (intro stuckI) (simp add: gate_loop.simps find_cmd_wpa nextarg_defs)

lemma stuck_key: "stuck (gate_loop K N (Suc n) (Str ''wpakey'' # Null # rest))"
  by (intro stuckI) (simp add: gate_loop.simps find_cmd_wpa errx_def)

lemma stuck_opt:
  assumes "find_cmd K N a = (NEXTARG, ac, f)" "stuck (gate_loop K N n rest)"
  shows "stuck (gate_loop K N (length (opt_words a v) + n) (opt_words a v @ rest))"
  using stuck_arg[OF assms, of v] assms(2) by (simp add: opt_words_def)

lemma wpa_vector_stuck:
  assumes "wc_wpakey wp = None"
  shows "stuck (gate_loop K N (length (wpa_todo nwid wp)) (wpa_todo nwid wp @ rest))"
proof -
  note o = stuck_opt[OF find_cmd_wpa(3), OF stuck_opt[OF find_cmd_wpa(4), OF stuck_opt[OF find_cmd_wpa(5), OF stuck_key]],
      of K N "wc_wpaakms wp" "wc_wpaciphers wp" "wc_wpagroupcipher wp" 1 rest]
  from stuck_arg[OF find_cmd_basic(4) stuck_wpa[OF o], of nwid] show ?thesis
    using assms by (simp add: wpa_todo_def)
qed

lemma gate_stuck:
  assumes "stuck (gate_loop K N n (Str a # rest))" "map_of afs a = None" "0 < n"
  shows "ifconfig_gate K N n (Str a # rest) i g w \<noteq> Ok r w'"
  using assms
  by (cases i) (auto simp: ifconfig_gate_def gate_family_def Let_def errx_def andthen_Ok_iff stuck_def split: prod.splits)

lemma connect_wpa_stuck:
  assumes "wl_wpa x = Some wp" "wc_wpakey wp = None"
  shows "connect_wpa K N x v g w \<noteq> Ok r w'"
proof -
  let ?todo = "wpa_todo (wl_nwid x) wp"
  have "ifconfig_gate K N (length ?todo) (store ?todo u) i g1 w1 \<noteq> Ok r1 w2" for u i g1 w1 r1 w2
    using gate_stuck[of K N "length ?todo" "''nwid''" "tl ?todo @ drop (length ?todo) u"]
      wpa_vector_stuck[OF assms(2), of K N "wl_nwid x"]
    by (simp add: store_def wpa_todo_def afs_def)
  then show ?thesis using assms(1) by (auto simp: connect_wpa_def Let_def andthen_Ok_iff)
qed

section \<open>Properties\<close>

text \<open>
  (C38) A wireless network of a configuration file without a WPA key can never be connected: the
  parser allocates the WPA options of every network, and \<open>connect_wireless\<close> then passes the
  missing key to the gate, so that no run of it returns.
\<close>

theorem parsed_wireless_needs_key:
  assumes "parse_config K f w = Some (Ok (Some c) w1)" "nw \<in> set (network_list c)" "x \<in> set (wireless_list nw)"
    "\<forall>wp. wl_wpa x = Some wp \<longrightarrow> wc_wpakey wp = None"
  shows "connect_wireless K' N x g v \<noteq> Ok r v'"
proof -
  from parse_config_holds[OF assms(1)] assms(2,3) obtain wp where "wl_wpa x = Some wp"
    by (fastforce simp: conf_wf_def list_all_iff)
  with assms(4) connect_wpa_stuck show ?thesis by (auto simp: connect_wireless_def andthen_Ok_iff)
qed

definition keyless_conf :: ifconfigd_conf where
  "keyless_conf = \<lparr>network_list = [\<lparr>nw_name = ''cafe'', nw_priority = 0, ethernet_list = [],
     wireless_list = [(sample_wlan ''wir3'' None)\<lparr>wl_isdhcp := 1, wl_staticopts := Some zero_static, wl_wpa := Some zero_wpa\<rparr>]\<rparr>],
     csock = [], upinterval = 0\<rparr>"

definition keyless_kernel :: kernel where
  "keyless_kernel = sample_kernel\<lparr>k_file := (\<lambda>_. Inr (render (conf_toks keyless_conf)))\<rparr>"

theorem parsed_wireless_needs_key_witness:
  "connect_wireless sample_kernel sample_netdb
     ((sample_wlan ''wir3'' None)\<lparr>wl_isdhcp := 1, wl_staticopts := Some zero_static, wl_wpa := Some zero_wpa\<rparr>)
     sample_ifc sample_world \<noteq> Ok (0, sample_ifc) sample_world"
proof -
  have "conf_ok keyless_conf"
    by (simp add: keyless_conf_def conf_ok_def net_ok_def wlan_ok_def wpa_ok_def static_ok_def opt_ok_def str_ok_def
        int_ok_def plain_char_def sample_wlan_def zero_static_def zero_wpa_def MAX_NETWORK_NAME_SIZE_def)
  then obtain w' where "parse_config keyless_kernel ''x'' sample_world = Some (Ok (Some keyless_conf) w')"
    using parse_printed[of keyless_kernel _ keyless_conf] by (auto simp: keyless_kernel_def sample_kernel_def)
  then show ?thesis
    by (rule parsed_wireless_needs_key[where nw = "hd (network_list keyless_conf)"]) (simp_all add: keyless_conf_def sample_wlan_def zero_wpa_def)
qed

end
