(* ===== verification/Getopt.thy ===== *)
theory Getopt
  imports Ifc_Base
begin

text \<open>
  Command line options: \<open>getopt\<close> (\<open>libc/stdlib/getopt_long.c\<close>, without long options and without
  permutation, as \<open>getopt\<close> calls \<open>getopt_internal\<close>). The state is the rest of the word being
  scanned (\<open>place\<close>) and the words from \<open>optind\<close> on. The lemmas show that the scan of a command
  line ends.
\<close>

section \<open>Operations\<close>

datatype getopt_result = GEnd | GOpt char "string option" | GBadch char | GBadarg char

type_synonym getopt_state = "string \<times> string list"

text \<open>Whether a letter takes an argument: the letter is followed by a colon in \<open>options\<close>.\<close>

fun opt_takes_arg :: "string \<Rightarrow> char \<Rightarrow> bool" where
  "opt_takes_arg (a # b # r) c \<longleftrightarrow> (if a = c then b = CHR '':'' else opt_takes_arg (b # r) c)"
| "opt_takes_arg _ c \<longleftrightarrow> False"

text \<open>One letter of the word at the front of \<open>args\<close>.\<close>

fun getopt_letter :: "string \<Rightarrow> string \<Rightarrow> string list \<Rightarrow> getopt_result \<times> getopt_state" where
  "getopt_letter options [] args = (GEnd, [], args)"
| "getopt_letter options (optchar # place) args =
     (if optchar = CHR '':'' \<or> (optchar = CHR ''-'' \<and> place \<noteq> []) \<or> optchar \<notin> set options then
        if optchar = CHR ''-'' \<and> place = [] then (GEnd, place, args)
        else (GBadch optchar, place, if place = [] then tl args else args)
      else if \<not> opt_takes_arg options optchar then
        (GOpt optchar None, place, if place = [] then tl args else args)
      else if place \<noteq> [] then (GOpt optchar (Some place), [], tl args)
      else case tl args of
        [] \<Rightarrow> (GBadarg optchar, [], [])
      | a # r \<Rightarrow> (GOpt optchar (Some a), [], r))"

definition getopt :: "string \<Rightarrow> getopt_state \<Rightarrow> getopt_result \<times> getopt_state" where
  "getopt options st =
     (case st of (place, args) \<Rightarrow>
        if place \<noteq> [] then getopt_letter options place args
        else case args of
          [] \<Rightarrow> (GEnd, [], [])
        | a # r \<Rightarrow>
            if take 1 a \<noteq> ''-'' \<or> (a = ''-'' \<and> CHR ''-'' \<notin> set options) then (GEnd, [], a # r)
            else if a = ''--'' then (GEnd, [], r)
            else getopt_letter options (if a = ''-'' then a else tl a) (a # r))"

text \<open>The message of a failed call.\<close>

fun getopt_error :: "getopt_result \<Rightarrow> world \<Rightarrow> world" where
  "getopt_error (GBadch c) w = warnx ''unknown option -- %s'' [AS [c]] w"
| "getopt_error (GBadarg c) w = warnx ''option requires an argument -- %s'' [AS [c]] w"
| "getopt_error _ w = w"

section \<open>The scan ends\<close>

definition getopt_size :: "getopt_state \<Rightarrow> nat" where
  "getopt_size st = (case st of (place, args) \<Rightarrow>
     if place = [] then sum_list (map (\<lambda>a. length a + 1) args)
     else length place + sum_list (map (\<lambda>a. length a + 1) (tl args)))"

lemma getopt_letter_decreases:
  assumes "getopt_letter options place args = (r, st')" "r \<noteq> GEnd" "place \<noteq> []"
  shows "getopt_size st' < length place + sum_list (map (\<lambda>a. length a + 1) (tl args))"
  using assms
  by (cases place; cases "tl args") (auto simp: getopt_size_def split: if_splits)

lemma getopt_decreases:
  assumes "getopt options st = (r, st')" "r \<noteq> GEnd"
  shows "getopt_size st' < getopt_size st"
proof -
  obtain place args where st: "st = (place, args)" by (cases st)
  show ?thesis
  proof (cases "place = []")
    case False
    with assms st getopt_letter_decreases show ?thesis by (simp add: getopt_def getopt_size_def)
  next
    case True
    with assms st obtain a r' where a: "args = a # r'" by (cases args) (auto simp: getopt_def)
    let ?p = "if a = ''-'' then a else tl a"
    have g: "getopt_letter options ?p (a # r') = (r, st')" "?p \<noteq> []" "length ?p \<le> length a"
      using assms st True a by (auto simp: getopt_def split: if_splits)
    from getopt_letter_decreases[OF g(1) assms(2) g(2)] g(3) st True a show ?thesis
      by (simp add: getopt_size_def del: getopt_letter.simps)
  qed
qed

end
