(* ===== verification/Parent.thy ===== *)
theory Parent
  imports Engine Conf_Safety Getopt
begin

text \<open>
  The privileged process (\<open>ifconfigd/ifconfigd.c\<close>): \<open>main\<close> from its options to the event loop, the
  dispatcher of the pipe to the engine, the signal handler and the shutdown. A start-up that does not
  come back is \<open>None\<close>: the parser of a file that includes itself, or a shutdown that waits for ever.
  The lemmas show what the start-up leaves behind, what a
  message from the engine does, and that the shutdown ends.
\<close>

section \<open>State\<close>

record parent =
  p_iev :: imsgev
  p_pid :: int
  p_conf :: ifconfigd_conf
  p_ifc :: ifc

definition SIGHUP :: nat where "SIGHUP = 1"
definition SIGINT :: nat where "SIGINT = 2"
definition SIGTERM :: nat where "SIGTERM = 15"
definition SIGCHLD :: nat where "SIGCHLD = 20"

lemmas sig_defs = SIGHUP_def SIGINT_def SIGTERM_def SIGCHLD_def

section \<open>Shutdown\<close>

definition check_child :: "kernel \<Rightarrow> int \<Rightarrow> string \<Rightarrow> world \<Rightarrow> bool \<times> world" where
  "check_child K pid pname w =
     (case sys_int K (EvWaitpid pid) w of (r, w1) \<Rightarrow>
        if r > 0 then
          (case k_wstatus K (trace w1) of
             WExited _ \<Rightarrow> (True, log_warnx K ''check_child: lost child: %s exited'' [AS pname] w1)
           | WSignaled s \<Rightarrow>
               (True, log_warnx K ''check_child: lost child: %s terminated; signal %d'' [AS pname, AI s] w1)
           | WStopped _ \<Rightarrow> (False, w1))
        else (False, w1))"

text \<open>The loop that waits for the children may never end; \<open>None\<close> is a loop that does not.\<close>

partial_function (option) wait_loop :: "kernel \<Rightarrow> world \<Rightarrow> unit outcome option" where
  "wait_loop K w =
     (case sys_int K EvWait w of (pid, w1) \<Rightarrow>
        if pid = - 1 \<and> errno w1 \<noteq> EINTR \<and> errno w1 \<noteq> ECHILD then Some (fatal K (Some ''wait'') w1)
        else if pid \<noteq> - 1 \<or> errno w1 = EINTR then wait_loop K w1
        else Some (Ok () w1))"

definition ifconfigd_shutdown :: "kernel \<Rightarrow> int \<Rightarrow> world \<Rightarrow> 'a outcome option" where
  "ifconfigd_shutdown K ifconfigde_pid w =
     (let w1 = (if ifconfigde_pid \<noteq> 0 then snd (sys_ok K (EvKill ifconfigde_pid SIGTERM) w) else w) in
      map_option (\<lambda>r. andthen r (\<lambda>_ w2. Exit 0 (log_info K ''terminating'' [] w2))) (wait_loop K w1))"

section \<open>Signals\<close>

fun then_opt :: "'a outcome option \<Rightarrow> ('a \<Rightarrow> world \<Rightarrow> 'b outcome option) \<Rightarrow> 'b outcome option" where
  "then_opt None f = None"
| "then_opt (Some (Ok a w)) f = f a w"
| "then_opt (Some (Exit c w)) f = Some (Exit c w)"
| "then_opt (Some (Undef s w)) f = Some (Undef s w)"

text \<open>The statement that the three cases share.\<close>

definition reap :: "kernel \<Rightarrow> parent \<Rightarrow> world \<Rightarrow> parent outcome option" where
  "reap K p w =
     (case check_child K (p_pid p) ''socket ifconfigd engine'' w of (lost, w1) \<Rightarrow>
        if lost then ifconfigd_shutdown K 0 w1 else Some (Ok p w1))"

text \<open>No case before \<open>SIGCHLD\<close> has a \<open>break\<close>.\<close>

definition ifconfigd_sig_handler :: "kernel \<Rightarrow> nat \<Rightarrow> parent \<Rightarrow> world \<Rightarrow> parent outcome option" where
  "ifconfigd_sig_handler K sig p w =
     (let on_chld = reap K;
          on_int = (\<lambda>p w. then_opt (reap K p (log_info K ''SIGINT'' [] w)) on_chld);
          on_term = (\<lambda>p w. then_opt (reap K p (log_info K ''SIGTERM'' [] w)) on_int)
      in if sig = SIGTERM then on_term p w
         else if sig = SIGINT then on_int p w
         else if sig = SIGCHLD then on_chld p w
         else if sig = SIGHUP then Some (Ok p (log_info K ''reconfigure'' [] w))
         else Some (Ok p (log_warnx K ''unexpected signal'' [] w)))"

section \<open>Messages from the engine\<close>

text \<open>
  The body of the \<open>switch\<close>: \<open>IMSG_USE_ETHERNET\<close> copies 64 bytes of the payload, whatever its
  length, and falls through to \<open>IMSG_IFCONFIGD_MONITOR\<close>. A name without a terminator is read past
  its end.
\<close>

definition main_handle_imsg ::
  "kernel \<Rightarrow> netdb \<Rightarrow> ifconfigd_conf \<Rightarrow> imsg \<Rightarrow> ifc \<Rightarrow> world \<Rightarrow> ifc outcome" where
  "main_handle_imsg K N conf m g w =
     (let mon = (\<lambda>g w. andthen (monitor K N conf g w) (\<lambda>(_, g1). Ok g1)) in
      case imsg_type_of (hdr_type (msg_hdr m)) of
        Some IMSG_USE_ETHERNET \<Rightarrow>
          if length (msg_data m) < MAX_NETWORK_NAME_SIZE then Undef ''main_dispatch_ifconfigde: memcpy'' w
          else let buf = take MAX_NETWORK_NAME_SIZE (msg_data m);
                   nm = map byte_char (takeWhile (\<lambda>b. b \<noteq> 0) buf) in
            if 0 \<notin> set buf then Undef ''main_dispatch_ifconfigde: name'' w
            else andthen (use_ethernet K N conf nm g (log_debug K ''name %s'' [AS nm] w)) (\<lambda>(r, g1) w1.
              mon g1 (if r = - 1 then log_warnx K ''could not use %s'' [AS nm] w1 else w1))
      | Some IMSG_IFCONFIGD_MONITOR \<Rightarrow> mon g w
      | _ \<Rightarrow> Ok g (log_debug K ''main_dispatch_ifconfigde: error handling imsg %d'' [AI (sint (hdr_type (msg_hdr m)))] w))"

text \<open>The second component of the result says whether the event loop was told to exit.\<close>

definition main_dispatch_ifconfigde ::
  "kernel \<Rightarrow> netdb \<Rightarrow> nat \<Rightarrow> parent \<Rightarrow> world \<Rightarrow> (parent \<times> bool) outcome" where
  "main_dispatch_ifconfigde K N event p w =
     (case (if event AND EV_READ \<noteq> 0 then imsg_read K (iev_ibuf (p_iev p)) w else (1, iev_ibuf (p_iev p), w)) of
        (n, ib1, w1) \<Rightarrow>
          if n = - 1 then fatal K (Some ''imsg_read error'') w1
          else let shut = (n = 0) in
          case (if event AND EV_WRITE \<noteq> 0 then msgbuf_write K (im_w ib1) w1 else (0, im_w ib1, w1)) of
            (r, m, w2) \<Rightarrow>
              if r = - 1 then fatal K (Some ''msgbuf_write'') w2
              else andthen (imsg_loop K (main_handle_imsg K N (p_conf p)) (ib1\<lparr>im_w := m\<rparr>) (p_ifc p) w2)
                (\<lambda>(e, ib2, g) w3.
                   if e = - 1 then fatal K (Some ''imsg_get'') w3
                   else let p1 = p\<lparr>p_iev := (p_iev p)\<lparr>iev_ibuf := ib2\<rparr>, p_ifc := g\<rparr> in
                     if \<not> shut then
                       (case imsg_event_add (p_iev p1) w3 of (iev, w4) \<Rightarrow> Ok (p1\<lparr>p_iev := iev\<rparr>, False) w4)
                     else Ok (p1, True) (emit EvLoopexit (emit (EvEventDel (im_fd ib2)) w3))))"

text \<open>
  \<open>ifconfigd_dispatch_ifconfige\<close>, a second dispatcher for the same pipe that nothing registers.
\<close>

definition ifconfigd_handle_ifconfige :: "kernel \<Rightarrow> imsg \<Rightarrow> unit \<Rightarrow> world \<Rightarrow> unit outcome" where
  "ifconfigd_handle_ifconfige K m s w =
     Ok () (log_debug K ''ifconfigd_dispatch_ifconfige: unexpected imsg %d'' [AI (sint (hdr_type (msg_hdr m)))] w)"

definition ifconfigd_dispatch_ifconfige ::
  "kernel \<Rightarrow> nat \<Rightarrow> imsgev \<Rightarrow> world \<Rightarrow> (imsgev \<times> bool) outcome" where
  "ifconfigd_dispatch_ifconfige K event iev w =
     (if event = EV_READ then
        (case imsg_read K (iev_ibuf iev) w of (n, ib1, w1) \<Rightarrow>
           if n = - 1 then fatal K (Some ''ifconfigd_dispatch_ifconfige: imsg_read error'') w1
           else if n = 0 then
             Ok (iev\<lparr>iev_ibuf := ib1\<rparr>, True) (emit EvLoopexit (emit (EvEventDel (im_fd ib1)) w1))
           else andthen (imsg_loop K (ifconfigd_handle_ifconfige K) ib1 () w1) (\<lambda>(e, ib2, _) w2.
             if e = - 1 then fatal K (Some ''ifconfigd_dispatch_ifconfige: imsg_read error'') w2
             else case imsg_event_add (iev\<lparr>iev_ibuf := ib2\<rparr>) w2 of (iev1, w3) \<Rightarrow> Ok (iev1, False) w3))
      else if event = EV_WRITE then
        (case msgbuf_write K (im_w (iev_ibuf iev)) w of (r, m, w1) \<Rightarrow>
           if r = - 1 then fatal K (Some ''ifconfigd_dispatch_ifconfige: msgbuf_write'') w1
           else case imsg_event_add (iev\<lparr>iev_ibuf := (iev_ibuf iev)\<lparr>im_w := m\<rparr>\<rparr>) w1 of
             (iev1, w2) \<Rightarrow> Ok (iev1, False) w2)
      else fatalx K (Some ''ifconfigd_dispatch_ifconfige: unknown event'') w)"

section \<open>Start-up\<close>

record main_opts =
  mo_debug :: int
  mo_verbose :: int
  mo_csockpath :: string
  mo_conffile :: string

definition IFCONFIGD_SOCKET :: string where "IFCONFIGD_SOCKET = ''/var/run/ifconfigd.sock''"
definition CONF_FILE :: string where "CONF_FILE = ''/etc/ifconfigd.conf''"

definition default_opts :: main_opts where
  "default_opts = \<lparr>mo_debug = 0, mo_verbose = 0, mo_csockpath = IFCONFIGD_SOCKET, mo_conffile = CONF_FILE\<rparr>"

definition main_option :: "char \<Rightarrow> string option \<Rightarrow> main_opts \<Rightarrow> main_opts option" where
  "main_option c a o1 =
     (if c = CHR ''d'' then Some (o1\<lparr>mo_debug := 1\<rparr>)
      else if c = CHR ''s'' then Some (o1\<lparr>mo_csockpath := the a\<rparr>)
      else if c = CHR ''f'' then Some (o1\<lparr>mo_conffile := the a\<rparr>)
      else if c = CHR ''v'' then Some (o1\<lparr>mo_verbose := 1\<rparr>)
      else None)"

function main_getopt :: "getopt_state \<Rightarrow> main_opts \<Rightarrow> world \<Rightarrow> main_opts outcome" where
  "main_getopt st o1 w =
     (case getopt ''vds:f:'' st of (r, st') \<Rightarrow>
        (case r of
           GEnd \<Rightarrow> Ok o1 w
         | GOpt c a \<Rightarrow>
             (case main_option c a o1 of
                None \<Rightarrow> usage w
              | Some o2 \<Rightarrow> main_getopt st' o2 w)
         | _ \<Rightarrow> usage (getopt_error r w)))"
  by pat_completeness auto
termination
  by (relation "measure (\<lambda>(st, o1, w). getopt_size st)") (auto dest!: getopt_decreases[OF sym])

declare main_getopt.simps [simp del]

definition socketpair :: "kernel \<Rightarrow> world \<Rightarrow> (int \<times> int) option \<times> world" where
  "socketpair K w = (let w' = emit EvSocketpair w in
     case k_pair K (trace w') of Inl e \<Rightarrow> (None, set_errno e w') | Inr (a, b) \<Rightarrow> (Some (int a, int b), w'))"

text \<open>\<open>main\<close> after the fork, in the parent, up to \<open>event_dispatch\<close>.\<close>

definition main_parent :: "kernel \<Rightarrow> ifconfigd_conf \<Rightarrow> int \<times> int \<Rightarrow> int \<Rightarrow> ifc \<Rightarrow> world \<Rightarrow> parent outcome" where
  "main_parent K conf pipe pid g w =
     (let w1 = emit EvEventInit (emit (EvSetproctitle ''parent'') w);
          w2 = emit (EvSignalAdd SIGHUP) (emit (EvSignalAdd SIGCHLD) (emit (EvSignalAdd SIGTERM) (emit (EvSignalAdd SIGINT) w1)));
          w3 = close_fd (snd pipe) w2
      in case alloc K sizeof_imsgev w3 of (ok, w4) \<Rightarrow>
        if \<not> ok then fatal K None w4
        else let iev = \<lparr>iev_ibuf = imsg_init K (fst pipe), iev_handler = H_main_dispatch_ifconfigde, iev_events = EV_READ\<rparr>
          in Ok \<lparr>p_iev = iev, p_pid = pid, p_conf = conf, p_ifc = g\<rparr>
               (log_info K ''startup'' [] (emit (EvEventAdd (im_fd (iev_ibuf iev)) (iev_events iev)) w4)))"

text \<open>The steps of \<open>main\<close> before the fork: configuration, privileges, daemon, pipe.\<close>

definition main_config :: "kernel \<Rightarrow> string list \<Rightarrow> world \<Rightarrow> (main_opts \<times> ifconfigd_conf) outcome option" where
  "main_config K argv w =
     then_opt (Some (main_getopt ([], argv) default_opts w)) (\<lambda>o1 w1.
     then_opt (parse_config K (mo_conffile o1) (log_init (if mo_debug o1 \<noteq> 0 then mo_debug o1 else 1) w1)) (\<lambda>c w2.
       Some (case c of
         None \<Rightarrow> Exit 1 w2
       | Some conf \<Rightarrow> Ok (o1, conf\<lparr>csock := mo_csockpath o1\<rparr>) w2)))"

definition main_checks :: "kernel \<Rightarrow> world \<Rightarrow> unit outcome" where
  "main_checks K w =
     (case sys_int K EvGeteuid w of (euid, w1) \<Rightarrow>
        if euid \<noteq> 0 then errx ''need root privileges'' [] w1
        else case getpwnam K IFCONFIGD_USER w1 of
          (None, w2) \<Rightarrow> errx ''unknown user %s'' [AS IFCONFIGD_USER] w2
        | (Some _, w2) \<Rightarrow> Ok () w2)"

definition main_daemon :: "kernel \<Rightarrow> int \<Rightarrow> world \<Rightarrow> unit outcome" where
  "main_daemon K dbg w =
     (if dbg = 0 then
        (case sys_ok K EvDaemon w of
           (False, w1) \<Rightarrow> err K ''failed to daemonize'' [] w1
         | (True, w1) \<Rightarrow> Ok () w1)
      else Ok () w)"

definition main_pipe :: "kernel \<Rightarrow> world \<Rightarrow> (int \<times> int) outcome" where
  "main_pipe K w =
     (case socketpair K w of
        (None, w1) \<Rightarrow> fatal K (Some ''socketpair'') w1
      | (Some pipe, w1) \<Rightarrow>
          andthen (session_socket_blockmode K (fst pipe) BM_NONBLOCK w1) (\<lambda>_ w2.
          andthen (session_socket_blockmode K (snd pipe) BM_NONBLOCK w2) (\<lambda>_. Ok pipe)))"

text \<open>
  \<open>main\<close> up to the event loops: the parent's in the parent, the engine's in the child. \<open>argv\<close> is
  without the program name; \<open>g\<close> are the globals of the interface library.
\<close>

definition main_ifconfigd ::
  "kernel \<Rightarrow> string list \<Rightarrow> ifc \<Rightarrow> world \<Rightarrow> (parent + engine) outcome option" where
  "main_ifconfigd K argv g w =
     then_opt (main_config K argv w) (\<lambda>(o1, conf) w1. Some (
     andthen (main_checks K w1) (\<lambda>_ w2.
     andthen (main_daemon K (mo_debug o1) w2) (\<lambda>_ w3.
     andthen (main_pipe K w3) (\<lambda>pipe w4.
     andthen (ifconfigde K (csock conf) pipe w4) (\<lambda>r w5.
     case r of
       Inr e \<Rightarrow> Ok (Inr e) w5
     | Inl pid \<Rightarrow> andthen (main_parent K conf pipe pid g w5) (\<lambda>p. Ok (Inl p))))))))"

section \<open>Lemmas\<close>

text \<open>The replies with which the wait loop goes on.\<close>

definition wait_again :: "kernel \<Rightarrow> event list \<Rightarrow> bool" where
  "wait_again K t \<longleftrightarrow> (case k_int K t of Inr _ \<Rightarrow> True | Inl e \<Rightarrow> e = EINTR)"

lemma wait_loop_ends:
  assumes "\<forall>i<n. wait_again K (replicate (Suc i) EvWait @ trace w)"
    and "k_int K (replicate (Suc n) EvWait @ trace w) = Inl ECHILD"
  shows "\<exists>w'. wait_loop K w = Some (Ok () w') \<and> trace w' = replicate (Suc n) EvWait @ trace w \<and> debug w' = debug w"
  using assms
proof (induction n arbitrary: w)
  case 0
  then show ?case by (simp add: wait_loop.simps sys_int_def Let_def)
next
  case (Suc n)
  obtain pid w1 where s: "sys_int K EvWait w = (pid, w1)" by fastforce
  have t: "trace w1 = EvWait # trace w" "debug w1 = debug w"
    using sys_int_trace[of K EvWait w] s by simp_all
  have "wait_again K (EvWait # trace w)" using Suc.prems(1) by force
  with s have go: "pid \<noteq> - 1 \<or> errno w1 = EINTR"
    by (auto simp: sys_int_def wait_again_def Let_def split: sum.splits)
  have sh: "replicate (Suc i) EvWait @ trace w1 = replicate (Suc (Suc i)) EvWait @ trace w" for i
    using t by (simp add: replicate_app_Cons_same)
  from Suc.IH[of w1] Suc.prems sh obtain w' where
    "wait_loop K w1 = Some (Ok () w')" "trace w' = replicate (Suc n) EvWait @ trace w1" "debug w' = debug w1"
    by (metis Suc_less_eq)
  moreover have "wait_loop K w = wait_loop K w1"
    using s go by (auto simp: wait_loop.simps[of K w])
  ultimately show ?case using sh t by simp
qed

lemma shutdown_spec:
  fixes w :: world and pid :: int
  defines "t \<equiv> (if pid \<noteq> 0 then [EvKill pid SIGTERM] else []) @ trace w"
  assumes "\<forall>i<n. wait_again K (replicate (Suc i) EvWait @ t)" "k_int K (replicate (Suc n) EvWait @ t) = Inl ECHILD"
  shows "\<exists>w' es. (ifconfigd_shutdown K pid w :: 'a outcome option) = Some (Exit 0 w') \<and>
     trace w' = es @ replicate (Suc n) EvWait @ t \<and> list_all (is_log_event (debug w \<noteq> 0)) es"
proof -
  let ?w1 = "if pid \<noteq> 0 then snd (sys_ok K (EvKill pid SIGTERM) w) else w"
  have w1: "trace ?w1 = t" "debug ?w1 = debug w" by (simp_all add: t_def sys_ok_trace)
  obtain w2 where w2: "wait_loop K ?w1 = Some (Ok () w2)" "trace w2 = replicate (Suc n) EvWait @ t" "debug w2 = debug w"
    using wait_loop_ends[of n K ?w1] assms(2,3) w1 by auto
  have "only_logs w2 (log_info K ''terminating'' [] w2)" by (rule log_functions_only_log)
  then obtain es where "trace (log_info K ''terminating'' [] w2) = es @ trace w2" "list_all (is_log_event (debug w2 \<noteq> 0)) es"
    by (auto simp: only_logs_def)
  with w2 show ?thesis by (simp add: ifconfigd_shutdown_def Let_def)
qed

lemma log_no_kill: "list_all (is_log_event b) es \<Longrightarrow> EvKill q s \<notin> set es"
  by (induction es) auto

text \<open>A child that is still running.\<close>

definition child_alive :: "kernel \<Rightarrow> int \<Rightarrow> bool" where
  "child_alive K pid \<longleftrightarrow> (\<forall>t. k_int K (EvWaitpid pid # t) = Inr 0)"

lemma reap_alive:
  assumes "child_alive K (p_pid p)"
  shows "reap K p w = Some (Ok p (emit (EvWaitpid (p_pid p)) w))"
  using assms by (simp add: reap_def check_child_def sys_int_def Let_def child_alive_def)

text \<open>Events of a process that goes on unchanged: log messages and questions about the child.\<close>

definition only_asks :: "int \<Rightarrow> world \<Rightarrow> world \<Rightarrow> bool" where
  "only_asks pid w w' \<longleftrightarrow> (\<exists>es. trace w' = es @ trace w \<and> list_all (\<lambda>e. e = EvWaitpid pid \<or> is_log_event (debug w \<noteq> 0) e) es) \<and>
     debug w' = debug w"

lemma only_asks_trans [trans]: "only_asks p a b \<Longrightarrow> only_asks p b c \<Longrightarrow> only_asks p a c"
  by (fastforce simp: only_asks_def)

lemma only_asks_emit: "only_asks p w (emit (EvWaitpid p) w)"
  by (simp add: only_asks_def)

lemma only_asks_log: "only_logs w w' \<Longrightarrow> only_asks p w w'"
  by (auto simp: only_logs_def only_asks_def list_all_iff)

lemma only_asks_step: "only_logs w w' \<Longrightarrow> only_asks p w (emit (EvWaitpid p) w')"
  using only_asks_log only_asks_emit only_asks_trans by blast

text \<open>The dispatcher keeps the buffer well-formed.\<close>

lemma main_dispatch_conn_ok:
  assumes ok: "conn_ok K (p_iev p)" and r: "main_dispatch_ifconfigde K N event p w = Ok (p', x) w'"
  shows "conn_ok K (p_iev p') \<and> p_conf p' = p_conf p \<and> p_pid p' = p_pid p"
proof -
  obtain n ib1 w1 where rd: "(if event AND EV_READ \<noteq> 0 then imsg_read K (iev_ibuf (p_iev p)) w
      else (1, iev_ibuf (p_iev p), w)) = (n, ib1, w1)" by (metis prod_cases3)
  have ok1: "imsgbuf_wf ib1" "im_pid ib1 = k_getpid K"
    using rd ok imsg_read_spec[of "iev_ibuf (p_iev p)" K w n ib1 w1] by (auto simp: conn_ok_def split: if_splits)
  obtain rr m w2 where wr: "(if event AND EV_WRITE \<noteq> 0 then msgbuf_write K (im_w ib1) w1
      else (0, im_w ib1, w1)) = (rr, m, w2)" by (metis prod_cases3)
  have ok2: "imsgbuf_wf (ib1\<lparr>im_w := m\<rparr>)"
    using wr ok1 imsg_write_wf[of ib1 K w1 rr m w2] by (auto split: if_splits)
  note run = r[unfolded main_dispatch_ifconfigde_def Let_def rd wr prod.case]
  have nn: "n \<noteq> - 1" "rr \<noteq> - 1" using run by (auto simp: fatal_def split: if_splits)
  obtain e ib2 g w3 where lp: "imsg_loop K (main_handle_imsg K N (p_conf p)) (ib1\<lparr>im_w := m\<rparr>) (p_ifc p) w2 = Ok (e, ib2, g) w3"
    using run nn by (auto simp: andthen_Ok_iff)
  have ib2: "imsgbuf_wf ib2" "im_pid ib2 = k_getpid K"
    using imsg_loop_inv[where P = "\<lambda>_. True", OF ok2 _ lp] ok1 by simp_all
  have e: "e \<noteq> - 1" using run nn lp by (auto simp: fatal_def)
  obtain iev w4 where ea: "imsg_event_add ((p_iev p)\<lparr>iev_ibuf := ib2\<rparr>) w3 = (iev, w4)" by fastforce
  from run nn lp e ea ib2 imsg_event_add_conn_ok[OF ea, of K] show ?thesis
    by (auto simp: conn_ok_def split: if_splits)
qed

section \<open>The event loop\<close>

inductive parent_step :: "kernel \<Rightarrow> netdb \<Rightarrow> parent \<times> world \<Rightarrow> parent \<times> world \<Rightarrow> bool" for K N where
  pipe: "main_dispatch_ifconfigde K N event p w = Ok (p', False) w' \<Longrightarrow> parent_step K N (p, w) (p', w')"
| signal: "ifconfigd_sig_handler K sig p w = Some (Ok p' w') \<Longrightarrow> parent_step K N (p, w) (p', w')"

inductive parent_reachable :: "kernel \<Rightarrow> netdb \<Rightarrow> parent \<times> world \<Rightarrow> bool" for K N where
  start: "main_ifconfigd K argv g w = Some (Ok (Inl p) w') \<Longrightarrow> parent_reachable K N (p, w')"
| step: "parent_reachable K N s \<Longrightarrow> parent_step K N s s' \<Longrightarrow> parent_reachable K N s'"

inductive_cases parent_stepE: "parent_step K N (p, w) x"

lemma reap_Ok: "reap K p w = Some (Ok p' w') \<Longrightarrow> p' = p"
proof -
  assume a: "reap K p w = Some (Ok p' w')"
  have "(ifconfigd_shutdown K 0 x :: parent outcome option) \<noteq> Some (Ok p' w')" for x
    by (auto simp: ifconfigd_shutdown_def andthen_Ok_iff)
  with a show ?thesis by (auto simp: reap_def split: prod.splits if_splits)
qed

lemma then_opt_Ok: "then_opt m f = Some (Ok b w') \<longleftrightarrow> (\<exists>a w. m = Some (Ok a w) \<and> f a w = Some (Ok b w'))"
proof (cases m)
  case (Some x)
  then show ?thesis by (cases x) auto
qed simp

lemma sig_handler_Ok: "ifconfigd_sig_handler K sig p w = Some (Ok p' w') \<Longrightarrow> p' = p"
  by (auto simp: ifconfigd_sig_handler_def Let_def then_opt_Ok dest!: reap_Ok split: if_splits)

lemma main_start:
  assumes "main_ifconfigd K argv g w = Some (Ok (Inl p) w')"
  shows "conn_ok K (p_iev p) \<and> iev_handler (p_iev p) = H_main_dispatch_ifconfigde"
proof -
  obtain conf pipe pid w1 where "main_parent K conf pipe pid g w1 = Ok p w'"
    using assms by (auto simp: main_ifconfigd_def then_opt_Ok andthen_Ok_iff split: sum.splits) (metis sum.exhaust)
  then show ?thesis
    using imsg_init_wf[of K "fst pipe"]
    by (auto simp: main_parent_def Let_def fatal_def conn_ok_def imsg_init_def split: prod.splits if_splits)
qed

section \<open>Properties\<close>

text \<open>
  (C21) The shutdown ends: when the kernel reports that no child is left after \<open>n\<close> waits that
  returned a child or were interrupted, \<open>ifconfigd_shutdown\<close> has sent \<open>SIGTERM\<close> to the engine
  before the first wait (if there is an engine), and exits with status 0.
\<close>

theorem shutdown_ends:
  assumes "\<forall>i<n. wait_again K (replicate (Suc i) EvWait @ (if pid \<noteq> 0 then [EvKill pid SIGTERM] else []) @ trace w)"
    and "k_int K (replicate (Suc n) EvWait @ (if pid \<noteq> 0 then [EvKill pid SIGTERM] else []) @ trace w) = Inl ECHILD"
  shows "\<exists>w' es. (ifconfigd_shutdown K pid w :: parent outcome option) = Some (Exit 0 w') \<and>
     trace w' = es @ replicate (Suc n) EvWait @ (if pid \<noteq> 0 then [EvKill pid SIGTERM] else []) @ trace w \<and>
     list_all (is_log_event (debug w \<noteq> 0)) es"
  using shutdown_spec[OF assms] .

definition childless_kernel :: kernel where
  "childless_kernel = sample_kernel\<lparr>k_int := (\<lambda>t. case t of
       EvWait # EvWait # _ \<Rightarrow> Inl ECHILD | EvWait # _ \<Rightarrow> Inr 8 | _ \<Rightarrow> Inr 0)\<rparr>"

theorem shutdown_ends_witness:
  "\<exists>w' es. (ifconfigd_shutdown childless_kernel 8 sample_world :: parent outcome option) = Some (Exit 0 w') \<and>
     trace w' = es @ replicate (Suc 1) EvWait @ (if 8 \<noteq> (0 :: int) then [EvKill 8 SIGTERM] else []) @ trace sample_world \<and>
     list_all (is_log_event (debug sample_world \<noteq> 0)) es"
  by (rule shutdown_ends) (simp_all add: childless_kernel_def sample_world_def wait_again_def)

text \<open>
  (C35) No signal ends a daemon whose engine is running: whatever the signal, the handler only logs
  and asks for the state of the engine, then returns; it sends no signal and does not exit, also
  for \<open>SIGTERM\<close> and \<open>SIGINT\<close>.
\<close>

theorem signals_keep_running:
  assumes "child_alive K (p_pid p)"
  shows "\<exists>w'. ifconfigd_sig_handler K sig p w = Some (Ok p w') \<and> only_asks (p_pid p) w w'"
proof -
  have l: "only_asks (p_pid p) a (emit (EvWaitpid (p_pid p)) (log_info K m [] a))" for a m
    by (rule only_asks_step) (rule log_functions_only_log)
  have e: "only_asks (p_pid p) a (emit (EvWaitpid (p_pid p)) a)" for a by (rule only_asks_emit)
  have o: "only_asks (p_pid p) a (log_info K m [] a)" "only_asks (p_pid p) a (log_warnx K m [] a)" for a m
    by (rule only_asks_log, rule log_functions_only_log)+
  show ?thesis
    using only_asks_trans[OF only_asks_trans[OF l l] e] only_asks_trans[OF l e] e o
    by (simp add: ifconfigd_sig_handler_def reap_alive[OF assms] Let_def)
qed

definition sample_parent :: parent where
  "sample_parent = \<lparr>p_iev = \<lparr>iev_ibuf = imsg_init sample_kernel 4, iev_handler = H_main_dispatch_ifconfigde, iev_events = EV_READ\<rparr>,
     p_pid = 8, p_conf = sample_conf ''wir3'' None, p_ifc = sample_ifc\<rparr>"

theorem signals_keep_running_witness:
  "\<exists>w'. ifconfigd_sig_handler childless_kernel SIGTERM sample_parent sample_world = Some (Ok sample_parent w') \<and>
     only_asks (p_pid sample_parent) sample_world w'"
  by (rule signals_keep_running) (simp add: child_alive_def childless_kernel_def sample_parent_def)

text \<open>
  When the engine is dead, any of \<open>SIGTERM\<close>, \<open>SIGINT\<close> and \<open>SIGCHLD\<close> ends the daemon with
  status 0, and no signal is sent to the dead process.
\<close>

theorem signals_after_engine_death:
  assumes sig: "sig = SIGTERM \<or> sig = SIGINT \<or> sig = SIGCHLD"
    and dead: "\<forall>t. \<exists>n>0. k_int K (EvWaitpid (p_pid p) # t) = Inr n" "\<forall>t. \<exists>c. k_wstatus K t = WExited c"
    and none: "\<forall>t. k_int K (EvWait # t) = Inl ECHILD"
  shows "\<exists>w'. ifconfigd_sig_handler K sig p w = Some (Exit 0 w') \<and>
     (\<exists>es. trace w' = es @ trace w \<and> (\<forall>q s. EvKill q s \<notin> set es))"
proof -
  have r: "\<exists>w'. reap K p a = Some (Exit 0 w') \<and> (\<exists>es. trace w' = es @ trace a \<and> (\<forall>q s. EvKill q s \<notin> set es))" for a
  proof -
    obtain n c where n: "k_int K (EvWaitpid (p_pid p) # trace a) = Inr n" "n > 0"
      and c: "k_wstatus K (EvWaitpid (p_pid p) # trace a) = WExited c" using dead by blast
    let ?b = "emit (EvWaitpid (p_pid p)) a"
    let ?l = "log_warnx K ''check_child: lost child: %s exited'' [AS ''socket ifconfigd engine''] ?b"
    have cc: "check_child K (p_pid p) ''socket ifconfigd engine'' a = (True, ?l)"
      using n c by (simp add: check_child_def sys_int_def Let_def)
    obtain w' es where sd: "(ifconfigd_shutdown K 0 ?l :: parent outcome option) = Some (Exit 0 w')"
      "trace w' = es @ replicate (Suc 0) EvWait @ trace ?l" "list_all (is_log_event (debug ?l \<noteq> 0)) es"
      using shutdown_spec[of 0 K 0 ?l] none by auto
    have "only_logs ?b ?l" by (rule log_functions_only_log)
    then obtain es' where "trace ?l = es' @ trace ?b" "list_all (is_log_event (debug ?b \<noteq> 0)) es'"
      by (auto simp: only_logs_def)
    with sd cc log_no_kill show ?thesis by (fastforce simp: reap_def)
  qed
  have lg: "\<exists>es. trace (log_info K m [] a) = es @ trace a \<and> (\<forall>q s. EvKill q s \<notin> set es)" for m a
  proof -
    have "only_logs a (log_info K m [] a)" by (rule log_functions_only_log)
    then show ?thesis using log_no_kill by (auto simp: only_logs_def)
  qed
  from sig show ?thesis
  proof (elim disjE)
    assume "sig = SIGTERM"
    with r[of "log_info K ''SIGTERM'' [] w"] lg[of "''SIGTERM''" w] show ?thesis
      by (fastforce simp: ifconfigd_sig_handler_def Let_def)
  next
    assume "sig = SIGINT"
    with r[of "log_info K ''SIGINT'' [] w"] lg[of "''SIGINT''" w] show ?thesis
      by (fastforce simp: ifconfigd_sig_handler_def Let_def sig_defs)
  next
    assume "sig = SIGCHLD"
    with r[of w] show ?thesis by (simp add: ifconfigd_sig_handler_def Let_def sig_defs)
  qed
qed

definition dead_child_kernel :: kernel where
  "dead_child_kernel = sample_kernel\<lparr>k_int := (\<lambda>t. case t of EvWait # _ \<Rightarrow> Inl ECHILD | _ \<Rightarrow> Inr 8)\<rparr>"

theorem signals_after_engine_death_witness:
  "\<exists>w'. ifconfigd_sig_handler dead_child_kernel SIGTERM sample_parent sample_world = Some (Exit 0 w') \<and>
     (\<exists>es. trace w' = es @ trace sample_world \<and> (\<forall>q s. EvKill q s \<notin> set es))"
  by (rule signals_after_engine_death) (simp_all add: dead_child_kernel_def sample_kernel_def)

text \<open>
  (C7) In every reachable state of the privileged process the buffer of the pipe is well-formed and
  carries the pid of the process.
\<close>

theorem parent_reachable_inv:
  assumes "parent_reachable K N (p, w)"
  shows "imsgbuf_wf (iev_ibuf (p_iev p)) \<and> im_pid (iev_ibuf (p_iev p)) = k_getpid K"
proof -
  have "conn_ok K (p_iev (fst s))" if "parent_reachable K N s" for s
    using that
  proof induction
    case (start argv g w p w')
    with main_start show ?case by fastforce
  next
    case (step s s')
    from step(2,3) show ?case
      by cases (use main_dispatch_conn_ok sig_handler_Ok in fastforce)+
  qed
  from this[OF assms] show ?thesis by (simp add: conn_ok_def)
qed

definition root_kernel :: kernel where
  "root_kernel = sample_kernel\<lparr>k_int := (\<lambda>t. case t of EvGeteuid # _ \<Rightarrow> Inr 0 | _ \<Rightarrow> Inr 8),
     k_file := (\<lambda>_. Inr (render (conf_toks sample_file_conf)))\<rparr>"

lemma root_kernel_replies:
  "k_mem root_kernel = (\<lambda>_. True)" "k_ok root_kernel = (\<lambda>_. None)" "k_pair root_kernel = (\<lambda>_. Inr (4, 5))"
  "k_pw root_kernel = (\<lambda>_. Some (''/var/empty'', 99, 99))"
  "k_int root_kernel (e # t) = (if e = EvGeteuid then Inr 0 else Inr 8)"
  by (cases e; simp add: root_kernel_def sample_kernel_def)+

lemma root_start:
  "\<exists>p w'. main_ifconfigd root_kernel [] sample_ifc sample_world = Some (Ok (Inl p) w')"
proof -
  obtain w' where "parse_config root_kernel CONF_FILE (log_init 1 sample_world) = Some (Ok (Some sample_file_conf) w')"
    using parse_printed[OF root_kernel_replies(1) _ sample_file_conf_ok] by (fastforce simp: root_kernel_def)
  then show ?thesis
    by (simp add: main_ifconfigd_def main_config_def main_getopt.simps getopt_def main_checks_def main_daemon_def
        main_pipe_def socketpair_def session_socket_blockmode_def ifconfigde_def main_parent_def sys_int_def sys_ok_def
        getpwnam_def alloc_def default_opts_def Let_def root_kernel_replies)
qed

theorem parent_reachable_inv_witness:
  "\<exists>p w. parent_reachable root_kernel sample_netdb (p, w) \<and>
     imsgbuf_wf (iev_ibuf (p_iev p)) \<and> im_pid (iev_ibuf (p_iev p)) = k_getpid root_kernel"
  using root_start parent_reachable_inv[OF parent_reachable.start] parent_reachable.start by blast

text \<open>
  The daemon starts only as root: if \<open>geteuid\<close> never answers 0, \<open>main\<close> arrives at neither of
  the event loops, whatever the options and the configuration.
\<close>

theorem main_needs_root:
  assumes "\<forall>t. k_int K (EvGeteuid # t) \<noteq> Inr 0"
  shows "main_ifconfigd K argv g w \<noteq> Some (Ok r w')"
proof
  assume "main_ifconfigd K argv g w = Some (Ok r w')"
  then obtain w1 w2 where "main_checks K w1 = Ok () w2"
    by (auto simp: main_ifconfigd_def then_opt_Ok andthen_Ok_iff)
  with assms show False
    by (auto simp: main_checks_def sys_int_def Let_def errx_def split: sum.splits if_splits)
qed

theorem main_needs_root_witness:
  "main_ifconfigd sample_kernel [''-d''] sample_ifc sample_world \<noteq> Some (Ok (Inl sample_parent) sample_world)"
  by (rule main_needs_root) (simp add: sample_kernel_def)

text \<open>
  The options of the daemon: \<open>-d\<close>, \<open>-s path\<close> and \<open>-f file\<close> set what they are meant to set,
  whatever the two strings are and whether the flag is grouped or not; an unknown letter, or
  an option without its argument, ends the program with status 1.
\<close>

theorem main_options:
  "main_getopt ([], [''-d'', ''-s'', s, ''-f'', f]) default_opts w =
     Ok \<lparr>mo_debug = 1, mo_verbose = 0, mo_csockpath = s, mo_conffile = f\<rparr> w \<and>
   main_getopt ([], [''-vdf'', f]) default_opts w =
     Ok \<lparr>mo_debug = 1, mo_verbose = 1, mo_csockpath = IFCONFIGD_SOCKET, mo_conffile = f\<rparr> w \<and>
   main_getopt ([], ''-x'' # r) default_opts w = usage (warnx ''unknown option -- %s'' [AS ''x''] w) \<and>
   main_getopt ([], [''-f'']) default_opts w = usage (warnx ''option requires an argument -- %s'' [AS ''f''] w)"
  by (simp add: main_getopt.simps getopt_def main_option_def default_opts_def)

text \<open>
  (C14) The daemon starts with what its configuration file says: if the file given with \<open>-f\<close> is a
  printed configuration and the system grants what \<open>main\<close> asks for, the parent arrives at its event
  loop with exactly that configuration and the control socket of \<open>-s\<close>, knows the pid of the engine,
  and waits for messages on its end of the pipe.
\<close>

theorem main_starts_configured:
  assumes "k_mem K = (\<lambda>_. True)" "k_ok K = (\<lambda>_. None)" "conf_ok c"
    "\<forall>t. k_file K (EvReadFile f # t) = Inr (render (conf_toks c))"
    "\<forall>t. k_int K (EvGeteuid # t) = Inr 0" "\<forall>t. k_int K (EvFork # t) = Inr (Suc pid)"
    "\<forall>fd t. \<exists>n. k_int K (EvFcntlGet fd # t) = Inr n" "\<forall>fd v t. \<exists>n. k_int K (EvFcntlSet fd v # t) = Inr n"
    "\<forall>t. k_pair K t = Inr (a, b)" "\<forall>t. k_pw K t = Some pw"
  shows "\<exists>p w'. main_ifconfigd K [''-s'', s, ''-f'', f] g w = Some (Ok (Inl p) w') \<and>
    p_conf p = c\<lparr>csock := s\<rparr> \<and> p_pid p = int (Suc pid) \<and> p_ifc p = g \<and>
    im_fd (iev_ibuf (p_iev p)) = int a \<and> EvEventAdd (int a) EV_READ \<in> set (trace w')"
proof -
  let ?o = "\<lparr>mo_debug = 0, mo_verbose = 0, mo_csockpath = s, mo_conffile = f\<rparr>"
  have "main_getopt ([], [''-s'', s, ''-f'', f]) default_opts w = Ok ?o w"
    by (simp add: main_getopt.simps getopt_def main_option_def default_opts_def)
  moreover obtain w1 where "parse_config K f (log_init 1 w) = Some (Ok (Some c) w1)"
    using parse_printed[OF assms(1) _ assms(3)] assms(4) by blast
  ultimately have cf: "main_config K [''-s'', s, ''-f'', f] w = Some (Ok (?o, c\<lparr>csock := s\<rparr>) w1)"
    by (simp add: main_config_def)
  have bm: "\<exists>v'. session_socket_blockmode K fd BM_NONBLOCK v = Ok () v'" for fd v
  proof -
    obtain n where "k_int K (EvFcntlGet fd # trace v) = Inr n" using assms(7) by blast
    moreover obtain m where "k_int K (EvFcntlSet fd (int n OR O_NONBLOCK) # EvFcntlGet fd # trace v) = Inr m"
      using assms(8) by blast
    ultimately show ?thesis by (simp add: session_socket_blockmode_def sys_int_def Let_def)
  qed
  obtain w2 where ck: "main_checks K w1 = Ok () w2" "main_daemon K 0 w2 = Ok () (emit EvDaemon w2)"
    using assms(2,5,10) by (simp add: main_checks_def main_daemon_def sys_int_def sys_ok_def getpwnam_def Let_def)
  let ?w3 = "emit EvSocketpair (emit EvDaemon w2)"
  obtain v where v: "session_socket_blockmode K (int a) BM_NONBLOCK ?w3 = Ok () v" using bm by blast
  obtain w4 where "session_socket_blockmode K (int b) BM_NONBLOCK v = Ok () w4" using bm by blast
  with v have pp: "main_pipe K (emit EvDaemon w2) = Ok (int a, int b) w4"
    using assms(9) by (simp add: main_pipe_def socketpair_def Let_def)
  have fk: "ifconfigde K s (int a, int b) w4 = Ok (Inl (int (Suc pid))) (emit EvFork w4)"
    using assms(6) by (simp add: ifconfigde_def sys_int_def Let_def)
  have lg: "x \<in> set (trace v) \<Longrightarrow> x \<in> set (trace (log_info K m [] v))" for x m v
  proof -
    have "only_logs v (log_info K m [] v)" by (rule log_functions_only_log)
    then show "x \<in> set (trace v) \<Longrightarrow> x \<in> set (trace (log_info K m [] v))" by (auto simp: only_logs_def)
  qed
  show ?thesis
    using cf ck pp fk assms(1)
    by (simp add: main_ifconfigd_def main_parent_def alloc_def Let_def imsg_init_def lg)
qed

theorem main_starts_configured_witness:
  "\<exists>p w'. main_ifconfigd root_kernel [''-s'', ''/tmp/s'', ''-f'', ''/etc/x''] sample_ifc sample_world = Some (Ok (Inl p) w') \<and>
    p_conf p = sample_file_conf\<lparr>csock := ''/tmp/s''\<rparr> \<and> p_pid p = int (Suc 7) \<and> p_ifc p = sample_ifc \<and>
    im_fd (iev_ibuf (p_iev p)) = int 4 \<and> EvEventAdd (int 4) EV_READ \<in> set (trace w')"
  by (rule main_starts_configured[where b = 5 and pw = "(''/var/empty'', 99, 99)"])
     (simp_all add: root_kernel_replies sample_file_conf_ok, simp_all add: root_kernel_def)

end
