(* ===== verification/Imsg_Wire.thy ===== *)
theory Imsg_Wire
  imports Imsg_Stream
begin

text \<open>
  What a process has put on the wire: the bytes the kernel accepted on a descriptor, read off the
  trace of the calls and the kernel's answers. Writing moves bytes from the queue to the wire and
  loses none, whatever part of them the kernel accepts at a time; flushing moves all of them.
\<close>

fun sent :: "kernel \<Rightarrow> int \<Rightarrow> event list \<Rightarrow> byte list" where
  "sent K fd [] = []"
| "sent K fd (e # t) =
     sent K fd t @ (case e of
        EvSendmsg f bs c \<Rightarrow>
          if f = fd then case k_send K (e # t) of Inr n \<Rightarrow> take n bs | Inl _ \<Rightarrow> [] else []
      | _ \<Rightarrow> [])"

lemma sent_close [simp]: "sent K fd (map EvClose fs @ t) = sent K fd t"
  by (induction fs) auto

lemma sent_sendmsg:
  assumes "sendmsg K fd bs c w = (r, w')"
  shows "sent K fd (trace w') = sent K fd (trace w) @ take (case r of None \<Rightarrow> 0 | Some n \<Rightarrow> n) bs"
  using assms by (auto simp: sendmsg_def Let_def min_def split: sum.splits if_splits)

lemma msgbuf_write_sent:
  assumes wf: "msgbuf_wf m" and wr: "msgbuf_write K m w = (r, m', w')"
  shows "sent K (mb_fd m) (trace w') @ pending m' = sent K (mb_fd m) (trace w) @ pending m"
proof -
  obtain v p where iov: "msgbuf_write_iov 0 (mb_bufs m) = (v, p)" by fastforce
  from msgbuf_write_iov_spec[OF iov] obtain k where
    v: "v = map ibuf_iov (take k (mb_bufs m))" and p: "\<And>j. p = Some j \<Longrightarrow> j < length (mb_bufs m)"
    by fastforce
  let ?bs = "concat v"
  define c where "c = (case p of None \<Rightarrow> None
    | Some k \<Rightarrow> if ib_fd (mb_bufs m ! k) \<noteq> - 1 then Some (ib_fd (mb_bufs m ! k)) else None)"
  have pre: "pending m = ?bs @ drop (length ?bs) (pending m)"
    using pending_split[of m k] v by simp
  obtain s w1 where sm: "sendmsg K (mb_fd m) ?bs c w = (s, w1)" by fastforce
  note st = sent_sendmsg[OF sm]
  show ?thesis
  proof (cases "s = None \<or> s = Some 0")
    case True
    then have "m' = m \<and> trace w' = trace w1"
      using wr sm by (auto simp: msgbuf_write_def iov Let_def c_def[symmetric] split: if_splits)
    with st True show ?thesis by auto
  next
    case False
    then obtain n where n: "s = Some n" "n > 0" by auto
    have nle: "n \<le> length ?bs" using sendmsg_bound sm n by blast
    obtain m1 w2 where m1: "(case (p, c) of (Some k, Some f) \<Rightarrow>
          (m\<lparr>mb_bufs := (mb_bufs m)[k := (mb_bufs m ! k)\<lparr>ib_fd := - 1\<rparr>]\<rparr>, close_fd f w1)
        | _ \<Rightarrow> (m, w1)) = (m1, w2)" by fastforce
    then have wf1: "msgbuf_wf m1" "pending m1 = pending m"
      and s2: "sent K (mb_fd m) (trace w2) = sent K (mb_fd m) (trace w1)"
      using wf p msgbuf_clear_fd[of m] by (auto split: option.splits)
    obtain m2 w3 where dr: "msgbuf_drain m1 n w2 = (m2, w3)" by fastforce
    have fin: "m' = m2" "w' = w3"
      using wr sm n m1 dr by (auto simp: msgbuf_write_def iov Let_def c_def[symmetric])
    from msgbuf_drain_fds[OF dr] obtain fs where "trace w3 = map EvClose fs @ trace w2"
      by (metis rev_map)
    then have "sent K (mb_fd m) (trace w') = sent K (mb_fd m) (trace w) @ take n ?bs"
      using st s2 n fin by simp
    moreover have "pending m' = drop n (pending m)"
      using msgbuf_drain_spec[OF wf1(1) dr] wf1 fin by simp
    moreover have "take n (pending m) = take n ?bs" using pre nle by (metis take_append append_Nil2 diff_is_0_eq take_eq_Nil)
    ultimately show ?thesis by (metis append_assoc append_take_drop_id)
  qed
qed

text \<open>
  Flushing ends when the kernel always accepts something, and then everything that was queued is
  on the wire.
\<close>

lemma imsg_flush_sent:
  assumes "imsgbuf_wf ib" "length (mb_bufs (im_w ib)) < 2 ^ 32" "\<And>t. \<exists>n>0. k_send K t = Inr n"
    and "mb_fd (im_w ib) = fd"
  shows "\<exists>ib' w'. imsg_flush K ib w = Some (0, ib', w') \<and> mb_bufs (im_w ib') = [] \<and>
     sent K fd (trace w') = sent K fd (trace w) @ pending (im_w ib)"
  using assms(1,2,4)
proof (induction "length (pending (im_w ib))" arbitrary: ib w rule: less_induct)
  case less
  show ?case
  proof (cases "mb_bufs (im_w ib) = []")
    case True
    with less.prems show ?thesis
      by (simp add: imsg_flush.simps[of K ib] imsgbuf_wf_def msgbuf_wf_def pending_def)
  next
    case False
    have q: "mb_queued (im_w ib) \<noteq> 0"
    proof
      assume "mb_queued (im_w ib) = 0"
      then have "unat (of_nat (length (mb_bufs (im_w ib))) :: u32) = 0"
        using less.prems(1) by (simp add: imsgbuf_wf_def msgbuf_wf_def)
      then show False
        using less.prems(2) False by (simp add: unat_of_nat take_bit_nat_eq_self)
    qed
    from msgbuf_write_progress[OF less.prems(1) False assms(3)] obtain m' w1 where
      wr: "msgbuf_write K (im_w ib) w = (0, m', w1)"
      and lt: "length (pending m') < length (pending (im_w ib))" by blast
    have mwf: "msgbuf_wf (im_w ib)" using less.prems(1) by (simp add: imsgbuf_wf_def)
    have wf1: "imsgbuf_wf (ib\<lparr>im_w := m'\<rparr>)" using imsg_write_wf[OF less.prems(1) wr] .
    have len: "length (mb_bufs m') < 2 ^ 32"
      using msgbuf_write_nonempty[OF _ wr] less.prems by (auto simp: imsgbuf_wf_def msgbuf_wf_def)
    have fd: "mb_fd m' = fd" using msgbuf_write_spec[OF mwf wr] less.prems(3) by auto
    have "imsg_flush K ib w = imsg_flush K (ib\<lparr>im_w := m'\<rparr>) w1"
      using q wr by (subst imsg_flush.simps) simp
    with less.hyps[of "ib\<lparr>im_w := m'\<rparr>" w1] lt wf1 len fd msgbuf_write_sent[OF mwf wr] less.prems(3)
    show ?thesis by auto
  qed
qed

end
