(* ===== verification/Ctl.thy ===== *)
theory Ctl
  imports Imsg_Wire Keywords Getopt Imsgev
begin

text \<open>
  The control program (\<open>ifconfigctl/ifconfigctl.c\<close>, \<open>ifconfigctl.h\<close>): its keyword table, its
  options and its one message to the daemon. The lemmas show that a keyword is found exactly when
  it is in the table, and which bytes the program puts on the control socket.
\<close>

section \<open>Keywords\<close>

datatype ctl_key = K_NULL | K_MONITOR | K_SHOW | K_USE_ETH | K_USE_NET | K_USE_WLAN

definition ctl_keywords :: "(string \<times> ctl_key) list" where
  "ctl_keywords =
     [(''monitor'', K_MONITOR), (''show'', K_SHOW), (''uselan'', K_USE_ETH), (''usenet'', K_USE_NET),
      (''usewlan'', K_USE_WLAN)]"

definition keycmp :: "string \<Rightarrow> string \<times> ctl_key \<Rightarrow> int" where
  "keycmp key kt = strcmp key (fst kt)"

definition keyword :: "string \<Rightarrow> ctl_key" where
  "keyword cp = (case bsearch (keycmp cp) ctl_keywords of None \<Rightarrow> K_NULL | Some kt \<Rightarrow> snd kt)"

section \<open>The program\<close>

definition ctl_usage :: "world \<Rightarrow> 'a outcome" where
  "ctl_usage w = Exit 1 (emit (EvStderr ''usage: ifconfigctl [-v] [-s socket] command [argument ...]\<newline>'') w)"

text \<open>The option loop: the path of the socket and the words that are left.\<close>

function ctl_getopt :: "getopt_state \<Rightarrow> string \<Rightarrow> world \<Rightarrow> (string \<times> string list) outcome" where
  "ctl_getopt st csockpath w =
     (case getopt ''s:v'' st of (r, st') \<Rightarrow>
        (case r of
           GEnd \<Rightarrow> Ok (csockpath, snd st') w
         | GOpt c a \<Rightarrow>
             if c = CHR ''s'' then ctl_getopt st' (the a) w
             else if c = CHR ''v'' then ctl_getopt st' csockpath w
             else ctl_usage w
         | _ \<Rightarrow> ctl_usage (getopt_error r w)))"
  by pat_completeness auto
termination
  by (relation "measure (\<lambda>(st, p, w). getopt_size st)") (auto dest!: getopt_decreases[OF sym])

declare ctl_getopt.simps [simp del]

text \<open>\<open>strncpy\<close> into the 64 bytes of \<open>name\<close>: padded with zeros, cut without a terminator.\<close>

definition name_buf :: "string \<Rightarrow> byte list" where
  "name_buf s = take MAX_NETWORK_NAME_SIZE (map (\<lambda>c. of_nat (ord c)) s @ replicate MAX_NETWORK_NAME_SIZE 0)"

text \<open>The first \<open>switch\<close>: the message type and the contents of \<open>name\<close>.\<close>

definition ctl_command :: "string list \<Rightarrow> world \<Rightarrow> (imsg_type \<times> byte list) outcome" where
  "ctl_command argv w =
     (case argv of
        [] \<Rightarrow> ctl_usage w
      | a # r \<Rightarrow>
          (case keyword a of
             K_MONITOR \<Rightarrow> Ok (IMSG_IFCONFIGD_MONITOR, []) w
           | K_SHOW \<Rightarrow> Ok (IMSG_SHOW_NETWORKS, []) w
           | K_USE_ETH \<Rightarrow>
               (case r of
                  [] \<Rightarrow> Undef ''strncpy'' w
                | n # _ \<Rightarrow> Ok (IMSG_USE_ETHERNET, name_buf n) w)
           | K_USE_NET \<Rightarrow> Ok (IMSG_USE_NETWORKS, []) w
           | K_USE_WLAN \<Rightarrow> Ok (IMSG_USE_WIRELESS, []) w
           | K_NULL \<Rightarrow> ctl_usage w))"

text \<open>The second \<open>switch\<close>: only two of the requests are composed at all.\<close>

definition ctl_compose :: "kernel \<Rightarrow> imsg_type \<Rightarrow> byte list \<Rightarrow> imsgbuf \<Rightarrow> world \<Rightarrow> imsgbuf \<times> world" where
  "ctl_compose K imsgflag name ib w =
     (let comp = (\<lambda>d. case imsg_compose K ib (of_nat (imsg_code imsgflag)) 0 0 (- 1) d w of (_, ib1, w1) \<Rightarrow> (ib1, w1)) in
      case imsgflag of
        IMSG_USE_ETHERNET \<Rightarrow> comp name
      | IMSG_IFCONFIGD_MONITOR \<Rightarrow> comp []
      | _ \<Rightarrow> (ib, w))"

text \<open>
  \<open>main\<close>: the loop that writes until the queue is empty is the one of \<open>imsg_flush\<close>; it may not
  end (\<open>None\<close>).
\<close>

definition ctl_main :: "kernel \<Rightarrow> string list \<Rightarrow> world \<Rightarrow> int outcome option" where
  "ctl_main K argv w =
     (case andthen (ctl_getopt ([], argv) ''/var/run/ifconfigd.sock'' w) (\<lambda>(csockpath, rest) w1.
        andthen (ctl_command rest w1) (\<lambda>(imsgflag, name) w2.
        case sys_int K EvSocket w2 of (ctl_sock, w3) \<Rightarrow>
        if ctl_sock = - 1 then err K ''socket'' [] w3
        else case sys_ok K (EvConnect ctl_sock (fst (strlcpy csockpath 104))) w3 of (ok, w4) \<Rightarrow>
        if \<not> ok then err K ''connect: %s'' [AS csockpath] w4
        else case ctl_compose K imsgflag name (imsg_init K ctl_sock) w4 of (ib, w5) \<Rightarrow> Ok (ctl_sock, ib) w5)) of
        Ok (ctl_sock, ib) w5 \<Rightarrow>
          map_option (\<lambda>(r, ib1, w6). if r = - 1 then err K ''write error'' [] w6 else Ok 0 (close_fd ctl_sock w6))
            (imsg_flush K ib w5)
      | Exit c w5 \<Rightarrow> Some (Exit c w5)
      | Undef u w5 \<Rightarrow> Some (Undef u w5))"

section \<open>Lemmas\<close>

interpretation ctl_tab: keyword_table ctl_keywords
  by unfold_locales (auto simp: ctl_keywords_def cstr_def less_char_def)

lemma keyword_table_lookup: "cstr s \<Longrightarrow> keyword s = (case map_of ctl_keywords s of None \<Rightarrow> K_NULL | Some k \<Rightarrow> k)"
  using ctl_tab.lookup_key[of s] by (auto simp: keyword_def keycmp_def[abs_def] split: option.splits)

lemma length_name_buf [simp]: "length (name_buf s) = 64"
  by (simp add: name_buf_def MAX_NETWORK_NAME_SIZE_def)

text \<open>A kernel with memory, that connects the socket \<open>fd\<close> and always accepts something.\<close>

definition ctl_kernel_ok :: "kernel \<Rightarrow> nat \<Rightarrow> bool" where
  "ctl_kernel_ok K fd \<longleftrightarrow> k_mem K = (\<lambda>_. True) \<and> (\<forall>t. \<exists>n>0. k_send K t = Inr n) \<and>
     (\<forall>t. k_int K (EvSocket # t) = Inr fd) \<and> (\<forall>t. k_ok K t = None)"

text \<open>The message a request is sent as, if it is sent at all.\<close>

definition ctl_message :: "kernel \<Rightarrow> int \<Rightarrow> imsg_type \<Rightarrow> byte list \<Rightarrow> byte list" where
  "ctl_message K fd flag name =
     (case flag of
        IMSG_USE_ETHERNET \<Rightarrow> enc_msg (the_hdr (imsg_init K fd) 1 0 0 (- 1) (length name), name)
      | IMSG_IFCONFIGD_MONITOR \<Rightarrow> enc_msg (the_hdr (imsg_init K fd) 7 0 0 (- 1) 0, [])
      | _ \<Rightarrow> [])"

lemma sent_compose:
  assumes "imsg_compose K ib ty pe pid fd d w = (r, ib', w')"
  shows "sent K x (trace w') = sent K x (trace w)"
proof -
  have al: "sent K x (trace w2) = sent K x (trace w1)" if "alloc K n w1 = (b, w2)" for n w1 b w2
    using alloc_trace(1)[of K n w1] that by simp
  have ma: "sent K x (trace w2) = sent K x (trace w1)" if "malloc K n w1 = (b, w2)" for n w1 b w2
    using malloc_trace(1)[of K n w1] that by simp
  have re: "sent K x (trace w2) = sent K x (trace w1)" if "ibuf_realloc K b n w1 = (r, b', w2)" for b n w1 r b' w2
    using that by (auto simp: ibuf_realloc_def Let_def dest: ma split: if_splits prod.splits option.splits)
  have ad: "sent K x (trace w2) = sent K x (trace w1)" if "imsg_add K b dd w1 = (r, b', w2)" for b dd w1 r b' w2
    using that by (auto simp: imsg_add_def ibuf_add_def Let_def dest: re split: if_splits prod.splits)
  have dy: "sent K x (trace w2) = sent K x (trace w1)" if "ibuf_dynamic K n mx w1 = (b, w2)" for n mx w1 b w2
    using that by (auto simp: ibuf_dynamic_def ibuf_open_def Let_def dest!: al ma split: if_splits prod.splits option.splits bool.splits)
  show ?thesis
    using assms
    by (auto simp: imsg_compose_def imsg_create_def Let_def dest!: ad dy split: if_splits prod.splits option.splits)
qed

lemma ctl_compose_spec:
  assumes mem: "k_mem K = (\<lambda>_. True)" and len: "length name \<le> 64"
    and c: "ctl_compose K flag name (imsg_init K fd) w = (ib, w')"
  shows "imsgbuf_wf ib \<and> length (mb_bufs (im_w ib)) \<le> 1 \<and> mb_fd (im_w ib) = fd \<and>
     pending (im_w ib) = ctl_message K fd flag name \<and> sent K x (trace w') = sent K x (trace w)"
proof -
  let ?ib = "imsg_init K fd"
  have init: "imsgbuf_wf ?ib" "mb_bufs (im_w ?ib) = []" "mb_fd (im_w ?ib) = fd" "pending (im_w ?ib) = []"
    using imsg_init_wf by (auto simp: imsg_init_def msgbuf_init_def pending_def)
  have comp: "imsgbuf_wf ib1 \<and> length (mb_bufs (im_w ib1)) \<le> 1 \<and> mb_fd (im_w ib1) = fd \<and>
      pending (im_w ib1) = enc_msg (the_hdr ?ib ty 0 0 (- 1) (length d), d) \<and> sent K x (trace w1) = sent K x (trace w)"
    if "imsg_compose K ?ib ty 0 0 (- 1) d w = (r, ib1, w1)" "length d \<le> 64" for ty d r ib1 w1
  proof -
    have l: "length d < 2 ^ 16" "IMSG_HEADER_SIZE + length d \<le> MAX_IMSGSIZE" using that(2) by (simp_all add: imsg_consts)
    have "r = 1" using imsg_compose_succeeds[OF mem l(2)] that(1) by (metis fst_conv)
    with imsg_compose_spec[OF l(1) that(1)] obtain b where
      "ib1 = ?ib\<lparr>im_w := ibuf_enqueue (im_w ?ib) b\<rparr>"
      "ibuf_iov b = enc_hdr (the_hdr ?ib ty 0 0 (- 1) (length d)) @ d" by auto
    with imsg_compose_wf[OF init(1) l(1) that(1)] sent_compose[OF that(1)] init show ?thesis
      by (auto simp: pending_ibuf_enqueue enc_msg_def ibuf_enqueue_def[of "im_w ?ib"])
         (auto simp: ibuf_enqueue_def pending_def)
  qed
  show ?thesis
    using c comp[of 1 name] comp[of 7 "[]"] len init
    by (cases flag) (auto simp: ctl_compose_def ctl_message_def Let_def split: prod.splits)
qed

lemma ctl_main_sends:
  assumes K: "ctl_kernel_ok K fd" and opt: "ctl_getopt ([], argv) ''/var/run/ifconfigd.sock'' w = Ok (path, rest) w"
    and cmd: "ctl_command rest w = Ok (flag, name) w" "length name \<le> 64"
  shows "\<exists>w'. ctl_main K argv w = Some (Ok 0 w') \<and>
     sent K (int fd) (trace w') = sent K (int fd) (trace w) @ ctl_message K (int fd) flag name"
proof -
  have mem: "k_mem K = (\<lambda>_. True)" and send: "\<And>t. \<exists>n>0. k_send K t = Inr n"
    and so: "sys_int K EvSocket w = (int fd, emit EvSocket w)"
    using K by (auto simp: ctl_kernel_ok_def sys_int_def Let_def)
  let ?w4 = "emit (EvConnect (int fd) (fst (strlcpy path 104))) (emit EvSocket w)"
  have co: "sys_ok K (EvConnect (int fd) (fst (strlcpy path 104))) (emit EvSocket w) = (True, ?w4)"
    using K by (simp add: ctl_kernel_ok_def sys_ok_def Let_def)
  obtain ib w5 where cc: "ctl_compose K flag name (imsg_init K (int fd)) ?w4 = (ib, w5)" by fastforce
  note sp = ctl_compose_spec[OF mem cmd(2) cc, of "int fd"]
  obtain ib' w6 where fl: "imsg_flush K ib w5 = Some (0, ib', w6)"
    "sent K (int fd) (trace w6) = sent K (int fd) (trace w5) @ pending (im_w ib)"
    using imsg_flush_sent[of ib K "int fd" w5] sp send by fastforce
  have "ctl_main K argv w = Some (Ok 0 (close_fd (int fd) w6))"
    using opt cmd(1) so co cc fl(1) by (simp add: ctl_main_def)
  with sp fl(2) show ?thesis by simp
qed

lemma ctl_getopt_none: "take 1 a \<noteq> ''-'' \<Longrightarrow> ctl_getopt ([], a # r) p w = Ok (p, a # r) w"
  by (simp add: ctl_getopt.simps getopt_def)

section \<open>Properties\<close>

text \<open>
  (C22) The binary search of \<open>keyword\<close> finds a word exactly when the table has it, and returns the
  value the table gives it; for every other word the result is \<open>K_NULL\<close>.
\<close>

theorem keyword_correct:
  assumes "cstr s"
  shows "keyword s = (case map_of ctl_keywords s of None \<Rightarrow> K_NULL | Some k \<Rightarrow> k)"
  using keyword_table_lookup[OF assms] .

theorem keyword_correct_witness:
  "keyword ''usenet'' = (case map_of ctl_keywords ''usenet'' of None \<Rightarrow> K_NULL | Some k \<Rightarrow> k)"
  by (rule keyword_correct) (simp add: cstr_def)

text \<open>
  (C23) \<open>ifconfigctl uselan N\<close> and \<open>ifconfigctl monitor\<close>, when the socket can be connected: the
  program ends with status 0, however few bytes the kernel accepts at a time, and has put exactly
  one message on the socket: the name in 64 bytes, or an empty request.
\<close>

theorem ctl_sends_request:
  assumes "ctl_kernel_ok K fd"
  shows "(\<exists>w'. ctl_main K [''uselan'', n] w = Some (Ok 0 w') \<and>
       sent K (int fd) (trace w') = sent K (int fd) (trace w) @
         enc_msg (the_hdr (imsg_init K (int fd)) 1 0 0 (- 1) 64, name_buf n)) \<and>
     (\<exists>w'. ctl_main K [''monitor''] w = Some (Ok 0 w') \<and>
       sent K (int fd) (trace w') = sent K (int fd) (trace w) @
         enc_msg (the_hdr (imsg_init K (int fd)) 7 0 0 (- 1) 0, []))"
proof -
  have k: "keyword ''uselan'' = K_USE_ETH" "keyword ''monitor'' = K_MONITOR"
    by (simp_all add: keyword_table_lookup cstr_def ctl_keywords_def)
  show ?thesis
    using ctl_main_sends[OF assms ctl_getopt_none, of "''uselan''" "[n]" w IMSG_USE_ETHERNET "name_buf n"]
      ctl_main_sends[OF assms ctl_getopt_none, of "''monitor''" "[]" w IMSG_IFCONFIGD_MONITOR "[]"] k
    by (simp add: ctl_command_def ctl_message_def)
qed

theorem ctl_sends_request_witness:
  "(\<exists>w'. ctl_main (sample_kernel\<lparr>k_send := (\<lambda>_. Inr 5)\<rparr>) [''uselan'', ''home''] sample_world = Some (Ok 0 w') \<and>
       sent (sample_kernel\<lparr>k_send := (\<lambda>_. Inr 5)\<rparr>) (int 3) (trace w') =
         sent (sample_kernel\<lparr>k_send := (\<lambda>_. Inr 5)\<rparr>) (int 3) (trace sample_world) @
         enc_msg (the_hdr (imsg_init (sample_kernel\<lparr>k_send := (\<lambda>_. Inr 5)\<rparr>) (int 3)) 1 0 0 (- 1) 64, name_buf ''home'')) \<and>
     (\<exists>w'. ctl_main (sample_kernel\<lparr>k_send := (\<lambda>_. Inr 5)\<rparr>) [''monitor''] sample_world = Some (Ok 0 w') \<and>
       sent (sample_kernel\<lparr>k_send := (\<lambda>_. Inr 5)\<rparr>) (int 3) (trace w') =
         sent (sample_kernel\<lparr>k_send := (\<lambda>_. Inr 5)\<rparr>) (int 3) (trace sample_world) @
         enc_msg (the_hdr (imsg_init (sample_kernel\<lparr>k_send := (\<lambda>_. Inr 5)\<rparr>) (int 3)) 7 0 0 (- 1) 0, []))"
  by (rule ctl_sends_request) (simp add: ctl_kernel_ok_def sample_kernel_def)

text \<open>
  The commands \<open>show\<close>, \<open>usenet\<close> and \<open>usewlan\<close> are accepted but ask nothing of the daemon: the
  program connects, sends no byte, and ends with status 0.
\<close>

theorem ctl_silent_commands:
  assumes "ctl_kernel_ok K fd" "c = ''show'' \<or> c = ''usenet'' \<or> c = ''usewlan''"
  shows "\<exists>w'. ctl_main K (c # r) w = Some (Ok 0 w') \<and> sent K (int fd) (trace w') = sent K (int fd) (trace w)"
proof -
  obtain flag where cmd: "ctl_command (c # r) w = Ok (flag, []) w" "ctl_message K (int fd) flag [] = []"
    using assms(2) keyword_table_lookup[of c]
    by (auto simp: ctl_command_def ctl_message_def cstr_def ctl_keywords_def)
  have "take 1 c \<noteq> ''-''" using assms(2) by auto
  from ctl_main_sends[OF assms(1) ctl_getopt_none[OF this] cmd(1)] cmd(2) show ?thesis by simp
qed

theorem ctl_silent_commands_witness:
  "\<exists>w'. ctl_main (sample_kernel\<lparr>k_send := (\<lambda>_. Inr 5)\<rparr>) [''usewlan'', ''home''] sample_world = Some (Ok 0 w') \<and>
     sent (sample_kernel\<lparr>k_send := (\<lambda>_. Inr 5)\<rparr>) (int 3) (trace w') =
     sent (sample_kernel\<lparr>k_send := (\<lambda>_. Inr 5)\<rparr>) (int 3) (trace sample_world)"
  by (rule ctl_silent_commands) (simp_all add: ctl_kernel_ok_def sample_kernel_def)

end
