(* ===== verification/Sha1_Correct.thy ===== *)
theory Sha1_Correct
  imports Sha1
begin

text \<open>
  The reference definition of SHA-1 on whole messages (FIPS 180-1) and the proof that
  \<open>lib/libc/hash/sha1.c\<close> implements it: the ring of sixteen words holds the words of the message
  schedule, and a context stands for the message it was given so far.
\<close>

section \<open>The standard\<close>

definition enc_be32 :: "u32 \<Rightarrow> byte list" where
  "enc_be32 w = [ucast (drop_bit 24 w), ucast (drop_bit 16 w), ucast (drop_bit 8 w), ucast w]"

definition enc_be64 :: "64 word \<Rightarrow> byte list" where
  "enc_be64 w = map (\<lambda>i. ucast (drop_bit (8 * (7 - i)) w)) [0..<8]"

fun dec_be32 :: "byte list \<Rightarrow> u32" where
  "dec_be32 (a # b # c # d # _) =
     push_bit 24 (ucast a) OR push_bit 16 (ucast b) OR push_bit 8 (ucast c) OR ucast d"
| "dec_be32 _ = 0"

text \<open>The message schedule, the functions and constants of the rounds.\<close>

fun sched :: "byte list \<Rightarrow> nat \<Rightarrow> u32" where
  "sched m t =
     (if t < 16 then dec_be32 (drop (4 * t) m)
      else word_rotl 1 (sched m (t - 3) XOR sched m (t - 8) XOR sched m (t - 14) XOR sched m (t - 16)))"

declare sched.simps [simp del]

definition sha_f :: "nat \<Rightarrow> u32 \<Rightarrow> u32 \<Rightarrow> u32 \<Rightarrow> u32" where
  "sha_f t b c d =
     (if t < 20 then (b AND c) OR (NOT b AND d)
      else if t < 40 then b XOR c XOR d
      else if t < 60 then (b AND c) OR (b AND d) OR (c AND d)
      else b XOR c XOR d)"

definition sha_K :: "nat \<Rightarrow> u32" where
  "sha_K t = (if t < 20 then 0x5A827999 else if t < 40 then 0x6ED9EBA1 else if t < 60 then 0x8F1BBCDC else 0xCA62C1D6)"

definition sha_round :: "byte list \<Rightarrow> nat \<Rightarrow> regs \<Rightarrow> regs" where
  "sha_round m t r = (case r of (a, b, c, d, e) \<Rightarrow>
     (word_rotl 5 a + sha_f t b c d + e + sched m t + sha_K t, a, word_rotl 30 b, c, d))"

definition compress :: "u32 list \<Rightarrow> byte list \<Rightarrow> u32 list" where
  "compress h m = (case fold (sha_round m) [0..<80] (h ! 0, h ! 1, h ! 2, h ! 3, h ! 4) of (a, b, c, d, e) \<Rightarrow>
     [h ! 0 + a, h ! 1 + b, h ! 2 + c, h ! 3 + d, h ! 4 + e])"

text \<open>The whole blocks of a message, the padding, and the digest.\<close>

function hash_blocks :: "u32 list \<Rightarrow> byte list \<Rightarrow> u32 list" where
  "hash_blocks h m = (if length m < 64 then h else hash_blocks (compress h (take 64 m)) (drop 64 m))"
  by pat_completeness auto
termination
  by (relation "measure (\<lambda>(h, m). length m)") auto

declare hash_blocks.simps [simp del]

definition padding :: "byte list \<Rightarrow> byte list" where
  "padding m = 0x80 # replicate ((119 - length m mod 64) mod 64) 0 @ enc_be64 (of_nat (8 * length m))"

definition sha_H0 :: "u32 list" where
  "sha_H0 = [0x67452301, 0xEFCDAB89, 0x98BADCFE, 0x10325476, 0xC3D2E1F0]"

definition sha1 :: "byte list \<Rightarrow> byte list" where
  "sha1 m = concat (map enc_be32 (hash_blocks sha_H0 (m @ padding m)))"

section \<open>Words\<close>

lemma rol_rotl:
  assumes "0 < n" "n < 32"
  shows "rol v n = word_rotl n v"
proof (rule bit_word_eqI)
  fix i
  assume i: "i < LENGTH(32)"
  show "bit (rol v n) i = bit (word_rotl n v) i"
  proof (cases "n \<le> i")
    case True
    then have "(i + (32 - n)) mod 32 = i - n" using i assms by (simp add: mod_if)
    with True i assms show ?thesis using bit_imp_le_length[of v "32 + i - n"] by (auto simp: rol_def bit_word_rotl_iff bit_simps)
  next
    case False
    then have "(i + (32 - n)) mod 32 = 32 + i - n" using i assms by simp
    with False i assms show ?thesis by (simp add: rol_def bit_word_rotl_iff bit_simps)
  qed
qed

lemma swap_word: "length c \<ge> 4 \<Longrightarrow> (rol (un_le32 c) 24 AND 0xFF00FF00) OR (rol (un_le32 c) 8 AND 0x00FF00FF) = dec_be32 c"
proof -
  assume "length c \<ge> 4"
  then obtain c0 c1 c2 c3 r where c: "c = c0 # c1 # c2 # c3 # r" by (auto simp: numeral_eq_Suc Suc_le_length_iff)
  have m: "(0xFF00FF00 :: u32) = push_bit 8 (mask 8) OR push_bit 24 (mask 8)"
    "(0x00FF00FF :: u32) = mask 8 OR push_bit 16 (mask 8)" by (simp_all add: mask_eq_exp_minus_1)
  show ?thesis unfolding m
  proof (rule bit_word_eqI)
    fix n
    assume "n < LENGTH(32)"
    then consider "n < 8" | "8 \<le> n" "n < 16" | "16 \<le> n" "n < 24" | "24 \<le> n" "n < 32" by fastforce
    then show "bit ((rol (un_le32 c) 24 AND (push_bit 8 (mask 8) OR push_bit 24 (mask 8))) OR
        (rol (un_le32 c) 8 AND (mask 8 OR push_bit 16 (mask 8)))) n = bit (dec_be32 c) n"
      by cases (auto simp: c rol_def bit_simps dest: bit_imp_le_length)
  qed
qed

lemma choose: "((b AND (c XOR d)) XOR d) = (b AND c) OR (NOT b AND (d :: u32))"
  by (rule bit_word_eqI) (auto simp: bit_simps)

lemma majority: "((b OR c) AND d) OR (b AND c) = (b AND c) OR (b AND d) OR (c AND (d :: u32))"
  by (rule bit_word_eqI) (auto simp: bit_simps)

section \<open>The compression function\<close>

text \<open>The rounds of the code by their number.\<close>

definition rnd :: "nat \<Rightarrow> regs \<times> u32 list \<Rightarrow> regs \<times> u32 list" where
  "rnd i = (if i < 16 then R0 i else if i < 20 then R1 i else if i < 40 then R2 i else if i < 60 then R3 i else R4 i)"

lemma rounds_rnd:
  "fold R4 [60..<80] (fold R3 [40..<60] (fold R2 [20..<40] (fold R1 [16..<20] (fold R0 [0..<16] s)))) = fold rnd [0..<80] s"
proof -
  have u: "[0..<80] = [0..<16] @ [16..<20] @ [20..<40] @ [40..<60] @ [60..<80]"
    by (simp add: upt_rec)
  have "fold R0 [0..<16] s = fold rnd [0..<16] s" "fold R1 [16..<20] s = fold rnd [16..<20] s"
    "fold R2 [20..<40] s = fold rnd [20..<40] s" "fold R3 [40..<60] s = fold rnd [40..<60] s"
    "fold R4 [60..<80] s = fold rnd [60..<80] s" for s
    by (rule fold_cong; auto simp: rnd_def)+
  then show ?thesis unfolding u by simp
qed

text \<open>
  Before round \<open>n\<close> the ring holds the last words of the schedule and, as long as they are needed, the
  words of the block that have not been turned yet.
\<close>

definition ring :: "byte list \<Rightarrow> nat \<Rightarrow> u32 list \<Rightarrow> bool" where
  "ring m n l \<longleftrightarrow> length l = 16 \<and> (\<forall>t. t < n \<and> n \<le> t + 16 \<longrightarrow> l ! (t mod 16) = sched m t) \<and>
     (\<forall>t. n \<le> t \<and> t < 16 \<longrightarrow> l ! t = un_le32 (drop (4 * t) m))"

lemma ring_blk0:
  assumes "ring m n l" "n < 16" "length m = 64" "blk0 n l = (x, l')"
  shows "x = sched m n" "ring m (Suc n) l'"
proof -
  have "l ! n = un_le32 (drop (4 * n) m)" using assms(1,2) by (simp add: ring_def)
  moreover have "length (drop (4 * n) m) \<ge> 4" using assms(2,3) by simp
  ultimately show x: "x = sched m n"
    using assms(2,4) swap_word[of "drop (4 * n) m"] by (simp add: blk0_def Let_def sched.simps[of m n])
  have "l' = l[n := x]" using assms(4) by (auto simp: blk0_def Let_def)
  with x assms(1,2) show "ring m (Suc n) l'"
    by (auto simp: ring_def nth_list_update less_Suc_eq)
qed

lemma ring_blk:
  assumes "ring m n l" "16 \<le> n" "blk n l = (x, l')"
  shows "x = sched m n" "ring m (Suc n) l'"
proof -
  have r: "l ! (t mod 16) = sched m t" if "t < n" "n \<le> t + 16" for t using assms(1) that by (simp add: ring_def)
  obtain k where k: "n = k + 16" using assms(2) by (metis add.commute le_Suc_ex)
  have i: "(n + 13) mod 16 = (n - 3) mod 16" "(n + 8) mod 16 = (n - 8) mod 16" "(n + 2) mod 16 = (n - 14) mod 16"
    "n mod 16 = (n - 16) mod 16"
    unfolding k using mod_add_self2[of "k + 13" 16] mod_add_self2[of "k + 8" 16] mod_add_self2[of "k + 2" 16] by (simp_all add: add.commute)
  show x: "x = sched m n"
    using assms(2,3) unfolding blk_def Let_def i by (auto simp: r rol_rotl sched.simps[of m n])
  have "l' = l[n mod 16 := x]" using assms(3) by (auto simp: blk_def Let_def)
  moreover have "t mod 16 \<noteq> n mod 16" if "t < n" "n \<le> 15 + t" for t
  proof
    assume "t mod 16 = n mod 16"
    then have "16 dvd n - t" using that by (subst mod_eq_dvd_iff_nat[symmetric]) simp_all
    with that show False by (auto dest!: dvd_imp_le)
  qed
  ultimately show "ring m (Suc n) l'"
    using x assms(1,2) by (force simp: ring_def nth_list_update less_Suc_eq)
qed

lemma rnd_round:
  assumes "ring m n l" "n < 80" "length m = 64" "rnd n (r, l) = (r', l')"
  shows "r' = sha_round m n r \<and> ring m (Suc n) l'"
proof -
  obtain a b c d e where r: "r = (a, b, c, d, e)" by (cases r)
  note defs = R0_def R1_def R2_def R3_def R4_def
  show ?thesis
  proof (cases "n < 16")
    case True
    obtain x l1 where x: "blk0 n l = (x, l1)" by fastforce
    from ring_blk0[OF assms(1) True assms(3) x] True assms(4) r x show ?thesis
      by (simp add: rnd_def defs sha_round_def sha_f_def sha_K_def choose rol_rotl add_ac)
  next
    case False
    obtain x l1 where x: "blk n l = (x, l1)" by fastforce
    from False have "16 \<le> n" by simp
    from ring_blk[OF assms(1) this x] False assms(2,4) r x show ?thesis
      by (auto simp: rnd_def defs sha_round_def sha_f_def sha_K_def choose majority rol_rotl add_ac split: if_splits)
  qed
qed

lemma rounds_correct:
  assumes "length m = 64" "n \<le> 80"
  shows "\<exists>l. fold rnd [0..<n] (r, CHAR64LONG16 m) = (fold (sha_round m) [0..<n] r, l) \<and> ring m n l"
  using assms(2)
proof (induction n)
  case 0
  then show ?case by (simp add: ring_def CHAR64LONG16_def)
next
  case (Suc n)
  then obtain l where l: "fold rnd [0..<n] (r, CHAR64LONG16 m) = (fold (sha_round m) [0..<n] r, l)" "ring m n l" by auto
  obtain r' l' where s: "rnd n (fold (sha_round m) [0..<n] r, l) = (r', l')" by fastforce
  from rnd_round[OF l(2) _ assms(1) s] Suc(2) l(1) s show ?case by simp
qed

lemma SHA1Transform_compress: "length m = 64 \<Longrightarrow> SHA1Transform h m = compress h m"
proof -
  assume "length m = 64"
  from rounds_correct[OF this, of 80 "(h ! 0, h ! 1, h ! 2, h ! 3, h ! 4)"] obtain l where
    l: "fold rnd [0..<80] ((h ! 0, h ! 1, h ! 2, h ! 3, h ! 4), CHAR64LONG16 m) =
      (fold (sha_round m) [0..<80] (h ! 0, h ! 1, h ! 2, h ! 3, h ! 4), l)" by auto
  show ?thesis
    unfolding SHA1Transform_def Let_def rounds_rnd l compress_def
    by (rule case_prod_beta[THEN trans], simp only: prod.sel)
qed

section \<open>Contexts\<close>

lemma hash_blocks_append:
  "length a mod 64 = 0 \<Longrightarrow> hash_blocks h (a @ b) = hash_blocks (hash_blocks h a) b"
proof (induction h a rule: hash_blocks.induct)
  case (1 h m)
  show ?case
  proof (cases "length m < 64")
    case True
    with 1(2) have "m = []" by simp
    then show ?thesis by (simp add: hash_blocks.simps[of h "[]"])
  next
    case False
    then have "length (drop 64 m) mod 64 = 0" using 1(2) by (simp add: le_mod_geq[symmetric])
    with 1(1)[OF False] False show ?thesis
      by (simp add: hash_blocks.simps[of h m] hash_blocks.simps[of h "m @ b"])
  qed
qed

lemma hash_blocks_short: "length m < 64 \<Longrightarrow> hash_blocks h m = h"
  by (simp add: hash_blocks.simps[of h m])

lemma hash_blocks_one: "length m = 64 \<Longrightarrow> hash_blocks h m = compress h m"
  by (simp add: hash_blocks.simps[of h m] hash_blocks_short)

text \<open>The bytes of a message after its last whole block.\<close>

definition sha_rest :: "byte list \<Rightarrow> byte list" where
  "sha_rest m = drop (64 * (length m div 64)) m"

definition sha_whole :: "byte list \<Rightarrow> byte list" where
  "sha_whole m = take (64 * (length m div 64)) m"

lemma whole_rest: "sha_whole m @ sha_rest m = m" "length (sha_whole m) mod 64 = 0" "length (sha_rest m) = length m mod 64"
proof -
  show "sha_whole m @ sha_rest m = m" by (simp add: sha_whole_def sha_rest_def)
  have "64 * (length m div 64) \<le> length m" by simp
  then show "length (sha_whole m) mod 64 = 0" by (simp add: sha_whole_def min_absorb2)
  show "length (sha_rest m) = length m mod 64" by (simp add: sha_rest_def minus_mult_div_eq_mod)
qed

lemma rest_append: "length a mod 64 = 0 \<Longrightarrow> sha_rest (a @ b) = sha_rest b"
proof -
  assume "length a mod 64 = 0"
  then obtain k where k: "length a = 64 * k" by auto
  show ?thesis by (simp add: sha_rest_def k)
qed

lemma hash_blocks_whole: "hash_blocks h m = hash_blocks h (sha_whole m)"
  using hash_blocks_append[of "sha_whole m" h "sha_rest m"] whole_rest[of m] by (simp add: hash_blocks_short)

text \<open>A context stands for the bytes it was given.\<close>

definition absorbed :: "byte list \<Rightarrow> SHA1_CTX \<Rightarrow> bool" where
  "absorbed m ctx \<longleftrightarrow> sh_count ctx = of_nat (8 * length m) \<and> length (sh_buffer ctx) = 64 \<and>
     take (length m mod 64) (sh_buffer ctx) = sha_rest m \<and> sh_state ctx = hash_blocks sha_H0 m"

lemma absorbed_init: "length (sh_buffer ctx) = 64 \<Longrightarrow> absorbed [] (SHA1Init ctx)"
  by (simp add: absorbed_def SHA1Init_def sha_rest_def hash_blocks_short sha_H0_def)

lemma sha1_blocks_hash:
  "sha1_blocks h d i = (h', i') \<Longrightarrow> i \<le> length d \<Longrightarrow> h' = hash_blocks h (drop i d) \<and> drop i' d = sha_rest (drop i d)"
proof (induction h d i rule: sha1_blocks.induct)
  case (1 h d i)
  show ?case
  proof (cases "i + 63 < length d")
    case True
    with 1(2) have e: "sha1_blocks (SHA1Transform h (take 64 (drop i d))) d (i + 64) = (h', i')"
      by (simp add: sha1_blocks.simps[of h])
    have l: "length (take 64 (drop i d)) = 64" using True by simp
    have s: "drop i d = take 64 (drop i d) @ drop (i + 64) d" by (metis add.commute append_take_drop_id drop_drop)
    from 1(1)[OF True e] True show ?thesis
      using hash_blocks_append[of "take 64 (drop i d)" h "drop (i + 64) d"] rest_append[of "take 64 (drop i d)" "drop (i + 64) d"] l
      by (simp add: SHA1Transform_compress hash_blocks_one flip: s)
  next
    case False
    with 1(2,3) show ?thesis by (auto simp: sha1_blocks.simps[of h] hash_blocks_short sha_rest_def)
  qed
qed

lemma count_of_nat: "unat (drop_bit 3 (of_nat (8 * n) :: 64 word) AND 63) = n mod 64"
  using sha1_pos_add[of 0 n] by (simp add: push_bit_eq_mult mult.commute)

lemma absorbed_update:
  assumes "absorbed m ctx"
  shows "absorbed (m @ d) (SHA1Update d ctx)"
proof -
  let ?j = "length m mod 64"
  have a: "sh_count ctx = of_nat (8 * length m)" "length (sh_buffer ctx) = 64" "take ?j (sh_buffer ctx) = sha_rest m"
    "sh_state ctx = hash_blocks sha_H0 m" using assms by (simp_all add: absorbed_def)
  have j: "unat (drop_bit 3 (sh_count ctx) AND 63) = ?j" unfolding a(1) by (rule count_of_nat)
  have c: "sh_count ctx + push_bit 3 (of_nat (length d)) = of_nat (8 * length (m @ d))"
    by (simp add: a(1) push_bit_eq_mult algebra_simps)
  have lr: "length (sha_rest m) = ?j" by (rule whole_rest)
  show ?thesis
  proof (cases "?j + length d > 63")
    case True
    let ?i = "64 - ?j"
    let ?b = "memput (sh_buffer ctx) ?j (take ?i d)"
    have b: "?b = sha_rest m @ take ?i d" using True a(2,3) by (simp add: memput_def)
    have lb: "length ?b = 64" using True lr by (simp add: b)
    obtain h i where h: "sha1_blocks (SHA1Transform (sh_state ctx) ?b) d ?i = (h, i)" by fastforce
    have i: "?i \<le> length d" using True by simp
    note hb = sha1_blocks_hash[OF h i]
    have md: "m @ d = (sha_whole m @ ?b) @ drop ?i d" by (simp add: b) (metis append.assoc whole_rest(1))
    have wl: "length (sha_whole m @ ?b) mod 64 = 0" using whole_rest(2)[of m] lb by simp
    have st: "h = hash_blocks sha_H0 (m @ d)"
      unfolding md hash_blocks_append[OF wl] hash_blocks_append[OF whole_rest(2)]
      using hb a(4) lb hash_blocks_whole[of sha_H0 m] by (simp add: hash_blocks_one SHA1Transform_compress)
    have r: "drop i d = sha_rest (m @ d)" unfolding md rest_append[OF wl] using hb by simp
    have lrd: "length (sha_rest (m @ d)) = length (m @ d) mod 64" by (rule whole_rest)
    have len: "length (drop i d) < 64" unfolding r lrd by simp
    have tk: "take (length (drop i d)) (memput ?b 0 (drop i d)) = drop i d"
      using take_memput[of 0 ?b "drop i d"] by simp
    have fin: "take (length (m @ d) mod 64) (memput ?b 0 (drop i d)) = sha_rest (m @ d)"
      using tk unfolding r lrd .
    have "length (memput ?b 0 (drop i d)) = 64"
      by (rule length_memput[of 0 "drop i d" ?b, unfolded lb]) (use len in linarith)
    note fin this
    with True j c st h show ?thesis unfolding absorbed_def SHA1Update_def Let_def by simp
  next
    case False
    have "sha_rest (m @ d) = sha_rest m @ d"
    proof -
      have "sha_rest (m @ d) = sha_rest (sha_whole m @ (sha_rest m @ d))" by (metis append.assoc whole_rest(1))
      also have "\<dots> = sha_rest m @ d" using False lr by (simp add: rest_append[OF whole_rest(2)]) (simp add: sha_rest_def)
      finally show ?thesis .
    qed
    moreover have "hash_blocks sha_H0 (m @ d) = hash_blocks sha_H0 m"
    proof -
      have "hash_blocks sha_H0 (m @ d) = hash_blocks sha_H0 (sha_whole m @ (sha_rest m @ d))" by (metis append.assoc whole_rest(1))
      also have "\<dots> = hash_blocks sha_H0 (sha_whole m)" using False lr by (simp add: hash_blocks_append[OF whole_rest(2)] hash_blocks_short)
      finally show ?thesis by (simp flip: hash_blocks_whole)
    qed
    moreover have "length (m @ d) mod 64 = ?j + length d" using False by (simp add: mod_add_left_eq[symmetric, of "length m"])
    ultimately show ?thesis
      using False j c a by (simp add: absorbed_def SHA1Update_def Let_def take_memput length_memput)
  qed
qed

section \<open>Digests\<close>

lemma pad_arith: "(n :: nat) < 64 \<Longrightarrow> (120 - n) mod 64 = (if n \<le> 56 then 56 - n else 120 - n)"
proof (cases "n \<le> 56")
  case True
  then have e: "120 - n = (56 - n) + 64" by simp
  show ?thesis unfolding e mod_add_self2 using True by simp
qed simp

lemma absorbed_pad_loop:
  "absorbed m ctx \<Longrightarrow> absorbed (m @ replicate ((120 - length m mod 64) mod 64) 0) (sha1_pad_loop ctx)"
proof (induction ctx arbitrary: m rule: sha1_pad_loop.induct)
  case (1 ctx)
  let ?j = "length m mod 64"
  have j: "sh_count ctx AND 504 \<noteq> 448 \<longleftrightarrow> ?j \<noteq> 56"
    using 1(2) count_of_nat[of "length m"] by (simp add: sha1_count_504 absorbed_def)
  show ?case
  proof (cases "?j = 56")
    case True
    with 1(2) j show ?thesis by (simp add: sha1_pad_loop.simps[of ctx])
  next
    case False
    have "absorbed (m @ [0]) (SHA1Update [0] ctx)" using absorbed_update[OF 1(2)] .
    from 1(1)[OF _ this] False j
    have a: "absorbed ((m @ [0]) @ replicate ((120 - length (m @ [0]) mod 64) mod 64) 0) (sha1_pad_loop ctx)"
      by (simp add: sha1_pad_loop.simps[of ctx])
    have l: "length (m @ [0 :: byte]) mod 64 = (if ?j = 63 then 0 else ?j + 1)" by (simp add: mod_Suc)
    have "Suc ((120 - length (m @ [0 :: byte]) mod 64) mod 64) = (120 - ?j) mod 64"
      unfolding l using False mod_less_divisor[of 64 "length m"]
      by (auto simp: pad_arith split: if_splits simp del: mod_less_divisor)
    then have "[0] @ replicate ((120 - length (m @ [0 :: byte]) mod 64) mod 64) 0 = replicate ((120 - ?j) mod 64) (0 :: byte)"
      by (metis append_Cons append_Nil replicate_Suc)
    with a show ?thesis by (metis append.assoc)
  qed
qed

lemma ucast_255: "ucast (x AND 255) = (ucast (x :: 'a :: len word) :: byte)"
proof -
  have m: "(255 :: 'a word) = mask 8" by (simp add: mask_eq_exp_minus_1)
  show ?thesis unfolding m by (rule bit_word_eqI) (auto simp: bit_simps dest: bit_imp_le_length)
qed

lemma absorbed_pad: "absorbed m ctx \<Longrightarrow> absorbed (m @ padding m) (SHA1Pad ctx)"
proof -
  assume a: "absorbed m ctx"
  have c: "map (\<lambda>i. ucast (drop_bit ((7 - i) * 8) (sh_count ctx) AND 255)) [0..<8] = enc_be64 (of_nat (8 * length m))"
    using a by (simp add: absorbed_def enc_be64_def ucast_255 mult.commute)
  let ?k = "(120 - length (m @ [0x80 :: byte]) mod 64) mod 64"
  have k: "?k = (119 - length m mod 64) mod 64"
  proof (cases "length m mod 64 = 63")
    case False
    then have "length (m @ [0x80 :: byte]) mod 64 = length m mod 64 + 1" by (simp add: mod_Suc)
    then show ?thesis by simp
  qed (simp add: mod_Suc)
  from absorbed_update[OF absorbed_pad_loop[OF absorbed_update[OF a, of "[0x80]"]], of "enc_be64 (of_nat (8 * length m))"]
  show ?thesis unfolding SHA1Pad_def Let_def c k padding_def by simp
qed

lemma length_hash_blocks: "length h = 5 \<Longrightarrow> length (hash_blocks h m) = 5"
  by (induction h m rule: hash_blocks.induct) (subst hash_blocks.simps, simp add: compress_def split: prod.split)

lemma SHA1Final_sha1:
  assumes "absorbed m ctx"
  shows "fst (SHA1Final ctx) = sha1 m"
proof -
  let ?s = "hash_blocks sha_H0 (m @ padding m)"
  have s: "sh_state (SHA1Pad ctx) = ?s" using absorbed_pad[OF assms] by (simp add: absorbed_def)
  have "length ?s = 5" by (rule length_hash_blocks) (simp add: sha_H0_def)
  then obtain a b c d e where "?s = [a, b, c, d, e]" by (auto simp: numeral_eq_Suc length_Suc_conv)
  then show ?thesis
    by (simp add: SHA1Final_def Let_def s sha1_def enc_be32_def SHA1_DIGEST_LENGTH_def ucast_255 upt_rec)
qed

lemma length_sha1: "length (sha1 m) = 20"
proof -
  have "length (hash_blocks sha_H0 (m @ padding m)) = 5" by (rule length_hash_blocks) (simp add: sha_H0_def)
  then show ?thesis by (auto simp: sha1_def enc_be32_def numeral_eq_Suc length_Suc_conv)
qed

text \<open>A sequence of updates.\<close>

lemma absorbed_updates: "absorbed m ctx \<Longrightarrow> absorbed (m @ concat ds) (fold SHA1Update ds ctx)"
proof (induction ds arbitrary: m ctx)
  case (Cons d ds)
  from Cons(1)[OF absorbed_update[OF Cons(2), of d]] show ?case by simp
qed simp

section \<open>The test vector of the standard\<close>

text \<open>
  The reference definition gives the digest of the first example of FIPS 180-1, the message
  \<open>abc\<close>; the words before and after each group of rounds.
\<close>

lemma replicate_num: "replicate (numeral n) x = x # replicate (pred_numeral n) x"
  by (simp add: numeral_eq_Suc)

lemma abc_block: "[0x61, 0x62, 0x63] @ padding [0x61, 0x62, 0x63] = [0x61, 0x62, 0x63, 0x80] @ replicate 59 0 @ [0x18]"
  by (simp add: padding_def enc_be64_def upt_rec replicate_num)

lemma abc_words: "CHAR64LONG16 ([0x61, 0x62, 0x63, 0x80] @ replicate 59 0 @ [0x18]) =
  0x80636261 # replicate 14 0 @ [0x18000000]"
  by (simp add: CHAR64LONG16_def upt_rec replicate_num)

lemma abc_ring:
  "0x80636261 # replicate 14 0 @ [0x18000000] = [0x80636261, 0, 0, 0, 0, 0, 0, 0, 0, 0, 0, 0, 0, 0, 0, 0x18000000 :: u32]"
  by (simp add: replicate_num)

lemma abc_R0: "fold R0 [0..<16] (((0x67452301, 0xefcdab89, 0x98badcfe, 0x10325476, 0xc3d2e1f0),
     [0x80636261, 0, 0, 0, 0, 0, 0, 0, 0, 0, 0, 0, 0, 0, 0, 0x18000000])) =
     (((0x20bdd62f, 0x196bee77, 0x644a3da5, 0x1181ed99, 0x18c623f9),
     [0x61626380, 0, 0, 0, 0, 0, 0, 0, 0, 0, 0, 0, 0, 0, 0, 0x18]))"
  by (simp add: upt_rec R0_def blk0_def rol_def Let_def)

lemma abc_R1: "fold R1 [16..<20] (((0x20bdd62f, 0x196bee77, 0x644a3da5, 0x1181ed99, 0x18c623f9),
     [0x61626380, 0, 0, 0, 0, 0, 0, 0, 0, 0, 0, 0, 0, 0, 0, 0x18])) =
     (((0xfd9e1d7d, 0xdc64901d, 0x20aa99ca, 0xd3a49608, 0xc82f758b),
     [0xc2c4c700, 0, 0x30, 0x85898e01, 0, 0, 0, 0, 0, 0, 0, 0, 0, 0, 0, 0x18]))"
  by (simp add: upt_rec R1_def blk_def rol_def Let_def)

lemma abc_R2: "fold R2 [20..<40] (((0xfd9e1d7d, 0xdc64901d, 0x20aa99ca, 0xd3a49608, 0xc82f758b),
     [0xc2c4c700, 0, 0x30, 0x85898e01, 0, 0, 0, 0, 0, 0, 0, 0, 0, 0, 0, 0x18])) =
     (((0x32de1cba, 0x4c986405, 0xf718e5cf, 0x3d447f6, 0xf72eec32),
     [0x8e9a9202, 0x600, 0xb131c0f0, 0x16263bc6, 0x4ebed41e, 0x626380a1, 0x16263806, 0x18c0, 0x85898ec1, 0x16263806, 0, 0x180, 0x2c4c700c, 0xf0, 0x93afb507, 0x5898e048]))"
  by (simp add: upt_rec R2_def blk_def rol_def Let_def)

lemma abc_R3: "fold R3 [40..<60] (((0x32de1cba, 0x4c986405, 0xf718e5cf, 0x3d447f6, 0xf72eec32),
     [0x8e9a9202, 0x600, 0xb131c0f0, 0x16263bc6, 0x4ebed41e, 0x626380a1, 0x16263806, 0x18c0, 0x85898ec1, 0x16263806, 0, 0x180, 0x2c4c700c, 0xf0, 0x93afb507, 0x5898e048])) =
     (((0x3f52de5a, 0x9d785fd, 0x3498bfd4, 0xf211824f, 0xd79915ab),
     [0xda9415ed, 0x26380a16, 0x626383a1, 0x4ebf54de, 0x3835b44b, 0xf600, 0x1e84c7a3, 0x98e04d98, 0x651d16a0, 0x62658ca1, 0x458544d6, 0x44584cb7, 0xe2ba3c2b, 0x60c0, 0x53a37cd, 0x74458547]))"
  by (simp add: upt_rec R3_def blk_def rol_def Let_def)

lemma abc_R4: "fold R4 [60..<80] (((0x3f52de5a, 0x9d785fd, 0x3498bfd4, 0xf211824f, 0xd79915ab),
     [0xda9415ed, 0x26380a16, 0x626383a1, 0x4ebf54de, 0x3835b44b, 0xf600, 0x1e84c7a3, 0x98e04d98, 0x651d16a0, 0x62658ca1, 0x458544d6, 0x44584cb7, 0xe2ba3c2b, 0x60c0, 0x53a37cd, 0x74458547])) =
     (((0x42541b35, 0x5738d5e1, 0x21834873, 0x681e6df6, 0xd8fdf6ad),
     [0x7cd45c9d, 0xf0000, 0xfb50753a, 0xec6765e8, 0xba3c2be2, 0x60c000, 0x3a37cd05, 0x458546f4, 0xb8599dd6, 0x380a1a26, 0x1e02203, 0xe7cc3456, 0xe6e60b69, 0xf60a00, 0x5795ef4f, 0x822e0879]))"
  by (simp add: upt_rec R4_def blk_def rol_def Let_def)

lemma abc_transform:
  "SHA1Transform sha_H0 ([0x61, 0x62, 0x63, 0x80] @ replicate 59 0 @ [0x18]) =
     [0xa9993e36, 0x4706816a, 0xba3e2571, 0x7850c26c, 0x9cd0d89d]"
proof -
  have "sha_H0 ! 0 = 0x67452301" "sha_H0 ! 1 = 0xEFCDAB89" "sha_H0 ! 2 = 0x98BADCFE" "sha_H0 ! 3 = 0x10325476"
    "sha_H0 ! 4 = 0xC3D2E1F0"
    by (simp_all add: sha_H0_def)
  then show ?thesis
    unfolding SHA1Transform_def Let_def abc_words
    by (simp only: abc_ring abc_R0 abc_R1 abc_R2 abc_R3 abc_R4 prod.case) simp
qed

lemma sha1_abc:
  "sha1 [0x61, 0x62, 0x63] =
     [0xa9, 0x99, 0x3e, 0x36, 0x47, 06, 0x81, 0x6a, 0xba, 0x3e, 0x25, 0x71, 0x78, 0x50, 0xc2, 0x6c, 0x9c, 0xd0, 0xd8, 0x9d]"
proof -
  have "length ([0x61 :: byte, 0x62, 0x63, 0x80] @ replicate 59 0 @ [0x18]) = 64" by simp
  then have "hash_blocks sha_H0 ([0x61, 0x62, 0x63] @ padding [0x61, 0x62, 0x63]) =
      [0xa9993e36, 0x4706816a, 0xba3e2571, 0x7850c26c, 0x9cd0d89d]"
    unfolding abc_block using abc_transform by (simp only: hash_blocks_one SHA1Transform_compress)
  then show ?thesis unfolding sha1_def by (simp only: list.map concat.simps enc_be32_def) simp
qed

section \<open>The implementation\<close>

text \<open>
  (C15) SHA-1 in pieces: whatever an uninitialised context holds and however the message is cut into
  pieces, initialising the context, adding the pieces one after the other and finishing gives the
  digest that FIPS 180-1 defines on the whole message.
\<close>

theorem sha1_streaming:
  assumes "length (sh_buffer ctx) = SHA1_BLOCK_LENGTH"
  shows "fst (SHA1Final (fold SHA1Update ds (SHA1Init ctx))) = sha1 (concat ds)"
  using SHA1Final_sha1[OF absorbed_updates[OF absorbed_init]] assms by (simp add: SHA1_BLOCK_LENGTH_def)

definition sample_ctx :: SHA1_CTX where
  "sample_ctx = \<lparr>sh_state = replicate 5 7, sh_count = 99, sh_buffer = replicate 64 0xFF\<rparr>"

theorem sha1_streaming_witness:
  "fst (SHA1Final (fold SHA1Update [[0x61], [], [0x62, 0x63]] (SHA1Init sample_ctx))) =
     [0xa9, 0x99, 0x3e, 0x36, 0x47, 0x06, 0x81, 0x6a, 0xba, 0x3e, 0x25, 0x71, 0x78, 0x50, 0xc2, 0x6c, 0x9c, 0xd0, 0xd8, 0x9d]"
  using sha1_streaming[of sample_ctx "[[0x61], [], [0x62, 0x63]]"] sha1_abc
  by (simp add: sample_ctx_def SHA1_BLOCK_LENGTH_def)

end
