(* ===== verification/Pbkdf2_Correct.thy ===== *)
theory Pbkdf2_Correct
  imports Pbkdf2 Sha1_Correct
begin

text \<open>
  HMAC (RFC 2104) and PBKDF2 (RFC 2898) over the SHA-1 of the standard, and the proof that
  \<open>hmac_sha1\<close> and \<open>pkcs5_pbkdf2\<close> compute them.
\<close>

section \<open>The standards\<close>

definition hmac_key :: "byte list \<Rightarrow> byte list" where
  "hmac_key k = (let k0 = (if length k > 64 then sha1 k else k) in k0 @ replicate (64 - length k0) 0)"

definition hmac :: "byte list \<Rightarrow> byte list \<Rightarrow> byte list" where
  "hmac k m = sha1 (map ((XOR) 0x5c) (hmac_key k) @ sha1 (map ((XOR) 0x36) (hmac_key k) @ m))"

primrec pbkdf2_U :: "byte list \<Rightarrow> byte list \<Rightarrow> nat \<Rightarrow> byte list" where
  "pbkdf2_U p s 0 = hmac p s"
| "pbkdf2_U p s (Suc n) = hmac p (pbkdf2_U p s n)"

text \<open>\<open>F (P, S, c, i)\<close>, the exclusive or of the first \<open>c\<close> iterates.\<close>

definition pbkdf2_F :: "byte list \<Rightarrow> byte list \<Rightarrow> nat \<Rightarrow> nat \<Rightarrow> byte list" where
  "pbkdf2_F p s c i =
     foldr xor_bytes (map (pbkdf2_U p (s @ enc_be32 (of_nat i))) [0..<c]) (replicate 20 0)"

text \<open>The derived key: the blocks one after the other, cut to the length asked for.\<close>

definition pbkdf2 :: "byte list \<Rightarrow> byte list \<Rightarrow> nat \<Rightarrow> nat \<Rightarrow> byte list" where
  "pbkdf2 p s c dkLen = take dkLen (concat (map (pbkdf2_F p s c) [1..<Suc ((dkLen + 19) div 20)]))"

section \<open>HMAC\<close>

lemma sha1_pieces:
  "length (sh_buffer ctx) = 64 \<Longrightarrow> fst (SHA1Final (SHA1Update a (SHA1Init ctx))) = sha1 a"
  "length (sh_buffer ctx) = 64 \<Longrightarrow> fst (SHA1Final (SHA1Update b (SHA1Update a (SHA1Init ctx)))) = sha1 (a @ b)"
  using SHA1Final_sha1[OF absorbed_updates[OF absorbed_init], of ctx "[a]"]
    SHA1Final_sha1[OF absorbed_updates[OF absorbed_init], of ctx "[a, b]"] by simp_all

lemma SHA1Final_ctx: "length (sh_buffer (snd (SHA1Final ctx))) = 64"
  by (simp add: SHA1Final_def Let_def SHA1_BLOCK_LENGTH_def)

lemma hmac_pad_spec: "length k \<le> 64 \<Longrightarrow> hmac_pad k b = map ((XOR) b) (k @ replicate (64 - length k) 0)"
  by (simp add: hmac_pad_def memput_def SHA1_BLOCK_LENGTH_def xor.commute)

lemma hmac_sha1_hmac:
  assumes c: "length (sh_buffer ctx) = 64"
  shows "hmac_sha1 ctx m k = hmac k m"
proof -
  define kc where "kc = (if length k > 64 then SHA1Final (SHA1Update k (SHA1Init ctx)) else (k, ctx))"
  have k1: "length (fst kc) \<le> 64" "hmac_key k = fst kc @ replicate (64 - length (fst kc)) 0"
    "length (sh_buffer (snd kc)) = 64"
    using c by (auto simp: kc_def hmac_key_def sha1_pieces length_sha1 SHA1Final_ctx Let_def)
  have p: "hmac_pad (fst kc) b = map ((XOR) b) (hmac_key k)" for b
    using k1 by (simp add: hmac_pad_spec)
  show ?thesis
    unfolding hmac_sha1_def SHA1_BLOCK_LENGTH_def kc_def[symmetric] Let_def case_prod_beta
    by (simp add: p sha1_pieces k1 SHA1Final_ctx hmac_def)
qed

lemma length_hmac: "length (hmac k m) = 20"
  by (simp add: hmac_def length_sha1)

section \<open>The rounds\<close>

lemma length_xor_bytes [simp]: "length (xor_bytes a b) = min (length a) (length b)"
  by (simp add: xor_bytes_def)

lemma nth_xor_bytes: "i < length a \<Longrightarrow> i < length b \<Longrightarrow> xor_bytes a b ! i = a ! i XOR b ! i"
  by (simp add: xor_bytes_def)

lemma xor_bytes_assoc:
  "length a = n \<Longrightarrow> length b = n \<Longrightarrow> length c = n \<Longrightarrow> xor_bytes (xor_bytes a b) c = xor_bytes a (xor_bytes b c)"
  by (rule nth_equalityI) (simp_all add: nth_xor_bytes xor.assoc)

lemma xor_bytes_zero [simp]: "length a = n \<Longrightarrow> xor_bytes a (replicate n 0) = a"
  by (rule nth_equalityI) (simp_all add: nth_xor_bytes)

lemma length_pbkdf2_U [simp]: "length (pbkdf2_U p s n) = 20"
  by (cases n) (simp_all add: length_hmac)

definition xor_all :: "byte list list \<Rightarrow> byte list" where
  "xor_all us = foldr xor_bytes us (replicate 20 0)"

lemma length_xor_all: "list_all (\<lambda>u. length u = 20) us \<Longrightarrow> length (xor_all us) = 20"
  by (induction us) (auto simp: xor_all_def)

lemma pbkdf2_rounds_spec:
  assumes c: "length (sh_buffer ctx) = 64"
  shows "length obuf = 20 \<Longrightarrow>
    pbkdf2_rounds ctx p n (pbkdf2_U p s k) obuf = xor_bytes obuf (xor_all (map (pbkdf2_U p s) [Suc k..<Suc (k + n)]))"
proof (induction n arbitrary: k obuf)
  case (Suc n)
  let ?u = "pbkdf2_U p s (Suc k)"
  let ?us = "map (pbkdf2_U p s) [Suc (Suc k)..<Suc (Suc k + n)]"
  have l: "length (xor_all ?us) = 20" by (rule length_xor_all) (simp add: list_all_iff)
  have u: "map (pbkdf2_U p s) [Suc k..<Suc (k + Suc n)] = ?u # ?us" by (subst upt_conv_Cons) simp_all
  have "pbkdf2_rounds ctx p (Suc n) (pbkdf2_U p s k) obuf = pbkdf2_rounds ctx p n ?u (xor_bytes obuf ?u)"
    by (simp add: hmac_sha1_hmac[OF c] Let_def)
  also have "\<dots> = xor_bytes (xor_bytes obuf ?u) (xor_all ?us)"
    by (rule Suc.IH) (simp add: Suc.prems length_hmac)
  also have "\<dots> = xor_bytes obuf (xor_bytes ?u (xor_all ?us))"
    by (rule xor_bytes_assoc[of _ 20]) (simp_all only: Suc.prems length_pbkdf2_U l)
  finally show ?case unfolding u by (simp add: xor_all_def)
qed (simp add: xor_all_def)

lemma pbkdf2_F_rounds:
  assumes c: "length (sh_buffer ctx) = 64" and n: "0 < n"
  shows "pbkdf2_rounds ctx p (n - 1) (hmac p (s @ enc_be32 (of_nat i))) (hmac p (s @ enc_be32 (of_nat i))) = pbkdf2_F p s n i"
proof -
  let ?s = "s @ enc_be32 (of_nat i)"
  have u: "map (pbkdf2_U p ?s) [0..<n] = pbkdf2_U p ?s 0 # map (pbkdf2_U p ?s) [Suc 0..<Suc (0 + (n - 1))]"
    using n by (subst upt_conv_Cons) simp_all
  have "pbkdf2_rounds ctx p (n - 1) (pbkdf2_U p ?s 0) (pbkdf2_U p ?s 0) =
      xor_bytes (pbkdf2_U p ?s 0) (xor_all (map (pbkdf2_U p ?s) [Suc 0..<Suc (0 + (n - 1))]))"
    by (rule pbkdf2_rounds_spec[OF c length_pbkdf2_U])
  then show ?thesis unfolding pbkdf2_F_def u by (simp add: xor_all_def)
qed

lemma length_pbkdf2_F: "length (pbkdf2_F p s c i) = 20"
  unfolding pbkdf2_F_def using length_xor_all[of "map (pbkdf2_U p (s @ enc_be32 (of_nat i))) [0..<c]"]
  by (simp add: xor_all_def list_all_iff)

section \<open>The blocks of the key\<close>

lemma count_bytes_be32: "count_bytes c = enc_be32 c"
  by (simp add: count_bytes_def enc_be32_def ucast_255)

lemma memput_counter: "length t = 4 \<Longrightarrow> memput (s @ t) (length s) (enc_be32 c) = s @ enc_be32 c"
  by (simp add: memput_def enc_be32_def)

lemma pbkdf2_loop_spec:
  assumes c: "length (sh_buffer ctx) = 64" and r: "rounds \<noteq> 0"
  shows "length t = 4 \<Longrightarrow>
    pbkdf2_loop ctx p (length s) rounds (s @ t) n (of_nat i) =
      take n (concat (map (pbkdf2_F p s (unat rounds)) [i..<i + (n + 19) div 20]))"
proof (induction n arbitrary: t i rule: less_induct)
  case (less n)
  show ?case
  proof (cases "n = 0")
    case False
    let ?F = "pbkdf2_F p s (unat rounds)"
    have f: "pbkdf2_rounds ctx p (unat rounds - 1) (hmac p (s @ enc_be32 (of_nat i))) (hmac p (s @ enc_be32 (of_nat i))) = ?F i"
      by (rule pbkdf2_F_rounds[OF c]) (use r in \<open>simp add: word_neq_0_conv unat_gt_0\<close>)
    have "pbkdf2_loop ctx p (length s) rounds (s @ t) n (of_nat i) =
        take (min n 20) (?F i) @ pbkdf2_loop ctx p (length s) rounds (s @ enc_be32 (of_nat i)) (n - min n 20) (of_nat (Suc i))"
      using False
      by (subst pbkdf2_loop.simps)
        (simp add: Let_def SHA1_DIGEST_LENGTH_def count_bytes_be32 memput_counter[OF less.prems] hmac_sha1_hmac[OF c] f[unfolded One_nat_def] add.commute)
    also have "pbkdf2_loop ctx p (length s) rounds (s @ enc_be32 (of_nat i)) (n - min n 20) (of_nat (Suc i)) =
        take (n - min n 20) (concat (map ?F [Suc i..<Suc i + (n - min n 20 + 19) div 20]))"
      by (rule less.IH) (use False in \<open>simp_all add: enc_be32_def\<close>)
    finally have e: "pbkdf2_loop ctx p (length s) rounds (s @ t) n (of_nat i) =
        take (min n 20) (?F i) @ take (n - min n 20) (concat (map ?F [Suc i..<Suc i + (n - min n 20 + 19) div 20]))" .
    have d: "(n + 19) div 20 = Suc ((n - min n 20 + 19) div 20)"
    proof (cases "n \<le> 20")
      case True
      then have "(n + 19) div 20 = 1" using False by (auto intro: div_nat_eqI)
      with True show ?thesis by simp
    next
      case F: False
      then have "n + 19 = (n - 20 + 19) + 20" by simp
      then have "(n + 19) div 20 = Suc ((n - 20 + 19) div 20)" by (metis div_add_self2 Suc_eq_plus1 zero_neq_numeral)
      with F show ?thesis by simp
    qed
    have "[i..<i + (n + 19) div 20] = i # [Suc i..<Suc i + (n - min n 20 + 19) div 20]"
      unfolding d by (subst upt_conv_Cons) simp_all
    then show ?thesis unfolding e by (simp add: length_pbkdf2_F)
  qed (simp add: pbkdf2_loop.simps)
qed

lemma pkcs5_pbkdf2_spec:
  assumes "length salt + 4 < 2 ^ 64"
  shows "pkcs5_pbkdf2 K pass salt key_len rounds w =
    (if rounds = 0 \<or> key_len = 0 \<or> salt = [] then Ok None w
     else case malloc K (length salt + 4) w of
       (None, w1) \<Rightarrow> Ok None w1
     | (Some _, w1) \<Rightarrow> Ok (Some (pbkdf2 pass salt (unat rounds) key_len)) w1)"
proof (cases "rounds = 0 \<or> key_len = 0 \<or> salt = [] \<or> fst (malloc K (length salt + 4) w) = None")
  case True
  with assms show ?thesis
    by (auto simp: pkcs5_pbkdf2_def Let_def SIZE_MAX_def szadd_small word_less_1 split: prod.splits)
next
  case False
  then obtain asalt w1 where m: "malloc K (length salt + 4) w = (Some asalt, w1)" by (cases "malloc K (length salt + 4) w") auto
  let ?t = "drop (length salt) asalt"
  have a: "length asalt = length salt + 4" using malloc_SomeD[OF m] .
  have p: "memput asalt 0 salt = salt @ ?t" "length ?t = 4" using a by (simp_all add: memput_def)
  let ?ctx = "\<lparr>sh_state = [], sh_count = 0, sh_buffer = junk K SHA1_BLOCK_LENGTH w1\<rparr>"
  have "pbkdf2_loop ?ctx pass (length salt) rounds (salt @ ?t) key_len (of_nat 1) =
      take key_len (concat (map (pbkdf2_F pass salt (unat rounds)) [1..<1 + (key_len + 19) div 20]))"
    by (rule pbkdf2_loop_spec) (use False p in \<open>simp_all add: junk_def SHA1_BLOCK_LENGTH_def\<close>)
  with False m a p assms show ?thesis
    by (simp add: pkcs5_pbkdf2_def Let_def SIZE_MAX_def szadd_small word_less_1 pbkdf2_def)
qed

lemma length_pbkdf2: "length (pbkdf2 p s c n) = n"
proof -
  have "length (concat (map (pbkdf2_F p s c) js)) = 20 * length js" for js
    by (induction js) (simp_all add: length_pbkdf2_F)
  moreover have "n \<le> 20 * ((n + 19) div 20)" by linarith
  ultimately show ?thesis by (simp add: pbkdf2_def del: upt_Suc)
qed

text \<open>
  The three lengths of a salt that pass the check although the size of the allocation wraps around.
\<close>

lemma pbkdf2_salt_wraps:
  assumes "rounds \<noteq> 0" "key_len \<noteq> 0" "length salt = 2 ^ 64 - d" "2 \<le> d" "d \<le> 4"
    and "malloc K (4 - d) w = (Some asalt, w1)"
  shows "pkcs5_pbkdf2 K pass salt key_len rounds w = Undef ''pkcs5_pbkdf2: copy beyond the allocated salt'' w1"
proof -
  have big: "10 < (2 ^ 64 :: nat)" by simp
  then have e: "2 ^ 64 - d + 4 = (4 - d) + (2 ^ 64 :: nat)" using assms(4,5) by linarith
  have "4 - d < (2 ^ 64 :: nat)" using big by linarith
  then have z: "szadd (length salt) 4 = 4 - d" unfolding assms(3) szadd_def e mod_add_self2 by (rule mod_less)
  have a: "length asalt = 4 - d" by (rule malloc_SomeD) (rule assms(6))
  have l: "length salt \<noteq> 0" "\<not> SIZE_MAX - 1 < length salt" "length asalt < length salt"
    unfolding a assms(3) SIZE_MAX_def using assms(4,5) big by linarith+
  show ?thesis
    unfolding pkcs5_pbkdf2_def Let_def z assms(6) using assms(1,2) l by (simp add: word_less_1)
qed

text \<open>
  (C16) Key derivation: \<open>pkcs5_pbkdf2\<close> refuses zero rounds, an empty key and an empty salt without
  asking for memory, fails when there is no memory, and otherwise returns exactly the key that
  RFC 2898 derives with HMAC-SHA-1 from the passphrase, the salt, the number of rounds and the
  length; block numbers are counted modulo \<open>2 ^ 32\<close>, which lies beyond the longest key of the RFC.
\<close>

theorem pbkdf2_rfc2898:
  assumes "length salt + 4 < 2 ^ 64"
  shows "pkcs5_pbkdf2 K pass salt key_len rounds w =
    (if rounds = 0 \<or> key_len = 0 \<or> salt = [] then Ok None w
     else case malloc K (length salt + 4) w of
       (None, w1) \<Rightarrow> Ok None w1
     | (Some _, w1) \<Rightarrow> Ok (Some (pbkdf2 pass salt (unat rounds) key_len)) w1)"
  by (rule pkcs5_pbkdf2_spec[OF assms])

theorem pbkdf2_rfc2898_witness:
  "pkcs5_pbkdf2 sample_kernel [0x6b, 0x65, 0x79] [0x69, 0x66] 32 4096 sample_world =
    (if (4096 :: u32) = 0 \<or> (32 :: nat) = 0 \<or> [0x69 :: byte, 0x66] = [] then Ok None sample_world
     else case malloc sample_kernel (length [0x69 :: byte, 0x66] + 4) sample_world of
       (None, w1) \<Rightarrow> Ok None w1
     | (Some _, w1) \<Rightarrow> Ok (Some (pbkdf2 [0x6b, 0x65, 0x79] [0x69, 0x66] (unat (4096 :: u32)) 32)) w1)"
  by (rule pbkdf2_rfc2898) simp

end
