(* ===== verification/Ifc_Properties.thy ===== *)
theory Ifc_Properties
  imports Ifc_Wireless Ifc_Addr Ifc_Media Ifc_Pseudo Pbkdf2_Correct
begin

text \<open>
  The properties of the interface library: the number arguments, the network name, the network
  mask, the WPA key, the carp nodes and the media word, from the text of a command to the request
  the kernel sees.
\<close>

section \<open>Lemmas\<close>

text \<open>A name longer than the buffer runs over its end.\<close>

lemma get_string_loop_overflow:
  assumes "length p \<le> len" "length p + length s > len"
  shows "get_string_loop False None len p s w = Undef ''get_string: store behind the buffer'' w"
  using assms
proof (induction s arbitrary: p)
  case (Cons c s)
  then show ?case by (cases "length p = len") auto
qed simp

lemma ioctl_err_OkD:
  "ioctl_err K g c n a m w = Ok r w' \<Longrightarrow> trace w' = EvIoctl (sock g) c n a # trace w"
  by (auto simp: ioctl_err_Ok dest!: ioctl_cases)

lemma strdup_Ok: "strdup K s w = Ok u w' \<Longrightarrow> trace w' = EvMalloc (length s + 1) # trace w"
  using alloc_trace(1)[of K "length s + 1" w]
  by (auto simp: strdup_def err_def split: prod.splits if_splits)

section \<open>Properties\<close>

text \<open>
  (C25) \<open>strtonum\<close> is exact: if the string is a decimal number (after white space and a sign) in
  the range, it returns that number and leaves \<open>errno\<close> alone; otherwise it returns 0 and says
  whether the string is not a number, too small or too large. Values beyond 64 bits are too large
  or too small, never wrapped.
\<close>

theorem strtonum_exact:
  assumes "LLONG_MIN \<le> mn" "mn \<le> mx" "mx \<le> LLONG_MAX"
  shows "strtonum s mn mx w =
    (case num_ref s of
       None \<Rightarrow> (0, Some ''invalid'', set_errno EINVAL w)
     | Some v \<Rightarrow>
         if v < mn then (0, Some ''too small'', set_errno ERANGE w)
         else if v > mx then (0, Some ''too large'', set_errno ERANGE w)
         else (v, None, w))"
  using strtonum_ref[OF assms] .

theorem strtonum_exact_witness:
  "strtonum ''99999999999999999999'' 1 256 sample_world =
    (case num_ref ''99999999999999999999'' of
       None \<Rightarrow> (0, Some ''invalid'', set_errno EINVAL sample_world)
     | Some v \<Rightarrow>
         if v < 1 then (0, Some ''too small'', set_errno ERANGE sample_world)
         else if v > 256 then (0, Some ''too large'', set_errno ERANGE sample_world)
         else (v, None, sample_world))"
  by (rule strtonum_exact) (simp_all add: LLONG_MIN_def LLONG_MAX_def)

text \<open>
  Printing a number with \<open>%d\<close> and reading it back with \<open>strtonum\<close> gives the number, for every
  number of the range.
\<close>

theorem strtonum_roundtrip:
  assumes "LLONG_MIN \<le> mn" "mx \<le> LLONG_MAX" "mn \<le> n" "n \<le> mx"
  shows "strtonum (vfmt ''%d'' [AI n]) mn mx w = (n, None, w)"
  using strtonum_ref[of mn mx "show_int n" w] assms by (simp add: num_ref_show_int)

theorem strtonum_roundtrip_witness:
  "strtonum (vfmt ''%d'' [AI (- 42)]) (- 100) 100 sample_world = (- 42, None, sample_world)"
  by (rule strtonum_roundtrip) (simp_all add: LLONG_MIN_def LLONG_MAX_def)



text \<open>
  (C37) A network name of more than 32 characters is not rejected: the check of the buffer's end is
  off by one, and the 33rd character is stored behind the buffer.
\<close>

theorem setifnwid_overflow:
  assumes "length s > 32" "\<not> is_hexstr s"
  shows "setifnwid K s 0 g w = Undef ''get_string: store behind the buffer'' w"
  using get_string_loop_overflow[of "[]" 32 s w] assms
  by (simp add: setifnwid_def get_string_def IEEE80211_NWID_LEN_def)

theorem setifnwid_overflow_witness:
  "setifnwid sample_kernel (replicate 33 CHR ''a'') 0 sample_ifc sample_world =
     Undef ''get_string: store behind the buffer'' sample_world"
  by (rule setifnwid_overflow) (simp_all add: is_hexstr_def)

text \<open>
  (C31) A prefix length sets the network mask with that many leading ones: for lengths 1 to 32 the
  mask is the complement of the low \<open>32 - n\<close> bits, for length 0 it is all ones (the mask of a host
  route, not the empty mask); everything else ends the program with a message.
\<close>

theorem prefixlen_mask:
  assumes "afp g = AF_inet"
  shows "setifprefixlen s d g w =
     (case num_ref s of
        None \<Rightarrow> errx ''prefix %s: %s'' [AS s, AS ''invalid''] (set_errno EINVAL w)
      | Some n \<Rightarrow>
          if n < 0 then errx ''prefix %s: %s'' [AS s, AS ''too small''] (set_errno ERANGE w)
          else if n > 32 then errx ''prefix %s: %s'' [AS s, AS ''too large''] (set_errno ERANGE w)
          else Ok (g\<lparr>inreq := (inreq g)\<lparr>ifra_mask := (if n = 0 then NOT 0 else NOT (mask (32 - nat n)))\<rparr>,
                     explicit_prefix := 1\<rparr>) w)"
  using assms
  by (auto simp: setifprefixlen_def in_getprefix_spec set_sin_def which_defs errx_def split: option.split)

theorem prefixlen_mask_witness:
  "setifprefixlen ''24'' 0 sample_ifc sample_world =
     (case num_ref ''24'' of
        None \<Rightarrow> errx ''prefix %s: %s'' [AS ''24'', AS ''invalid''] (set_errno EINVAL sample_world)
      | Some n \<Rightarrow>
          if n < 0 then errx ''prefix %s: %s'' [AS ''24'', AS ''too small''] (set_errno ERANGE sample_world)
          else if n > 32 then errx ''prefix %s: %s'' [AS ''24'', AS ''too large''] (set_errno ERANGE sample_world)
          else Ok (sample_ifc\<lparr>inreq := (inreq sample_ifc)\<lparr>ifra_mask := (if n = 0 then NOT 0 else NOT (mask (32 - nat n)))\<rparr>,
                     explicit_prefix := 1\<rparr>) sample_world)"
  by (rule prefixlen_mask) (simp add: sample_ifc_def)

text \<open>The network name the kernel reports, the salt of the key derivation.\<close>

definition nwid_salt :: "ioarg \<Rightarrow> byte list" where
  "nwid_salt r = take (unat (fst (io_nwid r))) (snd (io_nwid r))"

lemma wpakey_derived:
  assumes "pkcs5_pbkdf2 K p (nwid_salt r) PSK_LEN 4096 w = Ok (Some k) w'"
  shows "k = pbkdf2 p (nwid_salt r) 4096 32 \<and> trace w' = EvMalloc (length (nwid_salt r) + 4) # trace w"
proof -
  let ?m = "malloc K (length (nwid_salt r) + 4) w"
  have "length (nwid_salt r) + 4 < 2 ^ 64" using unat_byte[of "fst (io_nwid r)"] by (simp add: nwid_salt_def)
  from assms[unfolded pkcs5_pbkdf2_spec[OF this]] have "k = pbkdf2 p (nwid_salt r) 4096 32 \<and> w' = snd ?m"
    by (auto simp: PSK_LEN_def split: if_splits prod.splits option.splits)
  with malloc_trace(1)[of K "length (nwid_salt r) + 4" w] show ?thesis by simp
qed

text \<open>
  (C32) The WPA key: whenever \<open>wpakey\<close> succeeds, the key sent to the kernel has 32 bytes and is
  either the value of 64 hexadecimal digits or the key that RFC 2898 derives in 4096 rounds from the
  passphrase of 8 to 63 characters and the network name the kernel reported; the last request
  switches WPA on with the other parameters as the kernel reported them.
\<close>

theorem wpakey_sends_key:
  assumes ok: "setifwpakey K val 0 g w = Ok g' w'"
  shows "\<exists>r psk p mem.
     k_ioctl K (EvIoctl (sock g) SIOCG80211NWID (name_of g) IoNone # trace w) = Inr r \<and>
     (length val = 66 \<and> list_all isxdigit (drop 2 val) \<and> psk = unhex (drop 2 val) \<and> mem = [] \<or>
      8 \<le> length val \<and> length val \<le> 63 \<and> fst (io_nwid r) \<noteq> 0 \<and>
        psk = pbkdf2 (map char_byte val) (nwid_salt r) 4096 32 \<and> mem = [EvMalloc (length (nwid_salt r) + 4)]) \<and>
     length psk = 32 \<and>
     trace w' = [EvIoctl (sock g) SIOCS80211WPAPARMS (name_of g) (IoWpa (p\<lparr>wpa_enabled := 1\<rparr>)),
        EvIoctl (sock g) SIOCG80211WPAPARMS (name_of g) (IoWpa wpa_zero),
        EvIoctl (sock g) SIOCS80211WPAPSK (name_of g) (IoPsk 1 psk)] @ mem @
        EvIoctl (sock g) SIOCG80211NWID (name_of g) IoNone # trace w"
proof -
  let ?g = "set_ifr_name g"
  have g: "sock ?g = sock g" "name_of ?g = name_of g" "ifr_name ?g = name_of g"
    by (simp_all add: set_ifr_name_def name_of_def)
  obtain r w1 k w2 a w3 where nw: "ioctl_err K ?g SIOCG80211NWID (ifr_name ?g) IoNone ''SIOCG80211NWID'' w = Ok r w1"
    and pk: "wpakey_psk K val (fst (io_nwid r)) (snd (io_nwid r)) w1 = Ok k w2"
    and sp: "ioctl_err K ?g SIOCS80211WPAPSK (name_of ?g) (IoPsk 1 k) ''SIOCS80211WPAPSK'' w2 = Ok a w3"
    and up: "wpa_update K (\<lambda>p. p\<lparr>wpa_enabled := 1\<rparr>) ?g w3 = Ok g' w'"
    using ok by (auto simp: setifwpakey_def Let_def andthen_Ok_iff)
  have r: "k_ioctl K (EvIoctl (sock g) SIOCG80211NWID (name_of g) IoNone # trace w) = Inr r"
    using nw g by (auto simp: ioctl_err_Ok ioctl_def emit_def Let_def split: sum.splits)
  from wpakey_psk_Ok[OF pk] obtain mem where
    "length val = 66 \<and> list_all isxdigit (drop 2 val) \<and> k = unhex (drop 2 val) \<and> mem = [] \<or>
      8 \<le> length val \<and> length val \<le> 63 \<and> fst (io_nwid r) \<noteq> 0 \<and>
        k = pbkdf2 (map char_byte val) (nwid_salt r) 4096 32 \<and> mem = [EvMalloc (length (nwid_salt r) + 4)]"
    and "length k = 32" "trace w2 = mem @ trace w1"
    using wpakey_derived[of K "map char_byte val" r w1 k w2]
    by (auto simp: PSK_LEN_def nwid_salt_def length_pbkdf2)
  moreover from wpa_update_Ok[OF up] obtain p where
    "trace w' = EvIoctl (sock g) SIOCS80211WPAPARMS (name_of g) (IoWpa (p\<lparr>wpa_enabled := 1\<rparr>)) #
       EvIoctl (sock g) SIOCG80211WPAPARMS (name_of g) (IoWpa wpa_zero) # trace w3"
    unfolding g by blast
  ultimately show ?thesis using ioctl_err_OkD[OF nw] ioctl_err_OkD[OF sp] r g
    by (intro exI[of _ r] exI[of _ k] exI[of _ p] exI[of _ mem]) simp
qed

definition nwid_kernel :: kernel where
  "nwid_kernel = sample_kernel\<lparr>k_ioctl := (\<lambda>_. Inr (IoNwid 4 [1, 2, 3, 4]))\<rparr>"

lemma wpakey_sample: "\<exists>g' w'. setifwpakey nwid_kernel ''passphrase'' 0 sample_ifc sample_world = Ok g' w'"
  by (simp add: setifwpakey_def wpakey_psk_def pkcs5_pbkdf2_spec malloc_def alloc_def ioctl_err_def ioctl_def wpa_update_def
      nwid_kernel_def sample_kernel_def PSK_LEN_def Let_def)

theorem wpakey_sends_key_witness:
  "\<exists>g' w'. setifwpakey nwid_kernel ''passphrase'' 0 sample_ifc sample_world = Ok g' w' \<and>
    (\<exists>r psk p mem.
     k_ioctl nwid_kernel (EvIoctl (sock sample_ifc) SIOCG80211NWID (name_of sample_ifc) IoNone # trace sample_world) = Inr r \<and>
     (length ''passphrase'' = 66 \<and> list_all isxdigit (drop 2 ''passphrase'') \<and> psk = unhex (drop 2 ''passphrase'') \<and> mem = [] \<or>
      8 \<le> length ''passphrase'' \<and> length ''passphrase'' \<le> 63 \<and> fst (io_nwid r) \<noteq> 0 \<and>
        psk = pbkdf2 (map char_byte ''passphrase'') (nwid_salt r) 4096 32 \<and> mem = [EvMalloc (length (nwid_salt r) + 4)]) \<and>
     length psk = 32 \<and>
     trace w' = [EvIoctl (sock sample_ifc) SIOCS80211WPAPARMS (name_of sample_ifc) (IoWpa (p\<lparr>wpa_enabled := 1\<rparr>)),
        EvIoctl (sock sample_ifc) SIOCG80211WPAPARMS (name_of sample_ifc) (IoWpa wpa_zero),
        EvIoctl (sock sample_ifc) SIOCS80211WPAPSK (name_of sample_ifc) (IoPsk 1 psk)] @ mem @
        EvIoctl (sock sample_ifc) SIOCG80211NWID (name_of sample_ifc) IoNone # trace sample_world)"
  using wpakey_sample wpakey_sends_key by blast

text \<open>
  The carp nodes: whenever \<open>carpnodes\<close> succeeds it sends tables of exactly \<open>CARP_MAXNODES\<close>
  entries, and the list had at most that many.
\<close>

theorem carp_nodes_bounded:
  assumes "setcarp_nodes K val d g w = Ok g' w'"
  shows "length (strtok_all (CHR '','') (Some val)) \<le> CARP_MAXNODES \<and>
     (\<exists>c t. trace w' = EvIoctl (sock g) SIOCSVH (ifr_name g) (IoCarp c) # t \<and>
        length (carpr_vhids c) = CARP_MAXNODES \<and> length (carpr_advskews c) = CARP_MAXNODES)"
proof -
  obtain c0 c1 w2 w3 r where cn: "carp_nodes 0 (strtok_all (CHR '','') (Some val)) c0 w2 = Ok c1 w3"
    and c0: "length (carpr_vhids c0) = CARP_MAXNODES" "length (carpr_advskews c0) = CARP_MAXNODES"
    and io: "ioctl_err K g SIOCSVH (ifr_name g) (IoCarp c1) ''SIOCSVH'' w3 = Ok r w'"
    using assms by (auto simp: setcarp_nodes_def Let_def andthen_Ok_iff)
  from carp_nodes_Ok[OF cn c0] ioctl_err_OkD[OF io] show ?thesis by auto
qed

lemma carp_sample: "\<exists>w'. setcarp_nodes sample_kernel ''1:0,2:100'' 0 sample_ifc sample_world = Ok sample_ifc w'"
proof -
  have t: "strtok_all (CHR '','') (Some ''1:0,2:100'') = [''1:0'', ''2:100'']" by code_simp
  have s: "sscanf_u_u (CHR '':'') ''1:0'' = Some (1, 0)" 
    by (simp add: sscanf_u_u_def scan_u_def skip_sign_def isspace_def isdigit_def Let_def)
  have s': "sscanf_u_u (CHR '':'') ''2:100'' = Some (2, 100)" 
    by (simp add: sscanf_u_u_def scan_u_def skip_sign_def isspace_def isdigit_def Let_def)
  have n: "\<exists>c1. carp_nodes 0 [''1:0'', ''2:100''] c w = Ok c1 w" for c w
    by (simp add: s s' CARP_MAXNODES_def word_le_nat_alt)
  have io: "ioctl_err sample_kernel g c n a m w = Ok (IoFlags 0x8843) (emit (EvIoctl (sock g) c n a) w)" for g c n a m w
    by (simp add: ioctl_err_def ioctl_def sample_kernel_def Let_def)
  have st: "strdup sample_kernel v w = Ok () (emit (EvMalloc (length v + 1)) w)" for v w
    by (simp add: strdup_def alloc_def sample_kernel_def Let_def)
  obtain c1 where "carp_nodes 0 [''1:0'', ''2:100'']
      ((io_carp (IoFlags 0x8843))\<lparr>carpr_vhids := replicate CARP_MAXNODES 0, carpr_advskews := replicate CARP_MAXNODES 0\<rparr>)
      (emit (EvMalloc (length ''1:0,2:100'' + 1)) (emit (EvIoctl (sock sample_ifc) SIOCGVH (ifr_name sample_ifc) IoNone) sample_world)) =
      Ok c1 (emit (EvMalloc (length ''1:0,2:100'' + 1)) (emit (EvIoctl (sock sample_ifc) SIOCGVH (ifr_name sample_ifc) IoNone) sample_world))"
    using n by blast
  then show ?thesis
    unfolding setcarp_nodes_def io st t Let_def andthen.simps by simp
qed

theorem carp_nodes_bounded_witness:
  "\<exists>w'. setcarp_nodes sample_kernel ''1:0,2:100'' 0 sample_ifc sample_world = Ok sample_ifc w' \<and>
     length (strtok_all (CHR '','') (Some ''1:0,2:100'')) \<le> CARP_MAXNODES \<and>
     (\<exists>c t. trace w' = EvIoctl (sock sample_ifc) SIOCSVH (ifr_name sample_ifc) (IoCarp c) # t \<and>
        length (carpr_vhids c) = CARP_MAXNODES \<and> length (carpr_advskews c) = CARP_MAXNODES)"
  using carp_sample carp_nodes_bounded by blast



end
