(* ===== verification/Ifc_Display.thy ===== *)
theory Ifc_Display
  imports Gate
begin

text \<open>
  Output of the interface library that can be given back as input: \<open>print_media_word\<close> of
  \<open>ifcutil.c\<close>, which prints a media word in the syntax of the command line, and
  \<open>timeslot_status\<close>. The main lemma shows that the commands \<open>print_media_word\<close> writes select the
  word it was given.
\<close>

section \<open>Printing a media word\<close>

definition IFM_MODE :: "u32 \<Rightarrow> u32" where "IFM_MODE x = x AND IFM_MMASK"

text \<open>The loop over the options, with \<open>seen_option\<close>.\<close>

fun print_media_options :: "u32 \<Rightarrow> bool \<Rightarrow> (u32 \<times> string) list \<Rightarrow> u32 \<Rightarrow> string" where
  "print_media_options ifmw as_syntax [] seen = []"
| "print_media_options ifmw as_syntax ((wd, t) # desc) seen =
     (if IFM_TYPE_MATCH wd ifmw \<and> IFM_OPTIONS ifmw AND IFM_OPTIONS wd \<noteq> 0 \<and> seen AND IFM_OPTIONS wd = 0 then
        (if seen = 0 then '' '' @ (if as_syntax then ''mediaopt '' else []) else []) @
        (if seen \<noteq> 0 then '','' else []) @ t @ print_media_options ifmw as_syntax desc (seen OR IFM_OPTIONS wd)
      else print_media_options ifmw as_syntax desc seen)"

definition find_mode :: "u32 \<Rightarrow> (u32 \<times> string) option" where
  "find_mode ifmw = find (\<lambda>(wd, t). IFM_TYPE_MATCH wd ifmw \<and> IFM_MODE ifmw = IFM_MODE wd) ifm_mode_descriptions"

definition print_media_word :: "u32 \<Rightarrow> bool \<Rightarrow> bool \<Rightarrow> string" where
  "print_media_word ifmw print_type as_syntax =
     (if print_type then get_media_type_string ifmw @ '' '' else []) @
     (if as_syntax then ''media '' else []) @ get_media_subtype_string ifmw @
     (if IFM_MODE ifmw \<noteq> 0 then case find_mode ifmw of Some (_, t) \<Rightarrow> '' mode '' @ t | None \<Rightarrow> [] else []) @
     print_media_options ifmw as_syntax ifm_option_descriptions 0 @
     (if IFM_INST ifmw \<noteq> 0 then '' instance '' @ show_int (uint (IFM_INST ifmw)) else [])"

section \<open>Names in the tables\<close>

text \<open>\<open>tolower\<close> on the bits of a character, with which the tables are evaluated.\<close>

fun low :: "char \<Rightarrow> char" where
  "low (Char b0 b1 b2 b3 b4 b5 b6 b7) =
     (if \<not> b7 \<and> b6 \<and> \<not> b5 \<and> (b0 \<or> b1 \<or> b2 \<or> b3 \<or> b4) \<and> \<not> (b4 \<and> b3 \<and> (b2 \<or> b1 \<and> b0))
      then Char b0 b1 b2 b3 b4 True b6 b7 else Char b0 b1 b2 b3 b4 b5 b6 b7)"

lemma tolower_low [code]: "tolower c = low c"
proof (cases c)
  case (Char b0 b1 b2 b3 b4 b5 b6 b7)
  show ?thesis unfolding Char
    by (cases b0; cases b1; cases b2; cases b3; cases b4; cases b5; cases b6; cases b7;
      simp add: tolower_def isupper_def char_of_def bit_0)
qed

text \<open>The names that are visible for a type are pairwise different, also without regard to case.\<close>

definition names_for :: "u32 \<Rightarrow> (u32 \<times> string) list \<Rightarrow> string list" where
  "names_for ty desc = map (\<lambda>(_, t). map tolower t) (filter (\<lambda>(wd, _). IFM_TYPE_MATCH wd ty) desc)"

definition media_types :: "u32 list" where
  "media_types = [0x20, 0x60, 0x80, 0xa0, 0xc0]"

lemma lookup_own_name:
  assumes "distinct (names_for ty desc)" "(wd, t) \<in> set desc" "IFM_TYPE_MATCH wd ty"
  shows "lookup_media_word desc ty t = Some wd"
  using assms
proof (induction desc)
  case (Cons e desc)
  obtain wd' t' where e: "e = (wd', t')" by fastforce
  show ?case
  proof (cases "IFM_TYPE_MATCH wd' ty \<and> map tolower t' = map tolower t")
    case True
    have "e = (wd, t)"
    proof (rule ccontr)
      assume "e \<noteq> (wd, t)"
      with Cons.prems(2) have "(wd, t) \<in> set desc" by auto
      with Cons.prems(3) have "map tolower t \<in> set (names_for ty desc)" by (force simp: names_for_def)
      with Cons.prems(1) True e show False by (simp add: names_for_def)
    qed
    with Cons.prems(3) show ?thesis by (simp add: lookup_media_word_def strcasecmp_def)
  next
    case False
    with e Cons.prems(2,3) have "(wd, t) \<in> set desc" by auto
    moreover have "distinct (names_for ty desc)" using Cons.prems(1) e by (auto simp: names_for_def split: if_splits)
    ultimately have "lookup_media_word desc ty t = Some wd" using Cons.IH Cons.prems(3) by blast
    with False e show ?thesis by (auto simp: lookup_media_word_def strcasecmp_def)
  qed
qed simp

lemma option_names: "list_all (\<lambda>ty. distinct (names_for ty ifm_option_descriptions)) media_types"
  by code_simp

lemma mode_names: "list_all (\<lambda>ty. distinct (names_for ty ifm_mode_descriptions)) media_types"
  by code_simp

text \<open>For the long table of subtypes the names are compared by a number made of each.\<close>

definition name_key :: "string \<Rightarrow> int" where
  "name_key s = foldr (\<lambda>c a. of_char c + 2 * a) s 0"

definition subtype_keys :: "(u32 \<times> int) list" where
  "subtype_keys = [(0x0, 111331), (0x0, 1683), (0x1, 6687), (0x2, 1580), (0x23, 13809), (0x23, 223857), (0x23, 797),
     (0x23, 3333), (0x24, 9585), (0x24, 198385), (0x24, 714), (0x24, 3001), (0x25, 9777),
     (0x25, 208049), (0x25, 751), (0x25, 3149), (0x26, 58385), (0x26, 3185), (0x27, 56593),
     (0x27, 3073), (0x28, 40977), (0x28, 2097), (0x29, 54289), (0x29, 2929), (0x2a, 40465),
     (0x2a, 2065), (0x2b, 116561), (0x2b, 6401), (0x2c, 57265), (0x2c, 795), (0x2c, 3325),
     (0x2d, 26737), (0x2d, 318), (0x2d, 1417), (0x2e, 114769), (0x2e, 6289), (0x2f, 112465),
     (0x2f, 6145), (0x30, 55377), (0x30, 2577), (0x30, 116817), (0x30, 6417), (0x31, 19362),
     (0x31, 2328), (0x32, 56045), (0x32, 3245), (0x32, 104813), (0x33, 56941), (0x33, 3301),
     (0x33, 106605), (0x34, 83053), (0x34, 4933), (0x34, 158829), (0x35, 116572), (0x35, 6412),
     (0x36, 27885), (0x36, 1485), (0x36, 48493), (0x37, 52069), (0x37, 3221), (0x63, 206421),
     (0x63, 741), (0x64, 103319), (0x64, 735), (0x65, 797), (0x65, 1539), (0x83, 506), (0x84, 510),
     (0x85, 530), (0x86, 542), (0x87, 918), (0x88, 526), (0x89, 930), (0x8a, 2451), (0x8b, 2499),
     (0x8c, 3971), (0x8d, 4163), (0x8e, 4051), (0x8f, 4131), (0x90, 4211), (0x91, 4099), (0x92, 4067),
     (0xa3, 214), (0xa4, 6274), (0xa5, 199), (0xa6, 13427), (0xa7, 6259), (0xa8, 217907), (0xa9, 218),
     (0xaa, 3686), (0xab, 203), (0xac, 13367), (0xad, 13399), (0xae, 608115)]"

lemma subtype_keys_spec: "map (\<lambda>(wd, t). (wd, name_key (map tolower t))) ifm_subtype_descriptions = subtype_keys"
  by code_simp

lemma distinct_subtype_keys:
  assumes "distinct (map snd (filter (\<lambda>(wd, _). IFM_TYPE_MATCH wd ty) subtype_keys))"
  shows "distinct (names_for ty ifm_subtype_descriptions)"
proof -
  have "map snd (filter (\<lambda>(wd, _). IFM_TYPE_MATCH wd ty) subtype_keys) = map name_key (names_for ty ifm_subtype_descriptions)"
    unfolding names_for_def subtype_keys_spec[symmetric] by (simp add: filter_map comp_def case_prod_beta')
  with assms show ?thesis by (simp add: distinct_map)
qed

lemma subtype_keys_distinct:
  "list_all (\<lambda>ty. distinct (map snd (filter (\<lambda>(wd, _). IFM_TYPE_MATCH wd ty) subtype_keys))) media_types"
  by code_simp

lemma subtype_names: "list_all (\<lambda>ty. distinct (names_for ty ifm_subtype_descriptions)) media_types"
  using subtype_keys_distinct distinct_subtype_keys by (auto simp: list_all_iff)

section \<open>Words of a table\<close>

text \<open>A word of the tables of subtypes and modes has no other fields; an option is a single bit.\<close>

lemma subtype_words: "list_all (\<lambda>(wd, _). wd = IFM_TYPE wd OR IFM_SUBTYPE wd) ifm_subtype_descriptions"
  by code_simp

lemma mode_words: "list_all (\<lambda>(wd, _). wd = IFM_TYPE wd OR IFM_MODE wd) ifm_mode_descriptions"
  by code_simp

definition option_bits :: "u32 list" where
  "option_bits = [0x100, 0x200, 0x400, 0x800, 0x1000, 0x2000, 0x100000, 0x200000, 0x1000000, 0x2000000, 0x4000000, 0x8000000]"

definition option_bit :: "u32 \<Rightarrow> bool" where
  "option_bit wd \<longleftrightarrow> IFM_OPTIONS wd \<in> set option_bits"

lemma option_bitD: "option_bit wd \<Longrightarrow> \<exists>k. IFM_OPTIONS wd = 2 ^ k"
proof -
  assume o: "option_bit wd"
  have e: "option_bits = map (\<lambda>k. 2 ^ k) [8, 9, 10, 11, 12, 13, 20, 21, 24, 25, 26, 27]" by (simp add: option_bits_def)
  show ?thesis using o unfolding option_bit_def e set_map by blast
qed

lemma option_words: "list_all (\<lambda>(wd, t). option_bit wd) ifm_option_descriptions"
  by code_simp

lemma option_texts: "list_all (\<lambda>(wd, t). t \<noteq> [] \<and> CHR '','' \<notin> set t) ifm_option_descriptions"
  by code_simp

section \<open>Options\<close>

text \<open>The entries that are printed.\<close>

fun shown :: "u32 \<Rightarrow> (u32 \<times> string) list \<Rightarrow> u32 \<Rightarrow> (u32 \<times> string) list" where
  "shown m [] seen = []"
| "shown m ((wd, t) # desc) seen =
     (if IFM_TYPE_MATCH wd m \<and> IFM_OPTIONS m AND IFM_OPTIONS wd \<noteq> 0 \<and> seen AND IFM_OPTIONS wd = 0
      then (wd, t) # shown m desc (seen OR IFM_OPTIONS wd) else shown m desc seen)"

lemma print_shown:
  "print_media_options m True desc seen =
     (if shown m desc seen = [] then []
      else (if seen = 0 then '' mediaopt '' else '','') @ join '','' (map snd (shown m desc seen)))"
proof (induction desc arbitrary: seen)
  case (Cons e desc)
  obtain wd t where e: "e = (wd, t)" by fastforce
  show ?case
  proof (cases "IFM_TYPE_MATCH wd m \<and> IFM_OPTIONS m AND IFM_OPTIONS wd \<noteq> 0 \<and> seen AND IFM_OPTIONS wd = 0")
    case True
    then have "seen OR IFM_OPTIONS wd \<noteq> 0" by (auto simp: or_eq_0_iff)
    with True e Cons[of "seen OR IFM_OPTIONS wd"] show ?thesis
      by (cases "shown m desc (seen OR IFM_OPTIONS wd)") auto
  next
    case False
    with e Cons[of seen] show ?thesis by auto
  qed
qed simp

definition or_all :: "u32 list \<Rightarrow> u32" where
  "or_all ws = foldr (OR) ws 0"

definition option_mask :: "u32 \<Rightarrow> (u32 \<times> string) list \<Rightarrow> u32" where
  "option_mask m desc = or_all (map (IFM_OPTIONS \<circ> fst) (filter (\<lambda>(wd, _). IFM_TYPE_MATCH wd m) desc))"

lemma bit_or_all: "bit (or_all ws) n \<longleftrightarrow> (\<exists>x\<in>set ws. bit x n)"
  by (induction ws) (auto simp: or_all_def bit_simps)

lemma shown_mask:
  assumes "list_all (\<lambda>(wd, t). option_bit wd) desc"
  shows "seen OR or_all (map (IFM_OPTIONS \<circ> fst) (shown m desc seen)) = seen OR (IFM_OPTIONS m AND option_mask m desc)"
  using assms
proof (induction desc arbitrary: seen)
  case Nil
  then show ?case by (simp add: or_all_def option_mask_def)
next
  case (Cons e desc)
  obtain wd t where e: "e = (wd, t)" by fastforce
  obtain k where k: "IFM_OPTIONS wd = 2 ^ k" using Cons.prems e option_bitD[of wd] by auto
  have IH: "s OR or_all (map (IFM_OPTIONS \<circ> fst) (shown m desc s)) = s OR (IFM_OPTIONS m AND option_mask m desc)" for s
    by (rule Cons.IH) (use Cons.prems in simp)
  show ?case
  proof (cases "IFM_TYPE_MATCH wd m \<and> bit (IFM_OPTIONS m) k \<and> \<not> bit seen k")
    case True
    have "seen OR or_all (map (IFM_OPTIONS \<circ> fst) (shown m (e # desc) seen)) =
        (seen OR 2 ^ k) OR or_all (map (IFM_OPTIONS \<circ> fst) (shown m desc (seen OR 2 ^ k)))"
      using True by (simp add: e k and_exp_eq_0_iff_not_bit or_all_def or.assoc)
    also have "\<dots> = (seen OR 2 ^ k) OR (IFM_OPTIONS m AND option_mask m desc)" by (rule IH)
    also have "\<dots> = seen OR (IFM_OPTIONS m AND (2 ^ k OR option_mask m desc))"
      using True by (intro bit_word_eqI) (auto simp: bit_simps)
    also have "2 ^ k OR option_mask m desc = option_mask m (e # desc)"
      using True by (simp add: e k option_mask_def or_all_def)
    finally show ?thesis .
  next
    case False
    then have s: "shown m (e # desc) seen = shown m desc seen" by (auto simp: e k and_exp_eq_0_iff_not_bit)
    have "seen OR (IFM_OPTIONS m AND option_mask m (e # desc)) = seen OR (IFM_OPTIONS m AND option_mask m desc)"
      using False by (intro bit_word_eqI) (auto simp: bit_simps e k option_mask_def or_all_def)
    then show ?thesis unfolding s IH[of seen] ..
  qed
qed

lemma strtok_all_join:
  "list_all (\<lambda>t. t \<noteq> [] \<and> d \<notin> set t) ts \<Longrightarrow> ts \<noteq> [] \<Longrightarrow> strtok_all d (Some (join [d] ts)) = ts"
proof (induction ts)
  case (Cons t ts)
  have t: "t \<noteq> []" "\<forall>c\<in>set t. c \<noteq> d" using Cons.prems by auto
  have dw: "dropWhile (\<lambda>c. c = d) (t @ r) = t @ r" for r using t by (cases t) auto
  have tw: "takeWhile (\<lambda>c. c \<noteq> d) (t @ r) = t @ takeWhile (\<lambda>c. c \<noteq> d) r"
    "dropWhile (\<lambda>c. c \<noteq> d) (t @ r) = dropWhile (\<lambda>c. c \<noteq> d) r" for r
    using t by (simp_all add: takeWhile_append2 dropWhile_append2)
  have sr: "strtok_r d (Some (t @ r)) = Some (t @ takeWhile (\<lambda>c. c \<noteq> d) r,
      case dropWhile (\<lambda>c. c \<noteq> d) r of [] \<Rightarrow> None | _ # r \<Rightarrow> Some r)" for r
    using t dw[of r] tw[of r] by (cases "t @ r") (auto simp: strtok_r_def)
  show ?case
  proof (cases ts)
    case Nil
    then show ?thesis using sr[of "[]"] by (simp add: strtok_all.simps[of d "Some t"] strtok_all.simps[of d None] strtok_r_def)
  next
    case (Cons t' ts')
    then have "strtok_r d (Some (join [d] (t # ts))) = Some (t, Some (join [d] ts))" using sr[of "d # join [d] ts"] by simp
    with Cons Cons.IH Cons.prems show ?thesis by (subst strtok_all.simps) simp
  qed
qed simp

lemma or_options_named:
  assumes "distinct (names_for ty ifm_option_descriptions)"
    and "\<forall>(wd, t)\<in>set es. (wd, t) \<in> set ifm_option_descriptions \<and> IFM_TYPE_MATCH wd ty"
  shows "or_options ty (map snd es) r w = Ok (r OR or_all (map (IFM_OPTIONS \<circ> fst) es)) w"
  using assms(2)
proof (induction es arbitrary: r)
  case (Cons e es)
  obtain wd t where e: "e = (wd, t)" by fastforce
  with Cons.prems lookup_own_name[OF assms(1)] have "lookup_media_word ifm_option_descriptions ty t = Some wd" by auto
  with Cons e show ?case by (simp add: or_all_def or.assoc)
qed (simp add: or_all_def)

lemma shown_subset: "e \<in> set (shown m desc seen) \<Longrightarrow> e \<in> set desc \<and> IFM_TYPE_MATCH (fst e) m"
  by (induction m desc seen rule: shown.induct) (auto split: if_splits)

lemma match_type: "IFM_TYPE_MATCH wd (IFM_TYPE m) \<longleftrightarrow> IFM_TYPE_MATCH wd m"
  by (simp add: IFM_TYPE_MATCH_def IFM_TYPE_def and.assoc)

lemma and_covered: "x AND NOT y = 0 \<Longrightarrow> x AND y = (x :: u32)"
  by (metis and.right_neutral bit.conj_disj_distrib bit.disj_cancel_right or.left_neutral or.commute)

text \<open>The options that are printed are read back.\<close>

lemma get_shown_options:
  assumes "IFM_TYPE m \<in> set media_types" "shown m ifm_option_descriptions 0 \<noteq> []" "\<forall>t. k_mem K t"
    "IFM_OPTIONS m AND NOT (option_mask m ifm_option_descriptions) = 0"
  shows "\<exists>w'. get_media_options K (IFM_TYPE m) (join '','' (map snd (shown m ifm_option_descriptions 0))) w = Ok (IFM_OPTIONS m) w'"
proof -
  let ?es = "shown m ifm_option_descriptions 0"
  have es: "\<forall>(wd, t)\<in>set ?es. (wd, t) \<in> set ifm_option_descriptions \<and> IFM_TYPE_MATCH wd (IFM_TYPE m)"
    using shown_subset[of _ m ifm_option_descriptions 0] by (fastforce simp: match_type)
  then have "list_all (\<lambda>t. t \<noteq> [] \<and> CHR '','' \<notin> set t) (map snd ?es)"
    using option_texts by (fastforce simp: list_all_iff)
  then have tok: "strtok_all (CHR '','') (Some (join '','' (map snd ?es))) = map snd ?es"
    by (rule strtok_all_join) (use assms(2) in simp)
  have "or_all (map (IFM_OPTIONS \<circ> fst) ?es) = IFM_OPTIONS m AND option_mask m ifm_option_descriptions"
    using shown_mask[OF option_words, of 0 m] by simp
  also have "\<dots> = IFM_OPTIONS m"
    by (rule and_covered[OF assms(4)])
  finally have "or_options (IFM_TYPE m) (map snd ?es) 0 w1 = Ok (IFM_OPTIONS m) w1" for w1
    using or_options_named[OF _ es, of 0 w1] option_names assms(1) by (simp add: list_all_iff)
  with assms(3) tok show ?thesis by (simp add: get_media_options_def alloc_def Let_def)
qed

section \<open>The fields of a word\<close>

lemma find_SomeD: "find P xs = Some x \<Longrightarrow> P x \<and> x \<in> set xs"
  by (auto simp: find_Some_iff)

lemmas ifm_fields = IFM_TYPE_def IFM_SUBTYPE_def IFM_OPTIONS_def IFM_MODE_def IFM_INST_def ifm_masks

lemma inst_field: "push_bit 28 (IFM_INST m) = m AND 0xf0000000"
proof -
  have "(0xf0000000 :: u32) = push_bit 28 (mask 4)" by (simp add: mask_eq_exp_minus_1)
  note e = this
  show ?thesis unfolding IFM_INST_def IFM_IMASK_def e by (intro bit_word_eqI) (auto simp: bit_simps)
qed

lemma word_fields:
  assumes "(m :: u32) AND 0x00080000 = 0"
  shows "(m AND 0xff) OR (m AND 0xf0000000) OR (m AND 0x00070000) OR (m AND 0x0ff0ff00) = m"
proof -
  have "0x00080000 OR 0xff OR 0xf0000000 OR 0x00070000 OR 0x0ff0ff00 = (- 1 :: u32)" by simp
  then have "m AND (0x00080000 OR 0xff OR 0xf0000000 OR 0x00070000 OR 0x0ff0ff00) = m" by (simp only: and.right_neutral)
  then show ?thesis using assms unfolding bit.conj_disj_distrib by simp
qed

lemmas ifm_distrib = bit.conj_disj_distrib bit.conj_disj_distrib2 and.assoc

text \<open>A word the tables describe completely.\<close>

definition media_known :: "u32 \<Rightarrow> bool" where
  "media_known m \<longleftrightarrow> IFM_TYPE m \<in> set media_types \<and>
     list_ex (\<lambda>(wd, _). IFM_TYPE_MATCH wd m \<and> IFM_SUBTYPE wd = IFM_SUBTYPE m) ifm_subtype_descriptions \<and>
     (IFM_MODE m = 0 \<or> find_mode m \<noteq> None) \<and>
     IFM_OPTIONS m AND NOT (option_mask m ifm_option_descriptions) = 0 \<and> m AND 0x00080000 = 0"

lemma type_sub: "IFM_TYPE_MATCH wd m \<Longrightarrow> IFM_TYPE m OR IFM_TYPE wd = IFM_TYPE m"
  by (auto simp: IFM_TYPE_MATCH_def)

lemma type_subtype: "IFM_TYPE m OR IFM_SUBTYPE m = m AND 0xff"
  unfolding ifm_fields bit.conj_disj_distrib[symmetric] by simp

lemma get_printed_subtype:
  assumes "media_known m"
  shows "\<exists>wd. (\<forall>w. get_media_subtype (IFM_TYPE m) (get_media_subtype_string m) w = Ok wd w) \<and> IFM_TYPE m OR wd = m AND 0xff"
proof -
  let ?P = "\<lambda>(wd, t). IFM_TYPE_MATCH wd m \<and> IFM_SUBTYPE wd = IFM_SUBTYPE m"
  have "find ?P ifm_subtype_descriptions \<noteq> None"
    using assms by (auto simp: media_known_def find_None_iff list_ex_iff)
  then obtain wd t where f: "find ?P ifm_subtype_descriptions = Some (wd, t)" by auto
  then have wd: "(wd, t) \<in> set ifm_subtype_descriptions" "IFM_TYPE_MATCH wd m" "IFM_SUBTYPE wd = IFM_SUBTYPE m"
    by (auto dest: find_SomeD)
  have "lookup_media_word ifm_subtype_descriptions (IFM_TYPE m) t = Some wd"
    by (rule lookup_own_name) (use assms subtype_names wd in \<open>auto simp: media_known_def list_all_iff match_type\<close>)
  moreover have "wd = IFM_TYPE wd OR IFM_SUBTYPE wd" using wd(1) subtype_words by (auto simp: list_all_iff)
  then have "IFM_TYPE m OR wd = IFM_TYPE m OR IFM_SUBTYPE m" using type_sub[OF wd(2)] wd(3) by (metis or.assoc)
  ultimately show ?thesis using f type_subtype[of m] by (simp add: get_media_subtype_def get_media_subtype_string_def)
qed

lemma get_printed_mode:
  assumes "media_known m" "IFM_MODE m \<noteq> 0"
  shows "\<exists>wd t. find_mode m = Some (wd, t) \<and> (\<forall>w. get_media_mode (IFM_TYPE m) t w = Ok wd w) \<and>
    IFM_TYPE m OR wd = IFM_TYPE m OR IFM_MODE m"
proof -
  obtain wd t where f: "find_mode m = Some (wd, t)" using assms by (auto simp: media_known_def)
  then have wd: "(wd, t) \<in> set ifm_mode_descriptions" "IFM_TYPE_MATCH wd m" "IFM_MODE wd = IFM_MODE m"
    by (auto simp: find_mode_def dest: find_SomeD)
  have "lookup_media_word ifm_mode_descriptions (IFM_TYPE m) t = Some wd"
    by (rule lookup_own_name) (use assms mode_names wd in \<open>auto simp: media_known_def list_all_iff match_type\<close>)
  moreover have "wd = IFM_TYPE wd OR IFM_MODE wd" using wd(1) mode_words by (auto simp: list_all_iff)
  then have "IFM_TYPE m OR wd = IFM_TYPE m OR IFM_MODE m" using type_sub[OF wd(2)] wd(3) by (metis or.assoc)
  ultimately show ?thesis using f by (simp add: get_media_mode_def)
qed

section \<open>Giving the words back\<close>

text \<open>The command line of \<open>ifconfig\<close> on media commands, each with its argument.\<close>

fun apply_media :: "kernel \<Rightarrow> string list \<Rightarrow> ifc \<Rightarrow> world \<Rightarrow> ifc outcome" where
  "apply_media K (c # v # ws) g w =
     (if c = ''media'' then andthen (setmedia K (Some v) 0 g w) (\<lambda>g1. apply_media K ws (note_action A_MEDIA g1))
      else if c = ''mode'' then andthen (setmediamode K v 0 g w) (\<lambda>g1. apply_media K ws (note_action A_MEDIAMODE g1))
      else if c = ''mediaopt'' then andthen (setmediaopt K v 0 g w) (\<lambda>g1. apply_media K ws (note_action A_MEDIAOPTSET g1))
      else andthen (setmediainst K v 0 g w) (\<lambda>g1. apply_media K ws (note_action A_MEDIAINST g1)))"
| "apply_media K _ g w = Ok g w"

text \<open>The globals while media commands run, and the word \<open>media\<close> leaves behind.\<close>

definition mst :: "ifc \<Rightarrow> u32 \<Rightarrow> u32 \<Rightarrow> u32 \<Rightarrow> ifc" where
  "mst g c opt a = g\<lparr>med := \<lparr>media_current = c, mediaopt_set = opt, mediaopt_clear = 0\<rparr>, actions := a\<rparr>"

abbreviation base_word :: "u32 \<Rightarrow> u32 \<Rightarrow> u32" where
  "base_word m cur \<equiv> (m AND 0xff) OR (cur AND 0xf0000000)"

lemma type_nonzero: "IFM_TYPE m \<in> set media_types \<Longrightarrow> IFM_TYPE m \<noteq> 0"
  by (auto simp: media_types_def)

lemma base_fields:
  "IFM_TYPE (base_word m cur) = IFM_TYPE m" "IFM_SUBTYPE (base_word m cur) = IFM_SUBTYPE m"
  "IFM_OPTIONS (base_word m cur) = 0" "IFM_INST (base_word m cur) = IFM_INST cur"
  "IFM_TYPE (base_word m cur OR IFM_MODE m) = IFM_TYPE m"
  by (simp_all add: ifm_fields ifm_distrib)

lemma apply_media_subtype:
  assumes k: "media_known m" and c: "IFM_TYPE cur = IFM_TYPE m"
    and K: "\<forall>t. k_ioctl K t = Inr (IoInt (sint cur))"
    and g: "actions g = 0" "mediaopt_set (med g) = 0" "mediaopt_clear (med g) = 0"
  shows "\<exists>w1. apply_media K (''media'' # get_media_subtype_string m # ws) g w = apply_media K ws (mst g (base_word m cur) 0 0x8000001) w1"
proof -
  have t: "IFM_TYPE m \<noteq> 0" using k type_nonzero by (simp add: media_known_def)
  obtain wd where wd: "\<forall>w'. get_media_subtype (IFM_TYPE m) (get_media_subtype_string m) w' = Ok wd w'"
    "IFM_TYPE m OR wd = m AND 0xff"
    using get_printed_subtype[OF k] by blast
  have i: "init_current_media K g w = Ok (set_current cur g) (emit (EvIoctl (sock g) SIOCGIFMEDIA (name_of g) IoNone) w)"
    using K g t c by (simp add: init_current_media_def ioctl_def Let_def set_current_def)
  have m: "IFM_MAKEWORD (IFM_TYPE m) wd 0 (IFM_INST cur) = base_word m cur"
    by (simp add: IFM_MAKEWORD_def inst_field or.assoc flip: wd(2))
  have md: "(med g)\<lparr>media_current := x\<rparr> = \<lparr>media_current = x, mediaopt_set = 0, mediaopt_clear = 0\<rparr>" for x
    using g by (cases "med g") simp
  show ?thesis
    using g(1) c wd(1) m by (auto simp: setmedia_def i set_current_def Let_def note_action_def mst_def action_defs md)
qed

lemma init_again:
  "actions g AND 0x17 \<noteq> 0 \<Longrightarrow> IFM_TYPE (media_current (med g)) \<noteq> 0 \<Longrightarrow> init_current_media K g w = Ok g w"
  by (simp add: init_current_media_def action_defs)

lemma apply_media_mode:
  assumes k: "media_known m" and md: "IFM_MODE m \<noteq> 0"
  shows "\<exists>wd t. find_mode m = Some (wd, t) \<and>
    (\<forall>ws w. apply_media K (''mode'' # t # ws) (mst g (base_word m cur) 0 0x8000001) w =
      apply_media K ws (mst g (base_word m cur OR IFM_MODE m) 0 0x8000011) w)"
proof -
  obtain wd t where wd: "find_mode m = Some (wd, t)" "\<forall>w. get_media_mode (IFM_TYPE m) t w = Ok wd w"
    "IFM_TYPE m OR wd = IFM_TYPE m OR IFM_MODE m"
    using get_printed_mode[OF k md] by blast
  have t: "IFM_TYPE m \<noteq> 0" using k type_nonzero by (simp add: media_known_def)
  have i: "init_current_media K (mst g (base_word m cur) 0 0x8000001) w = Ok (mst g (base_word m cur) 0 0x8000001) w" for w
    by (rule init_again) (simp_all add: mst_def base_fields t)
  have "IFM_MAKEWORD (IFM_TYPE m) (IFM_SUBTYPE m) 0 (IFM_INST cur) OR wd = base_word m cur OR IFM_MODE m"
  proof -
    have "IFM_MAKEWORD (IFM_TYPE m) (IFM_SUBTYPE m) 0 (IFM_INST cur) OR wd =
        (IFM_TYPE m OR wd) OR IFM_SUBTYPE m OR (cur AND 0xf0000000)"
      by (simp add: IFM_MAKEWORD_def inst_field ac_simps)
    also have "\<dots> = (IFM_TYPE m OR IFM_SUBTYPE m) OR (cur AND 0xf0000000) OR IFM_MODE m"
      unfolding wd(3) by (simp add: ac_simps)
    finally show ?thesis by (simp add: ac_simps flip: type_subtype)
  qed
  with wd(2) have "setmediamode K t 0 (mst g (base_word m cur) 0 0x8000001) w =
      Ok (mst g (base_word m cur OR IFM_MODE m) 0 0x8000001) w" for w
    unfolding setmediamode_def i andthen.simps by (simp add: action_defs Let_def mst_def set_current_def base_fields)
  with wd(1) show ?thesis by (simp add: note_action_def action_defs mst_def)
qed

lemma apply_media_options:
  assumes k: "media_known m" and s: "shown m ifm_option_descriptions 0 \<noteq> []" and K: "\<forall>t. k_mem K t"
    and c: "IFM_TYPE c = IFM_TYPE m" and a: "a = 0x8000001 \<or> a = 0x8000011"
  shows "\<exists>w1. apply_media K (''mediaopt'' # join '','' (map snd (shown m ifm_option_descriptions 0)) # ws) (mst g c 0 a) w =
      apply_media K ws (mst g c (IFM_OPTIONS m) (a OR 2)) w1"
proof -
  have t: "IFM_TYPE m \<noteq> 0" using k type_nonzero by (simp add: media_known_def)
  have i: "init_current_media K (mst g c 0 a) w = Ok (mst g c 0 a) w"
    by (rule init_again) (use a in \<open>auto simp: mst_def c t\<close>)
  obtain w' where "get_media_options K (IFM_TYPE m) (join '','' (map snd (shown m ifm_option_descriptions 0))) w = Ok (IFM_OPTIONS m) w'"
    using get_shown_options[OF _ s K] k unfolding media_known_def by blast
  with a have "setmediaopt K (join '','' (map snd (shown m ifm_option_descriptions 0))) 0 (mst g c 0 a) w = Ok (mst g c (IFM_OPTIONS m) a) w'"
    unfolding setmediaopt_def i andthen.simps by (auto simp: action_defs mst_def c)
  with a show ?thesis by (auto simp: note_action_def action_defs mst_def)
qed

lemma inst_small: "uint (IFM_INST m) \<le> 15"
proof -
  have "IFM_INST m = take_bit 4 (IFM_INST m)"
    unfolding IFM_INST_def by (intro bit_word_eqI) (auto simp: bit_simps dest: bit_imp_le_length)
  then have "uint (IFM_INST m) = take_bit 4 (uint (IFM_INST m))" by (metis unsigned_take_bit_eq)
  also have "\<dots> < 16" using take_bit_int_less_exp[of 4 "uint (IFM_INST m)"] by simp
  finally show ?thesis by simp
qed

lemma apply_media_instance:
  assumes k: "media_known m" and a: "a = 0x8000001 \<or> a = 0x8000003"
  shows "apply_media K (''instance'' # show_int (uint (IFM_INST m)) # ws) (mst g (base_word m cur) opt a) w =
      apply_media K ws (mst g (base_word m m) opt (a OR 8)) w"
proof -
  have t: "IFM_TYPE m \<noteq> 0" using k type_nonzero by (simp add: media_known_def)
  let ?g = "mst g (base_word m cur) opt a"
  have i: "init_current_media K ?g w = Ok ?g w"
    by (rule init_again) (use a in \<open>auto simp: mst_def base_fields t\<close>)
  have n: "num_arg (show_int (uint (IFM_INST m))) 0 15 fmt w = Ok (uint (IFM_INST m)) w" for fmt
    using inst_small[of m] by (simp add: num_arg_spec LLONG_MIN_def LLONG_MAX_def num_ref_show_int)
  have "IFM_MAKEWORD (IFM_TYPE m) (IFM_SUBTYPE m) 0 (IFM_INST m) = base_word m m"
    by (simp add: IFM_MAKEWORD_def inst_field or.assoc flip: type_subtype)
  with a have "setmediainst K (show_int (uint (IFM_INST m))) 0 ?g w = Ok (mst g (base_word m m) opt a) w"
    unfolding setmediainst_def i andthen.simps by (auto simp: n action_defs Let_def mst_def set_current_def base_fields)
  with a show ?thesis by (auto simp: note_action_def action_defs mst_def)
qed

text \<open>The words \<open>print_media_word\<close> writes.\<close>

definition media_words :: "u32 \<Rightarrow> string list" where
  "media_words m = [''media'', get_media_subtype_string m] @
     (if IFM_MODE m \<noteq> 0 then [''mode'', snd (the (find_mode m))] else []) @
     (if shown m ifm_option_descriptions 0 \<noteq> []
      then [''mediaopt'', join '','' (map snd (shown m ifm_option_descriptions 0))] else []) @
     (if IFM_INST m \<noteq> 0 then [''instance'', show_int (uint (IFM_INST m))] else [])"

lemma print_media_words: "media_known m \<Longrightarrow> print_media_word m False True = join '' '' (media_words m)"
  by (auto simp: print_media_word_def media_words_def print_shown media_known_def)

lemma final_word:
  assumes "media_known m" "IFM_INST m = 0 \<or> IFM_MODE m = 0" "IFM_INST m = 0 \<longrightarrow> IFM_INST cur = 0"
  shows "((if IFM_INST m \<noteq> 0 then base_word m m else if IFM_MODE m \<noteq> 0 then base_word m cur OR IFM_MODE m else base_word m cur) OR
     (if shown m ifm_option_descriptions 0 \<noteq> [] then IFM_OPTIONS m else 0)) AND NOT 0 = m"
proof -
  have "IFM_OPTIONS m = or_all (map (IFM_OPTIONS \<circ> fst) (shown m ifm_option_descriptions 0))"
  proof -
    have "IFM_OPTIONS m AND option_mask m ifm_option_descriptions = IFM_OPTIONS m"
      by (rule and_covered) (use assms(1) in \<open>simp add: media_known_def\<close>)
    then show ?thesis using shown_mask[OF option_words, of 0 m] by simp
  qed
  then have o: "(if shown m ifm_option_descriptions 0 \<noteq> [] then IFM_OPTIONS m else 0) = m AND 0x0ff0ff00"
    by (auto simp: or_all_def IFM_OPTIONS_def IFM_OGMASK_def)
  have i: "cur AND 0xf0000000 = m AND 0xf0000000" if "IFM_INST m = 0"
    using that assms(3) inst_field[of m] inst_field[of cur] by simp
  have md: "IFM_MODE m = m AND 0x00070000" by (simp add: IFM_MODE_def IFM_MMASK_def)
  have f: "(m AND 0xff) OR (m AND 0xf0000000) OR (m AND 0x00070000) OR (m AND 0x0ff0ff00) = m"
    by (rule word_fields) (use assms(1) in \<open>simp add: media_known_def\<close>)
  show ?thesis
  proof (cases "IFM_INST m = 0")
    case True
    show ?thesis unfolding o i[OF True] md using True f by (auto simp: or.assoc)
  next
    case False
    then have "m AND 0x00070000 = 0" using assms(2) md by simp
    with f have "(m AND 0xff) OR (m AND 0xf0000000) OR (m AND 0x0ff0ff00) = m" by simp
    with False show ?thesis unfolding o by (simp add: or.assoc)
  qed
qed

lemma apply_media_words:
  assumes k: "media_known m" and c: "IFM_TYPE cur = IFM_TYPE m"
    and one: "IFM_INST m = 0 \<or> IFM_MODE m = 0"
    and K: "\<forall>t. k_ioctl K t = Inr (IoInt (sint cur))" "\<forall>t. k_mem K t"
    and g: "actions g = 0" "mediaopt_set (med g) = 0" "mediaopt_clear (med g) = 0"
  shows "\<exists>a w'. a AND 1 = 1 \<and> apply_media K (media_words m) g w = Ok (mst g
     (if IFM_INST m \<noteq> 0 then base_word m m else if IFM_MODE m \<noteq> 0 then base_word m cur OR IFM_MODE m else base_word m cur)
     (if shown m ifm_option_descriptions 0 \<noteq> [] then IFM_OPTIONS m else 0) a) w'"
proof -
  let ?es = "shown m ifm_option_descriptions 0"
  define W2 where "W2 = (if IFM_INST m \<noteq> 0 then [''instance'', show_int (uint (IFM_INST m))] else [])"
  define W1 where "W1 = (if ?es \<noteq> [] then [''mediaopt'', join '','' (map snd ?es)] else []) @ W2"
  define W0 where "W0 = (if IFM_MODE m \<noteq> 0 then [''mode'', snd (the (find_mode m))] else []) @ W1"
  define c1 where "c1 = (if IFM_MODE m \<noteq> 0 then base_word m cur OR IFM_MODE m else base_word m cur)"
  define a1 :: u32 where "a1 = (if IFM_MODE m \<noteq> 0 then 0x8000011 else 0x8000001)"
  define o1 where "o1 = (if ?es \<noteq> [] then IFM_OPTIONS m else 0)"
  define a2 where "a2 = (if ?es \<noteq> [] then a1 OR 2 else a1)"
  obtain w1 where 1: "apply_media K (media_words m) g w = apply_media K W0 (mst g (base_word m cur) 0 0x8000001) w1"
    using apply_media_subtype[OF k c K(1) g, of W0 w] by (auto simp: media_words_def W0_def W1_def W2_def)
  have 2: "apply_media K W0 (mst g (base_word m cur) 0 0x8000001) w1 = apply_media K W1 (mst g c1 0 a1) w1"
    using apply_media_mode[OF k, of K g cur] by (auto simp: W0_def c1_def a1_def)
  have t: "IFM_TYPE c1 = IFM_TYPE m" by (simp add: c1_def base_fields)
  have ac: "a1 = 0x8000001 \<or> a1 = 0x8000011" by (simp add: a1_def)
  obtain w2 where 3: "apply_media K W1 (mst g c1 0 a1) w1 = apply_media K W2 (mst g c1 o1 a2) w2"
    using apply_media_options[OF k _ K(2) t ac, of W2 g w1] by (cases "?es = []") (auto simp: W1_def o1_def a2_def)
  have 4: "apply_media K W2 (mst g c1 o1 a2) w2 =
      Ok (mst g (if IFM_INST m \<noteq> 0 then base_word m m else c1) o1 (if IFM_INST m \<noteq> 0 then a2 OR 8 else a2)) w2"
    using apply_media_instance[OF k, of a2 K "[]" g cur o1 w2] one by (auto simp: W2_def c1_def a1_def a2_def)
  have "(if IFM_INST m \<noteq> 0 then a2 OR 8 else a2) AND 1 = 1" by (simp add: a2_def a1_def)
  with 1 2 3 4 show ?thesis unfolding c1_def o1_def by metis
qed


definition media_kernel :: kernel where
  "media_kernel = sample_kernel\<lparr>k_ioctl := (\<lambda>_. Inr (IoInt (sint (0x20 :: u32))))\<rparr>"

lemma sample_media_known: "media_known 0x00100626"
  by code_simp


text \<open>What it prints there.\<close>

lemma sample_media_text: "print_media_word 0x00100626 False True = ''media 100baseTX mediaopt full-duplex,rxpause,txpause''"
  by code_simp

text \<open>The \<open>instance\<close> command builds the word without the mode.\<close>

lemma instance_drops_mode:
  assumes "setmediainst K val d g w = Ok g' w'"
  shows "IFM_MODE (media_current (med g')) = 0"
proof -
  have mk: "IFM_MODE (IFM_MAKEWORD (IFM_TYPE c) (IFM_SUBTYPE c) (IFM_OPTIONS c) i) = 0" for c i
  proof -
    have "push_bit 28 i AND 0x00070000 = (0 :: u32)"
    proof (rule bit_word_eqI)
      fix n assume "n < LENGTH(32)"
      have e: "(0x00070000 :: u32) = push_bit 16 (mask 3)" by (simp add: mask_eq_exp_minus_1)
      show "bit (push_bit 28 i AND (0x00070000 :: u32)) n = bit (0 :: u32) n" unfolding e by (auto simp: bit_simps)
    qed
    then show ?thesis by (simp add: IFM_MAKEWORD_def ifm_fields ifm_distrib)
  qed
  show ?thesis using assms by (auto simp: setmediainst_def andthen_Ok_iff errx_def Let_def set_current_def mk split: if_splits)
qed

section \<open>Time slots\<close>

text \<open>
  \<open>timeslot_status\<close>: the ranges of set bits. The loop goes over the bits of an \<open>unsigned long\<close>, but
  shifts an \<open>int\<close>: from bit 32 on the shift is undefined.
\<close>

definition ts_text :: "string \<Rightarrow> int \<Rightarrow> int \<Rightarrow> string" where
  "ts_text sep start i = (if start = i - 1 then sep @ show_int start else sep @ show_int start @ ''-'' @ show_int (i - 1))"

function ts_show :: "64 word \<Rightarrow> int \<Rightarrow> int \<Rightarrow> string \<Rightarrow> world \<Rightarrow> unit outcome" where
  "ts_show mp i start sep w =
     (if i \<ge> 64 then Ok () (puts_all ((if start \<noteq> - 1 then [ts_text sep start i] else []) @ [[CHR 0x0A]]) w)
      else if i > 31 then Undef ''timeslot_status: shift count'' w
      else
        let on = mp AND scast (push_bit (nat i) 1 :: u32) \<noteq> 0 in
        if start = - 1 \<and> on then ts_show mp (i + 1) i sep w
        else if start \<noteq> - 1 \<and> \<not> on then ts_show mp (i + 1) (- 1) '','' (puts_all [ts_text sep start i] w)
        else ts_show mp (i + 1) start sep w)"
  by pat_completeness auto
termination
  by (relation "measure (\<lambda>(mp, i, start, sep, w). nat (64 - i))") auto

declare ts_show.simps [simp del]

definition timeslot_status :: "kernel \<Rightarrow> ifc \<Rightarrow> world \<Rightarrow> unit outcome" where
  "timeslot_status K g w =
     (case ioctl K (sock g) SIOCGIFTIMESLOT (ifr_name g) IoNone w of
        (None, w1) \<Rightarrow> Ok () w1
      | (Some r, w1) \<Rightarrow> ts_show (io_map r) 0 (- 1) '' '' (puts_all [CHR 0x09 # ''timeslot:''] w1))"

lemma ts_show_undefined: "i \<le> 32 \<Longrightarrow> \<exists>w'. ts_show mp i start sep w = Undef ''timeslot_status: shift count'' w'"
proof (induction mp i start sep w rule: ts_show.induct)
  case (1 mp i start sep w)
  show ?case
  proof (cases "i = 32")
    case False
    with 1 show ?thesis by (subst ts_show.simps) (auto simp: Let_def)
  qed (simp add: ts_show.simps)
qed

text \<open>Wherever \<open>long\<close> has 64 bits, \<open>timeslot_status\<close> cannot end in a defined way once the kernel answers.\<close>

lemma timeslot_status_undefined:
  assumes "k_ioctl K (EvIoctl (sock g) SIOCGIFTIMESLOT (ifr_name g) IoNone # trace w) = Inr r"
  shows "\<exists>w'. timeslot_status K g w = Undef ''timeslot_status: shift count'' w'"
  using assms ts_show_undefined[of 0] by (simp add: timeslot_status_def ioctl_def Let_def)

end
