(* ===== verification/Bridge_Properties.thy ===== *)
theory Bridge_Properties
  imports Ifc_Bridge
begin

text \<open>
  Properties of the bridge commands (\<open>brconfig.c\<close>): the printer and the reader of addresses and of
  filter rules fit together, a rule file is read rule by rule, the tables of the kernel are printed
  completely, and the parameters of the spanning tree accept exactly the numbers in range.
\<close>

section \<open>Addresses are read back\<close>

lemma digit_val_hex: "n < 16 \<Longrightarrow> digit_val (hex_digit n) = Some (int n)"
  by (auto simp: digit_val_def hex_digit_def ctype_defs of_char_of take_bit_nat_eq_self)

lemma hex_digit_plain:
  "n < 16 \<Longrightarrow> \<not> isspace (hex_digit n) \<and> hex_digit n \<noteq> CHR ''-'' \<and> hex_digit n \<noteq> CHR ''+'' \<and> hex_digit n \<noteq> CHR ''x'' \<and> hex_digit n \<noteq> CHR ''X''"
proof -
  assume "n < 16"
  then have o: "ord (hex_digit n) = (if n < 10 then 48 + n else 87 + n)"
    by (simp add: hex_digit_def of_char_of take_bit_nat_eq_self)
  with \<open>n < 16\<close> show ?thesis by (auto simp: isspace_def split: if_splits)
qed

lemma strtoll_hex2:
  assumes "r = [] \<or> digit_val (hd r) = None"
  shows "strtoll (hex2 b @ r) 16 = (uint b, False, r)"
proof -
  let ?h = "unat b div 16" and ?l = "unat b mod 16"
  have "unat b < 2 ^ 8" by (rule order_less_le_trans[OF unsigned_less]) simp
  then have b: "unat b < 256" by simp
  then have h: "?h < 16" "?l < 16" by auto
  have v: "uint b = int ?h * 16 + int ?l"
  proof -
    have "int ?h * 16 + int ?l = int (?h * 16 + ?l)" by (simp only: of_nat_add of_nat_mult of_nat_numeral)
    also have "\<dots> = int (unat b)" by (simp only: div_mult_mod_eq)
    finally show ?thesis by (simp only: uint_nat)
  qed
  have stop: "strtoll_loop 16 False co cl acc 1 r = (acc, 1, r)" for co cl acc
    using assms by (cases r) (auto simp: strtoll_loop.simps(2))
  have sk: "skip_sign (dropWhile isspace (hex2 b @ r)) = (False, hex2 b @ r)" "skip_0x 16 (hex2 b @ r) = (16, hex2 b @ r)"
    using hex_digit_plain[OF h(1)] hex_digit_plain[OF h(2)] by (simp_all add: hex2_def skip_sign_def skip_0x_def)
  have "int ?h < LLONG_MAX sdiv 16" using h by (simp add: LLONG_MAX_def)
  then show ?thesis
    using stop digit_val_hex[OF h(1)] digit_val_hex[OF h(2)] h v
    by (simp add: strtoll_def sk Let_def) (simp add: hex2_def strtoll_loop.simps(2) LLONG_MAX_def)
qed

lemma ether_octets_ntoa:
  "length bs = Suc n \<Longrightarrow> ether_octets (Suc n) (ether_ntoa bs) = Some bs"
proof (induction n arbitrary: bs)
  case 0
  then obtain b where "bs = [b]" by (cases bs) auto
  with strtoll_hex2[of "[]" b] show ?case
    using uint_lt2p[of b] by (simp add: hex2_def)
next
  case (Suc n)
  then obtain b c cs where bs: "bs = b # c # cs" by (cases bs; cases "tl bs") auto
  have "digit_val CHR '':'' = None" by (simp add: digit_val_def ctype_defs)
  with strtoll_hex2[of "'':'' @ ether_ntoa (c # cs)" b]
  have "strtoll (ether_ntoa bs) 16 = (uint b, False, CHR '':'' # ether_ntoa (c # cs))" by (simp add: bs)
  moreover have "ether_octets (Suc n) (ether_ntoa (c # cs)) = Some (c # cs)" using Suc bs by simp
  ultimately show ?case using uint_lt2p[of b] bs by (simp add: hex2_def)
qed

lemma ether_ntoa_hd: "bs \<noteq> [] \<Longrightarrow> \<exists>h t. ether_ntoa bs = h # t \<and> \<not> isspace h"
proof -
  assume "bs \<noteq> []"
  then obtain b r where b: "bs = b # r" by (cases bs) auto
  have "unat b < 2 ^ 8" by (rule order_less_le_trans[OF unsigned_less]) simp
  then have "unat b div 16 < 16" by auto
  from hex_digit_plain[OF this] b show ?thesis by (cases r) (simp_all add: hex2_def)
qed

lemma ether_roundtrip:
  assumes "length e = 6"
  shows "ether_aton (ether_ntoa e) = Some e"
proof -
  have d: "dropWhile isspace (ether_ntoa e) = ether_ntoa e" using ether_ntoa_hd[of e] assms by fastforce
  have six: "(6 :: nat) = Suc 5" by simp
  show ?thesis unfolding ether_aton_def d six by (rule ether_octets_ntoa) (simp add: assms)
qed

section \<open>Rules are read back\<close>

text \<open>The words of a line with one separator after each.\<close>

definition word_ok :: "string \<Rightarrow> string \<Rightarrow> bool" where
  "word_ok d x \<longleftrightarrow> x \<noteq> [] \<and> (\<forall>c\<in>set x. c \<notin> set d)"

lemma strtok_word:
  assumes "word_ok d x" "c \<in> set d"
  shows "strtok_words d (x @ c # s) = x # strtok_words d s"
proof -
  obtain y ys where x: "x = y # ys" "y \<notin> set d" using assms(1) by (cases x) (auto simp: word_ok_def)
  have t: "takeWhile (\<lambda>c. c \<notin> set d) (x @ c # s) = x" "dropWhile (\<lambda>c. c \<notin> set d) (x @ c # s) = c # s"
    using assms by (auto simp: word_ok_def takeWhile_append dropWhile_append)
  have "dropWhile (\<lambda>c. c \<in> set d) (x @ c # s) = x @ c # s" using x by simp
  with t x show ?thesis by (subst strtok_words.simps) simp
qed

definition line_of :: "string list \<Rightarrow> string" where
  "line_of ws = concat (map (\<lambda>x. x @ '' '') (butlast ws)) @ last ws @ [CHR 0x0A]"

lemma line_words:
  "ws \<noteq> [] \<Longrightarrow> list_all (word_ok rule_delims) ws \<Longrightarrow> strtok_words rule_delims (line_of ws @ s) = ws @ strtok_words rule_delims s"
proof (induction ws)
  case (Cons x ws)
  have d: "CHR 0x0A \<in> set rule_delims" "CHR '' '' \<in> set rule_delims" by (simp_all add: rule_delims_def)
  show ?case
  proof (cases "ws = []")
    case True
    with Cons.prems strtok_word[OF _ d(1), of x s] show ?thesis by (simp add: line_of_def)
  next
    case False
    with Cons strtok_word[OF _ d(2), of x "line_of ws @ s"] show ?thesis by (simp add: line_of_def)
  qed
qed simp

text \<open>The rules the kernel keeps, as they are printed.\<close>

definition opt_addr_ok :: "byte list option \<Rightarrow> bool" where
  "opt_addr_ok a = (case a of None \<Rightarrow> True | Some e \<Rightarrow> length e = 6)"

definition dir_flags :: "ifbrlreq \<Rightarrow> byte" where
  "dir_flags r = rl_flags r AND (BRL_FLAG_IN OR BRL_FLAG_OUT)"

definition addr_flags :: "ifbrlreq \<Rightarrow> byte" where
  "addr_flags r = (if rl_src r = None then 0 else BRL_FLAG_SRCVALID) OR (if rl_dst r = None then 0 else BRL_FLAG_DSTVALID)"

definition rule_ok :: "ifbrlreq \<Rightarrow> bool" where
  "rule_ok r \<longleftrightarrow> (rl_action r = BRL_ACTION_BLOCK \<or> rl_action r = BRL_ACTION_PASS) \<and>
     word_ok rule_delims (rl_ifsname r) \<and> length (rl_ifsname r) < IFNAMSIZ \<and>
     rl_flags r \<in> (\<lambda>d. d OR addr_flags r) ` {BRL_FLAG_IN, BRL_FLAG_OUT, BRL_FLAG_IN OR BRL_FLAG_OUT} \<and>
     opt_addr_ok (rl_src r) \<and> opt_addr_ok (rl_dst r) \<and>
     (rl_tagname r = [] \<or> word_ok rule_delims (rl_tagname r)) \<and> length (rl_tagname r) < PF_TAG_NAME_SIZE \<and>
     CHR 0x00 \<notin> set (rl_ifsname r @ rl_tagname r)"

definition rule_text :: "ifbrlreq \<Rightarrow> string list" where
  "rule_text r =
     [if rl_action r = BRL_ACTION_BLOCK then ''block'' else ''pass'',
      if dir_flags r = BRL_FLAG_IN OR BRL_FLAG_OUT then ''in/out'' else if dir_flags r = BRL_FLAG_IN then ''in'' else ''out'',
      ''on'', rl_ifsname r] @
     (case rl_src r of None \<Rightarrow> [] | Some e \<Rightarrow> [''src'', ether_ntoa e]) @
     (case rl_dst r of None \<Rightarrow> [] | Some e \<Rightarrow> [''dst'', ether_ntoa e]) @
     (if rl_tagname r = [] then [] else [''tag'', rl_tagname r])"

lemma rule_flags:
  assumes "rule_ok r"
  shows "dir_flags r \<in> {BRL_FLAG_IN, BRL_FLAG_OUT, BRL_FLAG_IN OR BRL_FLAG_OUT}"
    "rl_flags r AND BRL_FLAG_SRCVALID \<noteq> 0 \<longleftrightarrow> rl_src r \<noteq> None" "rl_flags r AND BRL_FLAG_DSTVALID \<noteq> 0 \<longleftrightarrow> rl_dst r \<noteq> None"
    "rl_flags r = dir_flags r OR addr_flags r"
    "dir_flags r = BRL_FLAG_IN OR BRL_FLAG_OUT \<or> (rl_flags r AND BRL_FLAG_IN \<noteq> 0 \<longleftrightarrow> dir_flags r = BRL_FLAG_IN)"
    "dir_flags r = BRL_FLAG_IN OR BRL_FLAG_OUT \<or> (rl_flags r AND BRL_FLAG_OUT \<noteq> 0 \<longleftrightarrow> dir_flags r = BRL_FLAG_OUT)"
  using assms by (auto simp: rule_ok_def dir_flags_def addr_flags_def brl_defs split: if_splits)

lemma showrule_text:
  assumes "rule_ok r"
  shows "bridge_showrule r = line_of (rule_text r)"
proof -
  note f = rule_flags[OF assms]
  have a: "rl_action r = BRL_ACTION_BLOCK \<or> rl_action r = BRL_ACTION_PASS" using assms by (simp add: rule_ok_def)
  have d: "(if rl_flags r AND (BRL_FLAG_IN OR BRL_FLAG_OUT) = BRL_FLAG_IN OR BRL_FLAG_OUT then ''in/out ''
      else if rl_flags r AND BRL_FLAG_IN \<noteq> 0 then ''in ''
      else if rl_flags r AND BRL_FLAG_OUT \<noteq> 0 then ''out ''
      else ''[neither in nor out?]\<newline>'') =
      (if dir_flags r = BRL_FLAG_IN OR BRL_FLAG_OUT then ''in/out'' else if dir_flags r = BRL_FLAG_IN then ''in'' else ''out'') @ '' ''"
    using f(1,5,6) by (auto simp: dir_flags_def[symmetric])
  show ?thesis
    unfolding bridge_showrule_def d using a f(2,3)
    by (cases "rl_src r"; cases "rl_dst r"; cases "rl_tagname r = []")
       (auto simp: rule_text_def line_of_def show_ether_def)
qed

lemma hex_digit_no_delim: "hex_digit (unat (b :: byte) div 16) \<notin> set rule_delims" "hex_digit (unat b mod 16) \<notin> set rule_delims"
proof -
  have "unat b < 2 ^ 8" by (rule order_less_le_trans[OF unsigned_less]) simp
  then have "unat b div 16 < 16" "unat b mod 16 < 16" by auto
  then show "hex_digit (unat b div 16) \<notin> set rule_delims" "hex_digit (unat b mod 16) \<notin> set rule_delims"
    using hex_digit_plain[of "unat b div 16"] hex_digit_plain[of "unat b mod 16"]
    by (auto simp: rule_delims_def isspace_def)
qed

lemma ether_word: "e \<noteq> [] \<Longrightarrow> word_ok rule_delims (ether_ntoa e)"
proof -
  have "c \<notin> set rule_delims" if "c \<in> set (ether_ntoa e)" for c
    using that
  proof (induction e rule: ether_ntoa.induct)
    case (2 b)
    then show ?case using hex_digit_no_delim by (auto simp: hex2_def)
  next
    case (3 b c cs)
    then show ?case using hex_digit_no_delim by (auto simp: hex2_def rule_delims_def)
  qed simp
  moreover assume "e \<noteq> []"
  ultimately show ?thesis using ether_ntoa_hd[of e] by (auto simp: word_ok_def)
qed

lemma rule_text_words:
  assumes "rule_ok r"
  shows "list_all (word_ok rule_delims) (rule_text r)" "rule_text r \<noteq> []"
proof -
  have k: "list_all (word_ok rule_delims) [''block'', ''pass'', ''in/out'', ''in'', ''out'', ''on'', ''src'', ''dst'', ''tag'']"
    by (simp add: word_ok_def rule_delims_def)
  have "opt_addr_ok a \<Longrightarrow> a = Some e \<Longrightarrow> word_ok rule_delims (ether_ntoa e)" for a e
    by (rule ether_word) (auto simp: opt_addr_ok_def)
  with assms k show "list_all (word_ok rule_delims) (rule_text r)"
    by (auto simp: rule_text_def rule_ok_def split: option.split)
qed (simp add: rule_text_def)

lemma parse_rule_text:
  assumes "rule_ok r"
  shows "parse_rule (rule_text r) w = (Inr r, w)"
proof -
  note f = rule_flags(1,4)[OF assms]
  have r: "rl_action r = BRL_ACTION_BLOCK \<or> rl_action r = BRL_ACTION_PASS" "length (rl_ifsname r) < IFNAMSIZ"
      "opt_addr_ok (rl_src r)" "opt_addr_ok (rl_dst r)" "length (rl_tagname r) < PF_TAG_NAME_SIZE"
    using assms by (simp_all add: rule_ok_def)
  obtain d where d: "rule_direction (tl (rule_text r)) = Some (d, drop 2 (rule_text r))" "d = dir_flags r"
    using f(1) by (auto simp: rule_direction_def rule_text_def brl_defs)
  have a: "rule_action (hd (rule_text r)) = Some (rl_action r)"
    using r(1) by (auto simp: rule_action_def rule_text_def)
  have ifs: "ifsname (rl_ifsname r) = rl_ifsname r" using r(2) by (simp add: ifsname_def strlcpy_def strlcpy_loop_take)
  let ?r = "\<lparr>rl_ifsname = rl_ifsname r, rl_action = rl_action r, rl_flags = d, rl_src = None, rl_dst = None, rl_tagname = []\<rparr>"
  have "parse_rule (rule_text r) w = rule_words (drop 4 (rule_text r)) ?r w"
    using a d(1) ifs by (simp add: parse_rule_def rule_text_def)
  also have "\<dots> = (Inr r, w)"
  proof -
    have e: "ether_aton (ether_ntoa e) = Some e" if "rl_src r = Some e \<or> rl_dst r = Some e" for e
      using that r(3,4) ether_roundtrip[of e] by (auto simp: opt_addr_ok_def)
    have t: "strlcpy (rl_tagname r) PF_TAG_NAME_SIZE = (rl_tagname r, length (rl_tagname r))"
      using r(5) by (simp add: strlcpy_def strlcpy_loop_take)
    show ?thesis
      using e t r(5) f d(2)
      by (cases r; cases "rl_src r"; cases "rl_dst r")
         (auto simp: rule_text_def addr_flags_def brl_defs)
  qed
  finally show ?thesis .
qed

section \<open>Rule files\<close>

lemma fgets_line: "CHR 0x0A \<notin> set x \<Longrightarrow> length x + 2 \<le> n \<Longrightarrow> fgets n (x @ CHR 0x0A # s) = (x @ [CHR 0x0A], s)"
proof (induction x arbitrary: n)
  case Nil
  then obtain m where "n = Suc (Suc m)" by (metis add_2_eq_Suc le_add_diff_inverse list.size(3) add_0)
  then show ?case by simp
next
  case (Cons c x)
  then obtain m where m: "n = Suc (Suc m)" "length x + 2 \<le> Suc m" by (cases n; cases "n - 1") auto
  with Cons show ?case by auto
qed

lemma line_of_split: "ws \<noteq> [] \<Longrightarrow> list_all (word_ok rule_delims) ws \<Longrightarrow>
  \<exists>x. line_of ws = x @ [CHR 0x0A] \<and> CHR 0x0A \<notin> set x \<and> length x + 1 = sum_list (map (\<lambda>y. Suc (length y)) ws) \<and>
    (CHR 0x00 \<in> set x \<longrightarrow> CHR 0x00 \<in> set (concat ws))"
proof (induction ws)
  case (Cons y ws)
  have y: "CHR 0x0A \<notin> set y" using Cons.prems(2) by (auto simp: word_ok_def rule_delims_def)
  show ?case
  proof (cases "ws = []")
    case True
    with y show ?thesis by (intro exI[of _ y]) (simp add: line_of_def)
  next
    case False
    with Cons obtain x where x: "line_of ws = x @ [CHR 0x0A]" "CHR 0x0A \<notin> set x"
      "length x + 1 = sum_list (map (\<lambda>y. Suc (length y)) ws)" "CHR 0x00 \<in> set x \<longrightarrow> CHR 0x00 \<in> set (concat ws)" by auto
    have "line_of (y # ws) = y @ '' '' @ line_of ws" using False by (simp add: line_of_def)
    with x y show ?thesis by (intro exI[of _ "y @ '' '' @ x"]) auto
  qed
qed simp

lemma length_ether_ntoa: "length (ether_ntoa e) \<le> 3 * length e"
  by (induction e rule: ether_ntoa.induct) (auto simp: hex2_def)

lemma nul_ether: "CHR 0x00 \<notin> set (ether_ntoa e)"
proof -
  have h: "hex_digit n \<noteq> CHR 0x00" if "n < 16" for n
  proof
    assume "hex_digit n = CHR 0x00"
    then have "digit_val (CHR 0x00) = Some (int n)" using digit_val_hex[OF that] by simp
    then show False by (simp add: digit_val_def ctype_defs)
  qed
  have "CHR 0x00 \<notin> set (hex2 b)" for b :: byte
  proof -
    have "unat b < 2 ^ 8" by (rule order_less_le_trans[OF unsigned_less]) simp
    then have "unat b div 16 < 16" "unat b mod 16 < 16" by auto
    then have a: "hex_digit (unat b div 16) \<noteq> CHR 0x00" "hex_digit (unat b mod 16) \<noteq> CHR 0x00" using h by blast+
    from not_sym[OF a(1)] not_sym[OF a(2)] show ?thesis unfolding hex2_def by simp
  qed
  then show ?thesis by (induction e rule: ether_ntoa.induct) auto
qed

text \<open>What reading the rules one after the other does: a rule with all three options is too long.\<close>

definition full_rule :: "ifbrlreq \<Rightarrow> bool" where
  "full_rule r \<longleftrightarrow> rl_src r \<noteq> None \<and> rl_dst r \<noteq> None \<and> rl_tagname r \<noteq> []"

definition send_rule :: "kernel \<Rightarrow> ifc \<Rightarrow> ifbrlreq \<Rightarrow> int \<Rightarrow> world \<Rightarrow> world" where
  "send_rule K g r ln w =
     (if full_rule r then warnx ''invalid rule: %d: %s ...\<newline>'' [AI ln, AS (hd (rule_text r))] w
      else case ioctl K (sock g) SIOCBRDGARL (name_of g) (IoRule r) w of
        (None, w1) \<Rightarrow> warn K ''%s'' [AS (ifname g)] w1
      | (Some _, w1) \<Rightarrow> w1)"

fun send_rules :: "kernel \<Rightarrow> ifc \<Rightarrow> ifbrlreq list \<Rightarrow> int \<Rightarrow> world \<Rightarrow> world" where
  "send_rules K g [] ln w = w"
| "send_rules K g (r # rs) ln w = send_rules K g rs (ln + 1) (send_rule K g r (ln + 1) w)"

lemma rule_text_length: "length (rule_text r) > MAXRULEWORDS \<longleftrightarrow> full_rule r"
  by (auto simp: rule_text_def full_rule_def MAXRULEWORDS_def split: option.split)

lemma rule_line_printed:
  assumes "rule_ok r"
  shows "rule_line K (bridge_showrule r) ln g w = send_rule K g r ln w"
proof -
  have s: "strtok_words rule_delims (bridge_showrule r) = rule_text r"
    using line_words[OF rule_text_words(2,1)[OF assms], of "[]"] showrule_text[OF assms]
    by (simp add: strtok_words.simps[of rule_delims "[]"])
  obtain c t where c: "bridge_showrule r = c # t" "c = CHR ''b'' \<or> c = CHR ''p''"
    using showrule_text[OF assms] by (cases "rl_action r = BRL_ACTION_BLOCK") (simp_all add: line_of_def rule_text_def)
  have "takeWhile (\<lambda>c. c \<in> set rule_delims) (bridge_showrule r) = []" using c by (auto simp: rule_delims_def)
  with s c parse_rule_text[OF assms] rule_text_length[of r] rule_text_words(2)[OF assms] show ?thesis
    by (auto simp: rule_line_def send_rule_def bridge_rule_def split: prod.split option.split)
qed

lemma rule_text_size:
  assumes "rule_ok r"
  shows "sum_list (map (\<lambda>y. Suc (length y)) (rule_text r)) \<le> 200" "CHR 0x00 \<notin> set (concat (rule_text r))"
proof -
  have e: "length (ether_ntoa e) \<le> 18" if "rl_src r = Some e \<or> rl_dst r = Some e" for e
    using that assms length_ether_ntoa[of e] by (auto simp: rule_ok_def opt_addr_ok_def)
  have es: "(case rl_src r of None \<Rightarrow> 0 | Some e \<Rightarrow> length (ether_ntoa e)) \<le> 18"
    "(case rl_dst r of None \<Rightarrow> 0 | Some e \<Rightarrow> length (ether_ntoa e)) \<le> 18" using e by (simp_all split: option.split)
  have "length (rl_ifsname r) \<le> 15" "length (rl_tagname r) \<le> 63"
    using assms by (simp_all add: rule_ok_def IFNAMSIZ_def PF_TAG_NAME_SIZE_def)
  then show "sum_list (map (\<lambda>y. Suc (length y)) (rule_text r)) \<le> 200"
    using es by (cases "rl_src r"; cases "rl_dst r") (auto simp: rule_text_def)
  show "CHR 0x00 \<notin> set (concat (rule_text r))"
    using assms nul_ether by (auto simp: rule_text_def rule_ok_def split: option.splits if_splits)
qed

lemma rule_lines_printed:
  "list_all rule_ok rs \<Longrightarrow> rule_lines K (concat (map bridge_showrule rs)) ln g w = send_rules K g rs ln w"
proof (induction rs arbitrary: ln w)
  case Nil
  show ?case by (simp add: rule_lines.simps)
next
  case (Cons r rs)
  then have r: "rule_ok r" by simp
  from line_of_split[OF rule_text_words(2,1)[OF r]] rule_text_size[OF r] obtain x where
    x: "bridge_showrule r = x @ [CHR 0x0A]" "CHR 0x0A \<notin> set x" "length x \<le> 200" "CHR 0x00 \<notin> set x"
    unfolding showrule_text[OF r] by auto
  let ?s = "concat (map bridge_showrule rs)"
  have f: "fgets 1024 (bridge_showrule r @ ?s) = (bridge_showrule r, ?s)"
    using fgets_line[OF x(2), of 1024 ?s] x by simp
  have "takeWhile (\<lambda>c. c \<noteq> CHR 0x00) (bridge_showrule r) = bridge_showrule r"
    using x by (simp add: takeWhile_append)
  then have "rule_lines K (bridge_showrule r @ ?s) ln g w = rule_lines K ?s (ln + 1) g (rule_line K (bridge_showrule r) (ln + 1) g w)"
    using f x by (subst rule_lines.simps) simp
  with Cons rule_line_printed[OF r] show ?case by simp
qed

section \<open>Tables of the kernel\<close>

text \<open>Calls that print nothing.\<close>

definition silent :: "world \<Rightarrow> world \<Rightarrow> bool" where
  "silent w w' \<longleftrightarrow> (\<exists>es. trace w' = es @ trace w \<and> (\<forall>s. EvStdout s \<notin> set es))"

lemma silent_trans: "silent a b \<Longrightarrow> silent b c \<Longrightarrow> silent a c"
  by (fastforce simp: silent_def)

lemma fetch_complete:
  assumes mem: "k_mem K = (\<lambda>_. True)" and sz: "0 < sz" "int (length xs * sz + sz) < 2 ^ 30"
    and ask: "\<And>len w. \<exists>w'. ask len w = Ok xs w' \<and> silent w w'"
  shows "0 < len \<Longrightarrow> len \<le> INT_MAX \<Longrightarrow> \<exists>w'. fetch K ask sz len w = Ok xs w' \<and> silent w w'"
proof (induction "nat (INT_MAX - len)" arbitrary: len w rule: less_induct)
  case less
  let ?w1 = "emit (EvMalloc (nat len)) w" and ?got = "take (nat len div sz) xs"
  obtain w2 where w2: "ask len ?w1 = Ok xs w2" "silent ?w1 w2" using ask by blast
  have "silent w ?w1" by (simp add: silent_def)
  with w2(2) have s: "silent w w2" by (rule silent_trans[rotated])
  have step: "fetch K ask sz len w = (if int (length ?got * sz + sz) < len then Ok ?got w2 else fetch K ask sz (len * 2) w2)"
    using less.prems mem w2 by (subst fetch.simps) (simp add: alloc_def Let_def)
  have room: "nat len < (nat len div sz + 1) * sz" using sz(1) by (metis add.commute dividend_less_div_times mult_Suc plus_1_eq_Suc)
  show ?case
  proof (cases "int (length ?got * sz + sz) < len")
    case True
    have "length xs \<le> nat len div sz"
    proof (rule ccontr)
      assume "\<not> length xs \<le> nat len div sz"
      then have "length ?got = nat len div sz" by simp
      with True have "int ((nat len div sz + 1) * sz) < len" by (simp only: distrib_right mult_1)
      with room show False by linarith
    qed
    with True step s show ?thesis by auto
  next
    case False
    have "len < 2 ^ 30"
    proof (cases "length xs \<le> nat len div sz")
      case True
      with False sz(2) show ?thesis by simp
    next
      case F: False
      then have "(nat len div sz + 1) * sz \<le> length xs * sz" by (intro mult_right_mono) auto
      with room sz(2) less.prems show ?thesis by linarith
    qed
    then have "len * 2 \<le> INT_MAX" by (simp add: INT_MAX_def)
    with less.hyps[of "len * 2" w2] less.prems obtain w' where "fetch K ask sz (len * 2) w2 = Ok xs w'" "silent w2 w'" by auto
    with step False s silent_trans show ?thesis by auto
  qed
qed

lemma puts_all_trace: "trace (puts_all ls w) = rev (map EvStdout ls) @ trace w"
  by (induction ls arbitrary: w) (simp_all add: puts_all_def)

section \<open>Numbers\<close>

lemma strtoul_loop_dec:
  "list_all isdigit ds \<Longrightarrow> 0 \<le> acc \<Longrightarrow> acc \<le> ULONG_MAX \<Longrightarrow> 0 \<le> any \<Longrightarrow> strtoul_loop 10 acc any ds =
    (if dval acc ds \<le> ULONG_MAX then (dval acc ds, if ds = [] then any else 1, []) else (ULONG_MAX, - 1, []))"
proof (induction ds arbitrary: acc any)
  case (Cons c ds)
  have over: "list_all isdigit xs \<Longrightarrow> strtoul_loop 10 a (- 1) xs = (a, - 1, [])" for a xs
    by (induction xs) (simp_all add: strtoul_loop.simps(2) digit_val_def, use dig_range in fastforce)
  note c = dig_range[of c]
  have d: "isdigit c" "digit_val c = Some (dig c)" using Cons.prems(1) by (simp_all add: digit_val_def)
  let ?v = "acc * 10 + dig c"
  have m: "?v \<le> dval ?v ds" using Cons.prems c d(1) by (intro dval_mono) auto
  show ?case
  proof (cases "?v \<le> ULONG_MAX")
    case True
    with Cons.IH[of ?v 1] Cons.prems c d show ?thesis by (auto simp: strtoul_loop.simps(2) ULONG_MAX_def)
  next
    case False
    with m over[of ds] Cons.prems c d show ?thesis by (auto simp: strtoul_loop.simps(2) ULONG_MAX_def)
  qed
qed simp

lemma digits_first: "0 < n \<Longrightarrow> hd (digits n) \<noteq> CHR ''0''"
proof (induction n rule: digits.induct)
  case (1 n)
  have ne: "digits m \<noteq> []" for m by (simp add: digits.simps[of m])
  show ?case
  proof (cases "n < 10")
    case True
    have "ord (char_of (48 + n)) \<noteq> ord CHR ''0''" using True 1(2) by (simp add: of_char_of take_bit_nat_eq_self)
    then have "char_of (48 + n) \<noteq> CHR ''0''" by metis
    then show ?thesis using True by (simp add: digits.simps[of n])
  next
    case False
    with 1 ne[of "n div 10"] show ?thesis by (simp add: digits.simps[of n])
  qed
qed

text \<open>A decimal number, also behind a minus sign, read with base 0.\<close>

lemma strtoul_digits:
  assumes "neg \<in> {[], ''-''}"
  shows "strtoul (neg @ digits n) 0 =
    (if int n \<le> ULONG_MAX then (if neg = [] then int n else (- int n) mod (ULONG_MAX + 1), False, []) else (ULONG_MAX, True, []))"
proof -
  note dd = digits_isdigit[of n]
  obtain c cs where cs: "digits n = c # cs" using dd by (cases "digits n") auto
  have c: "isdigit c" "\<not> isspace c" "c \<noteq> CHR ''-''" "c \<noteq> CHR ''+''" using dd cs by (auto simp: isdigit_def isspace_def)
  have sg: "skip_sign (dropWhile isspace (neg @ digits n)) = (neg \<noteq> [], digits n)"
    using assms c cs by (auto simp: skip_sign_def isspace_def)
  show ?thesis
  proof (cases "n = 0")
    case True
    have "char_of (48 :: nat) = CHR ''0''" by code_simp
    with True have z: "digits n = ''0''" by (simp add: digits.simps)
    have "strtoul_loop 8 0 0 ''0'' = (0, 1, [])" by (simp add: strtoul_loop.simps(2) digit_val_def isdigit_def ULONG_MAX_def)
    then show ?thesis using sg z True assms by (auto simp: strtoul_def skip_0x_def ULONG_MAX_def)
  next
    case False
    then have "c \<noteq> CHR ''0''" using digits_first[of n] cs by simp
    then have x: "skip_0x 0 (digits n) = (10, digits n)" using cs by (simp add: skip_0x_def)
    have "strtoul_loop 10 0 0 (digits n) = (if int n \<le> ULONG_MAX then (int n, 1, []) else (ULONG_MAX, - 1, []))"
      using strtoul_loop_dec[of "digits n" 0 0] dd by (simp add: ULONG_MAX_def)
    then show ?thesis using sg x assms by (auto simp: strtoul_def)
  qed
qed

lemma ulong_arg_digits:
  assumes "0 \<le> mx" "mx < ULONG_MAX"
  shows "ulong_arg (digits n) mx w =
    (if int n \<le> mx then Some (int n) else None, set_errno (if int n \<le> ULONG_MAX then E0 else ERANGE) w)"
  using strtoul_digits[of "[]" n] digits_isdigit[of n] assms by (auto simp: ulong_arg_def Let_def)

section \<open>Properties\<close>

text \<open>
  (C24) A rule file made of rules as \<open>bridge_showrule\<close> prints them is read back rule by rule: each
  rule reaches the kernel unchanged and in the order of the file, except that a rule with a
  source, a destination and a tag has more words than \<open>bridge_rulefile\<close> takes and is only reported.
\<close>

theorem bridge_rulefile_roundtrip:
  assumes "list_all rule_ok rs" "\<forall>t. k_file K (EvReadFile f # t) = Inr (concat (map bridge_showrule rs))"
  shows "bridge_rulefile K f d g w = Ok g (emit (EvFclose f) (send_rules K g rs 0 (emit (EvReadFile f) w)))"
  using rule_lines_printed[OF assms(1)] assms(2) by (simp add: bridge_rulefile_def fopen_def Let_def)

definition sample_rule :: ifbrlreq where
  "sample_rule = \<lparr>rl_ifsname = ''em0'', rl_action = 1, rl_flags = 10, rl_src = Some [0, 1, 2, 3, 4, 255], rl_dst = None,
     rl_tagname = ''lan''\<rparr>"

lemma sample_rule_ok: "rule_ok sample_rule"
  by (simp add: sample_rule_def rule_ok_def word_ok_def opt_addr_ok_def addr_flags_def brl_defs rule_delims_def
      IFNAMSIZ_def PF_TAG_NAME_SIZE_def)

definition rule_kernel :: "ifbrlreq list \<Rightarrow> kernel" where
  "rule_kernel rs = sample_kernel\<lparr>k_file := (\<lambda>_. Inr (concat (map bridge_showrule rs))), k_ioctl := (\<lambda>_. Inr (IoRules rs))\<rparr>"

theorem bridge_rulefile_roundtrip_witness:
  "bridge_rulefile (rule_kernel [sample_rule, sample_rule]) ''rules'' 0 sample_ifc sample_world =
     Ok sample_ifc (emit (EvFclose ''rules'') (send_rules (rule_kernel [sample_rule, sample_rule]) sample_ifc
       [sample_rule, sample_rule] 0 (emit (EvReadFile ''rules'') sample_world)))"
  by (rule bridge_rulefile_roundtrip) (simp_all add: sample_rule_ok rule_kernel_def)

text \<open>
  \<open>bridge_rules\<close> ends and prints every rule of the member once and in the kernel's order,
  however many times the buffer has to be enlarged, as long as the table is smaller than a gigabyte.
\<close>

theorem bridge_rules_prints_all:
  assumes "k_mem K = (\<lambda>_. True)" "int (length rs * sizeof_ifbrlreq + sizeof_ifbrlreq) < 2 ^ 30"
    "\<forall>len t. k_ioctl K (EvIoctl (sock g) SIOCBRDGGRL (name_of g) (IoRuleTable (ifsname ifn) len) # t) = Inr (IoRules rs)"
  shows "\<exists>w' es. bridge_rules K ifn d g w = Ok g w' \<and>
    trace w' = rev (map (EvStdout \<circ> bridge_showrule) rs) @ es @ trace w \<and> (\<forall>s. EvStdout s \<notin> set es)"
proof -
  let ?ask = "\<lambda>len w1. andthen (br_ioctl K g SIOCBRDGGRL (IoRuleTable (ifsname ifn) len) ''ioctl(SIOCBRDGGRL)'' [] w1)
           (\<lambda>r. Ok (io_rules r))"
  have a: "\<exists>w'. ?ask len v = Ok rs w' \<and> silent v w'" for len v
    using assms(3) by (simp add: br_ioctl_def ioctl_def Let_def silent_def)
  have "\<exists>w'. fetch K ?ask sizeof_ifbrlreq 8192 w = Ok rs w' \<and> silent w w'"
    by (rule fetch_complete[OF assms(1) _ assms(2) a]) (simp_all add: sizeof_ifbrlreq_def INT_MAX_def)
  then obtain w' es where "fetch K ?ask sizeof_ifbrlreq 8192 w = Ok rs w'" "trace w' = es @ trace w" "\<forall>s. EvStdout s \<notin> set es"
    by (auto simp: silent_def)
  then show ?thesis
    by (intro exI[of _ "puts_all (map bridge_showrule rs) w'"] exI[of _ es]) (simp add: bridge_rules_def puts_all_trace)
qed

theorem bridge_rules_prints_all_witness:
  "\<exists>w' es. bridge_rules (rule_kernel [sample_rule]) ''em0'' 0 sample_ifc sample_world = Ok sample_ifc w' \<and>
    trace w' = rev (map (EvStdout \<circ> bridge_showrule) [sample_rule]) @ es @ trace sample_world \<and> (\<forall>s. EvStdout s \<notin> set es)"
  by (rule bridge_rules_prints_all) (simp_all add: rule_kernel_def sample_kernel_def sizeof_ifbrlreq_def)

text \<open>
  The parameters of the bridge accept a decimal number exactly up to their width, 8, 16 and 32
  bits, and then pass it to the kernel; a larger one, also one that does not fit a \<open>long\<close>, ends
  the program.
\<close>

theorem bridge_param_bounds:
  "bridge_maxage K (digits n) d g w =
     (if n \<le> 255 then br_do K SIOCBRDGSMA (IoParam (int n)) ''%s'' [AS (ifname g)] g (set_errno E0 w)
      else errx (invalid_arg ''maxage'') [AS (digits n)] (set_errno (if int n \<le> ULONG_MAX then E0 else ERANGE) w)) \<and>
   bridge_priority K (digits n) d g w =
     (if n \<le> 65535 then br_do K SIOCBRDGSPRI (IoParam (int n)) ''%s'' [AS (ifname g)] g (set_errno E0 w)
      else errx (invalid_arg ''spanpriority'') [AS (digits n)] (set_errno (if int n \<le> ULONG_MAX then E0 else ERANGE) w)) \<and>
   bridge_maxaddr K (digits n) d g w =
     (if n \<le> 4294967295 then br_do K SIOCBRDGSCACHE (IoParam (int n)) ''%s'' [AS (ifname g)] g (set_errno E0 w)
      else errx (invalid_arg ''maxaddr'') [AS (digits n)] (set_errno (if int n \<le> ULONG_MAX then E0 else ERANGE) w))"
  by (auto simp: bridge_maxage_def bridge_priority_def bridge_maxaddr_def bridge_param_def ulong_arg_digits ULONG_MAX_def)

text \<open>
  The parameters do not reject negative numbers as such: \<open>strtoul\<close> wraps them around, so that the
  negation of \<open>2^64 - n\<close> is taken for \<open>n\<close>.
\<close>

theorem bridge_param_wraps:
  assumes "0 < n" "n \<le> 255"
  shows "bridge_maxage K (''-'' @ digits (2 ^ 64 - n)) d g w = bridge_maxage K (digits n) d g w"
proof -
  have "int (2 ^ 64 - n) \<le> ULONG_MAX" "(- int (2 ^ 64 - n)) mod (ULONG_MAX + 1) = int n"
    using assms by (simp_all add: ULONG_MAX_def of_nat_diff)
  then have "ulong_arg (''-'' @ digits (2 ^ 64 - n)) 255 w = (Some (int n), set_errno E0 w)"
    using strtoul_digits[of "''-''" "2 ^ 64 - n"] assms by (simp add: ulong_arg_def Let_def ULONG_MAX_def)
  then show ?thesis
    using ulong_arg_digits[of 255 n w] assms by (simp add: bridge_maxage_def bridge_param_def ULONG_MAX_def)
qed

theorem bridge_param_wraps_witness:
  "bridge_maxage sample_kernel (''-'' @ digits (2 ^ 64 - 20)) 0 sample_ifc sample_world =
     bridge_maxage sample_kernel (digits 20) 0 sample_ifc sample_world"
  by (rule bridge_param_wraps) simp_all

end
