(* ===== verification/Bridge_Status.thy ===== *)
theory Bridge_Status
  imports Bridge_Properties
begin

text \<open>
  The display of a bridge (\<open>brconfig.c\<close>): its parameters, its members with their rules and its
  address cache. The theorem shows that the list of members is complete, whatever the number of
  times the buffers have to be enlarged.
\<close>

section \<open>Parameters\<close>

definition IFBIF_SPAN :: u32 where "IFBIF_SPAN = 0x0100"

definition IFBIFBITS :: string where
  "IFBIFBITS = CHR 0x01 # ''LEARNING'' @ CHR 0x02 # ''DISCOVER'' @ CHR 0x03 # ''BLOCKNONIP'' @ CHR 0x04 # ''STP'' @
     CHR 0x05 # ''EDGE'' @ CHR 0x06 # ''AUTOEDGE'' @ CHR 0x07 # ''PTP'' @ CHR 0x08 # ''AUTOPTP'' @ CHR 0x09 # ''SPAN''"

definition stpstates :: "string list" where
  "stpstates = [''disabled'', ''listening'', ''learning'', ''forwarding'', ''blocking'', ''discarding'']"

definition stproles :: "string list" where
  "stproles = [''disabled'', ''root'', ''designated'', ''alternate'', ''backup'']"

text \<open>\<open>PV2ID\<close>: the priority and the address in a bridge id.\<close>

definition PV2ID :: "64 word \<Rightarrow> u16 \<times> byte list" where
  "PV2ID pv = (ucast (drop_bit 48 pv), map (\<lambda>n. ucast (drop_bit n pv)) [40, 32, 24, 16, 8, 0])"

abbreviation show_word :: "'a::len word \<Rightarrow> string" where
  "show_word x \<equiv> show_int (uint x)"

definition bridge_cfg :: "kernel \<Rightarrow> bool \<Rightarrow> string \<Rightarrow> ifc \<Rightarrow> world \<Rightarrow> ifc outcome" where
  "bridge_cfg K aflag delim g w =
     andthen (br_ioctl K g SIOCBRDGGPARAM IoNone ''%s'' [AS (ifname g)] w) (\<lambda>r w1.
       let p = io_oper r in
       if unat (op_protocol p) \<ge> length stpproto then Undef ''bridge_cfg: stpproto[proto]'' w1
       else
         let w2 = puts_all [delim, ''priority '' @ show_word (op_priority p) @ '' hellotime '' @ show_word (op_hellotime p) @
               '' fwddelay '' @ show_word (op_fwddelay p) @ '' maxage '' @ show_word (op_maxage p) @
               '' holdcnt '' @ show_word (op_holdcount p) @ '' proto '' @ stpproto ! unat (op_protocol p) @ [CHR 0x0A]] w1 in
         if aflag then Ok g w2
         else
           let w3 = (case PV2ID (op_desg_bridge p) of (bprio, lladdr) \<Rightarrow>
                 puts_all [CHR 0x09 # ''designated: id '' @ ether_ntoa lladdr @ '' priority '' @ show_word bprio @ [CHR 0x0A]] w2) in
           if op_root_bridge p = op_desg_bridge p then Ok g w3
           else case PV2ID (op_root_bridge p) of (bprio, lladdr) \<Rightarrow>
             Ok g (puts_all [CHR 0x09 # ''root: id '' @ ether_ntoa lladdr @ '' priority '' @ show_word bprio @
               '' ifcost '' @ show_word (op_root_path_cost p) @ '' port '' @ show_word (op_root_port p AND 0xfff) @ [CHR 0x0A]] w3))"

section \<open>Members\<close>

definition sizeof_ifbreq :: nat where "sizeof_ifbreq = 88"

definition member_name :: "ifbreq \<Rightarrow> string" where
  "member_name m = fst (strlcpy (br_ifsname m) (IFNAMSIZ + 1))"

definition member_line :: "string \<Rightarrow> ifbreq \<Rightarrow> string" where
  "member_line delim m = delim @ member_name m @ '' '' @ printb ''flags'' (br_ifsflags m) IFBIFBITS @ [CHR 0x0A]"

definition port_line :: "ifbreq \<Rightarrow> string" where
  "port_line m = [CHR 0x09, CHR 0x09] @ ''port '' @ show_word (br_portno m) @ '' ifpriority '' @ show_word (br_priority m) @
     '' ifcost '' @ show_word (br_path_cost m) @
     (if br_ifsflags m AND IFBIF_STP \<noteq> 0
      then '' '' @ stpstates ! unat (br_state m) @ '' role '' @ stproles ! unat (br_role m) else []) @ [CHR 0x0A]"

text \<open>State and role are indices into the tables.\<close>

definition member_ok :: "ifbreq \<Rightarrow> bool" where
  "member_ok m \<longleftrightarrow> br_ifsflags m AND IFBIF_STP = 0 \<or>
     unat (br_state m) < length stpstates \<and> unat (br_role m) < length stproles"

fun list_members :: "kernel \<Rightarrow> string \<Rightarrow> ifbreq list \<Rightarrow> ifc \<Rightarrow> world \<Rightarrow> ifc outcome" where
  "list_members K delim [] g w = Ok g w"
| "list_members K delim (m # ms) g w =
     (let w1 = puts_all [member_line delim m] w in
      if br_ifsflags m AND IFBIF_SPAN \<noteq> 0 then list_members K delim ms g w1
      else if \<not> member_ok m then Undef ''bridge_list: stpstates, stproles'' w1
      else andthen (bridge_rules K (member_name m) 0 g (puts_all [port_line m] w1)) (list_members K delim ms))"

definition bridge_list :: "kernel \<Rightarrow> string \<Rightarrow> ifc \<Rightarrow> world \<Rightarrow> ifc outcome" where
  "bridge_list K delim g w =
     andthen (fetch K (\<lambda>len w1.
         andthen (br_ioctl K g SIOCBRDGIFS (IoTable len) ''%s'' [AS (ifname g)] w1) (\<lambda>r. Ok (io_members r)))
       sizeof_ifbreq 8192 w) (\<lambda>ms. list_members K delim ms g)"

definition bridge_status :: "kernel \<Rightarrow> bool \<Rightarrow> bool \<Rightarrow> ifc \<Rightarrow> world \<Rightarrow> ifc outcome" where
  "bridge_status K aflag ifaliases g w =
     (case is_bridge K g (ifname g) w of (br, w1) \<Rightarrow>
        if \<not> br then Ok g w1
        else case ioctl K (sock g) SIOCGIFFLAGS (name_of g) IoNone w1 of
          (None, w2) \<Rightarrow> Ok g w2
        | (Some _, w2) \<Rightarrow>
            andthen (bridge_cfg K aflag [CHR 0x09] g w2) (\<lambda>g w3.
            andthen (bridge_list K [CHR 0x09] g w3) (\<lambda>g w4.
              if aflag \<and> \<not> ifaliases then Ok g w4
              else case ioctl K (sock g) SIOCBRDGGCACHE (name_of g) IoNone w4 of
                (None, w5) \<Rightarrow> Ok g w5
              | (Some bp1, w5) \<Rightarrow>
                  (case ioctl K (sock g) SIOCBRDGGTO (name_of g) IoNone w5 of
                     (None, w6) \<Rightarrow> Ok g w6
                   | (Some bp2, w6) \<Rightarrow>
                       bridge_addrs K [CHR 0x09, CHR 0x09] 0 g
                         (puts_all [CHR 0x09 # ''Addresses (max cache: '' @ show_int (io_param bp1 mod 2 ^ 32) @
                            '', timeout: '' @ show_int (io_param bp2 mod 2 ^ 32) @ ''):'' @ [CHR 0x0A]] w6)))))"

section \<open>Lemmas\<close>

text \<open>A bridge id is its priority and its address.\<close>

lemma PV2ID_inject: "PV2ID a = PV2ID b \<longleftrightarrow> a = b"
proof
  assume e: "PV2ID a = PV2ID b"
  show "a = b"
  proof (rule bit_word_eqI)
    fix n assume n: "n < LENGTH(64)"
    have hi: "(ucast (drop_bit 48 a) :: u16) = ucast (drop_bit 48 b)" using e by (simp add: PV2ID_def)
    have lo: "(ucast (drop_bit (8 * k) a) :: byte) = ucast (drop_bit (8 * k) b)" if "k < 6" for k
    proof -
      have "k \<in> {0, 1, 2, 3, 4, 5}" using that by auto
      then show ?thesis using e by (auto simp: PV2ID_def)
    qed
    show "bit a n = bit b n"
    proof (cases "n < 48")
      case True
      have "bit (ucast (drop_bit (8 * (n div 8)) a) :: byte) (n mod 8) = bit (ucast (drop_bit (8 * (n div 8)) b) :: byte) (n mod 8)"
        using lo[of "n div 8"] True by simp
      then show ?thesis by (simp add: bit_simps)
    next
      case False
      have "bit (ucast (drop_bit 48 a) :: u16) (n - 48) = bit (ucast (drop_bit 48 b) :: u16) (n - 48)" using hi by simp
      moreover have "n - 48 < 16" using n by simp
      ultimately show ?thesis using False n by (simp add: bit_simps)
    qed
  qed
qed simp

text \<open>What reaches standard output, in order.\<close>

fun stdout_of :: "event list \<Rightarrow> string list" where
  "stdout_of [] = []"
| "stdout_of (e # es) = stdout_of es @ (case e of EvStdout s \<Rightarrow> [s] | _ \<Rightarrow> [])"

lemma stdout_append: "stdout_of (a @ b) = stdout_of b @ stdout_of a"
  by (induction a) simp_all

lemma stdout_none: "\<forall>s. EvStdout s \<notin> set es \<Longrightarrow> stdout_of es = []"
  by (induction es) (auto split: event.split)

lemma stdout_silent: "silent w w' \<Longrightarrow> stdout_of (trace w') = stdout_of (trace w)"
  by (auto simp: silent_def stdout_append stdout_none)

lemma stdout_puts_all: "stdout_of (trace (puts_all ls w)) = stdout_of (trace w) @ ls"
  by (induction ls arbitrary: w) (simp_all add: puts_all_def)

definition member_output :: "string \<Rightarrow> (string \<Rightarrow> ifbrlreq list) \<Rightarrow> ifbreq \<Rightarrow> string list" where
  "member_output delim rules m = member_line delim m #
     (if br_ifsflags m AND IFBIF_SPAN \<noteq> 0 then [] else port_line m # map bridge_showrule (rules (ifsname (member_name m))))"

lemma bridge_rules_output:
  assumes "k_mem K = (\<lambda>_. True)" "int (length rs * sizeof_ifbrlreq + sizeof_ifbrlreq) < 2 ^ 30"
    "\<forall>len t. k_ioctl K (EvIoctl (sock g) SIOCBRDGGRL (name_of g) (IoRuleTable (ifsname ifn) len) # t) = Inr (IoRules rs)"
  shows "\<exists>w'. bridge_rules K ifn d g w = Ok g w' \<and> stdout_of (trace w') = stdout_of (trace w) @ map bridge_showrule rs"
proof -
  obtain w' es where w': "bridge_rules K ifn d g w = Ok g w'"
    "trace w' = rev (map (EvStdout \<circ> bridge_showrule) rs) @ es @ trace w" "\<forall>s. EvStdout s \<notin> set es"
    using bridge_rules_prints_all[OF assms] by blast
  have "stdout_of (rev (map (EvStdout \<circ> bridge_showrule) rs)) = map bridge_showrule rs"
    by (induction rs) (simp_all add: stdout_append)
  with w' show ?thesis by (simp add: stdout_append stdout_none)
qed

text \<open>A kernel with a table of members and a table of rules for each of them.\<close>

definition bridge_tables :: "kernel \<Rightarrow> ifc \<Rightarrow> ifbreq list \<Rightarrow> (string \<Rightarrow> ifbrlreq list) \<Rightarrow> bool" where
  "bridge_tables K g ms rules \<longleftrightarrow> k_mem K = (\<lambda>_. True) \<and>
     (\<forall>len t. k_ioctl K (EvIoctl (sock g) SIOCBRDGIFS (name_of g) (IoTable len) # t) = Inr (IoMembers ms)) \<and>
     (\<forall>n len t. k_ioctl K (EvIoctl (sock g) SIOCBRDGGRL (name_of g) (IoRuleTable n len) # t) = Inr (IoRules (rules n)))"

lemma list_members_output:
  assumes K: "bridge_tables K g all rules" and ms: "\<forall>m\<in>set ms. member_ok m"
    and r: "\<forall>n. int (length (rules n) * sizeof_ifbrlreq + sizeof_ifbrlreq) < 2 ^ 30"
  shows "\<exists>w'. list_members K delim ms g w = Ok g w' \<and>
    stdout_of (trace w') = stdout_of (trace w) @ concat (map (member_output delim rules) ms)"
  using ms
proof (induction ms arbitrary: w)
  case (Cons m ms)
  let ?w1 = "puts_all [member_line delim m] w"
  show ?case
  proof (cases "br_ifsflags m AND IFBIF_SPAN = 0")
    case True
    let ?rs = "rules (ifsname (member_name m))" and ?w2 = "puts_all [port_line m] ?w1"
    obtain w3 where w3: "bridge_rules K (member_name m) 0 g ?w2 = Ok g w3"
      "stdout_of (trace w3) = stdout_of (trace ?w2) @ map bridge_showrule ?rs"
      using bridge_rules_output[of K ?rs g "member_name m" 0 ?w2] K r unfolding bridge_tables_def by blast
    obtain w' where "list_members K delim ms g w3 = Ok g w'"
      "stdout_of (trace w') = stdout_of (trace w3) @ concat (map (member_output delim rules) ms)"
      using Cons.IH[of w3] Cons.prems by auto
    with True w3 Cons.prems show ?thesis by (simp add: Let_def member_output_def[of delim rules m] stdout_puts_all)
  next
    case False
    with Cons.IH[of ?w1] Cons.prems show ?thesis by (simp add: Let_def member_output_def[of delim rules m] stdout_puts_all)
  qed
qed simp

text \<open>
  (C28) \<open>bridge_list\<close> ends and prints every member of the bridge in the kernel's order, each with its
  port and all of its rules (a span port with its flags only), however many times the buffers for the
  tables have to be enlarged, as long as each table is smaller than a gigabyte.
\<close>

theorem bridge_list_complete:
  assumes "bridge_tables K g ms rules" "\<forall>m\<in>set ms. member_ok m"
    "int (length ms * sizeof_ifbreq + sizeof_ifbreq) < 2 ^ 30"
    "\<forall>n. int (length (rules n) * sizeof_ifbrlreq + sizeof_ifbrlreq) < 2 ^ 30"
  shows "\<exists>w'. bridge_list K delim g w = Ok g w' \<and>
    stdout_of (trace w') = stdout_of (trace w) @ concat (map (member_output delim rules) ms)"
proof -
  let ?ask = "\<lambda>len w1. andthen (br_ioctl K g SIOCBRDGIFS (IoTable len) ''%s'' [AS (ifname g)] w1) (\<lambda>r. Ok (io_members r))"
  have a: "\<exists>w'. ?ask len v = Ok ms w' \<and> silent v w'" for len v
    using assms(1) by (simp add: bridge_tables_def br_ioctl_def ioctl_def Let_def silent_def)
  have mem: "k_mem K = (\<lambda>_. True)" using assms(1) by (simp add: bridge_tables_def)
  have "\<exists>w'. fetch K ?ask sizeof_ifbreq 8192 w = Ok ms w' \<and> silent w w'"
    by (rule fetch_complete[OF mem _ assms(3) a]) (simp_all add: sizeof_ifbreq_def INT_MAX_def)
  then obtain w1 where "fetch K ?ask sizeof_ifbreq 8192 w = Ok ms w1" "silent w w1" by blast
  with list_members_output[OF assms(1,2,4), of delim w1] show ?thesis
    by (simp add: bridge_list_def stdout_silent)
qed

definition sample_member :: ifbreq where
  "sample_member = \<lparr>br_ifsname = ''em0'', br_ifsflags = 0x0b, br_portno = 1, br_state = 3, br_priority = 128,
     br_path_cost = 55, br_role = 2\<rparr>"

definition bridge_kernel :: kernel where
  "bridge_kernel = sample_kernel\<lparr>k_ioctl := (\<lambda>t. case t of EvIoctl _ SIOCBRDGIFS _ _ # _ \<Rightarrow> Inr (IoMembers [sample_member])
     | _ \<Rightarrow> Inr (IoRules [sample_rule]))\<rparr>"

theorem bridge_list_complete_witness:
  "\<exists>w'. bridge_list bridge_kernel [CHR 0x09] sample_ifc sample_world = Ok sample_ifc w' \<and>
    stdout_of (trace w') = stdout_of (trace sample_world) @
      concat (map (member_output [CHR 0x09] (\<lambda>_. [sample_rule])) [sample_member])"
  by (rule bridge_list_complete)
     (simp_all add: bridge_tables_def bridge_kernel_def sample_kernel_def sample_member_def member_ok_def stpstates_def
       stproles_def sizeof_ifbreq_def sizeof_ifbrlreq_def)

end
