(* ===== verification/Conf_Ends.thy ===== *)
theory Conf_Ends
  imports Conf_Safety "HOL-Library.Product_Lexorder"
begin

text \<open>
  The parser of the configuration file ends. Every token takes characters from the input; a
  variable puts its value there, but takes a dollar sign for it, and there are no dollar signs in
  what is put back; an included file is new input. So the parser ends for every contents of the
  files unless files are included without end, and a bound on the number of files that can be
  opened is enough.
\<close>

section \<open>What is left to read\<close>

text \<open>The dollar signs in the files and in the push back buffer, and the files opened so far.\<close>

definition dollar :: "int \<Rightarrow> nat" where
  "dollar c = (if schar c = 36 then 1 else 0)"

definition dol :: "lexer \<Rightarrow> nat" where
  "dol L = sum_list (map (\<lambda>f. length (filter (\<lambda>c. ord c = 36) (fl_rest f))) (lx_files L)) +
     sum_list (map dollar (pushback L))"

fun is_open :: "event \<Rightarrow> bool" where
  "is_open (EvReadFile _) = True"
| "is_open _ = False"

definition opens :: "world \<Rightarrow> nat" where
  "opens w = length (filter is_open (trace w))"

lemma opens_simps [simp]:
  "opens (emit e w) = (if is_open e then Suc (opens w) else opens w)" "opens (set_errno x w) = opens w"
  by (simp_all add: opens_def emit_def set_errno_def)

lemma dol_simps [simp]:
  "dol (next_line L) = dol L" "dol (note_line L) = dol L" "dol (L\<lparr>yylineno := n\<rparr>) = dol L"
  "dol (L\<lparr>parsebuf := b\<rparr>) = dol L" "dol (L\<lparr>parseindex := i\<rparr>) = dol L" "dol (L\<lparr>symhead := h\<rparr>) = dol L"
  by (simp_all add: dol_def next_line_def note_line_def split: list.split)

text \<open>A step that leaves no more to read than there was, and opens no file.\<close>

definition spent :: "lexer \<Rightarrow> world \<Rightarrow> lexer \<Rightarrow> world \<Rightarrow> bool" where
  "spent L w L' w' \<longleftrightarrow> dol L' \<le> dol L \<and> mu L' \<le> mu L \<and> (lx_files L \<noteq> [] \<longrightarrow> lx_files L' \<noteq> []) \<and> opens w' = opens w"

lemma spent_refl [simp, intro]: "spent L w L w"
  by (simp add: spent_def)

lemma spent_trans [trans]: "spent L w L1 w1 \<Longrightarrow> spent L1 w1 L2 w2 \<Longrightarrow> spent L w L2 w2"
  by (auto simp: spent_def)

lemma mu_line [simp]: "mu (next_line L) = mu L" "mu (note_line L) = mu L"
  by (simp_all add: mu_def)

lemma files_line [simp]: "lx_files (next_line L) = [] \<longleftrightarrow> lx_files L = []" "lx_files (note_line L) = lx_files L"
  by (simp_all add: next_line_def note_line_def split: list.split)

lemma spent_line [simp]:
  "spent L w (next_line L') w' = spent L w L' w'" "spent L w (note_line L') w' = spent L w L' w'"
  "spent (next_line L) w L' w' = spent L w L' w'" "spent (note_line L) w L' w' = spent L w L' w'"
  by (simp_all add: spent_def)

lemma spent_errno [simp]: "spent L w L' (set_errno e w') = spent L w L' w'"
  by (simp add: spent_def)

lemma yyerror_spent: "yyerror f a L w = (L', w') \<Longrightarrow> spent L w L' w'"
  using yyerror_nu[of f a L w]
  by (auto simp: yyerror_def spent_def dol_def mu_def split: list.splits)

lemma popfile_spent: "popfile L w = (e, L', w') \<Longrightarrow> spent L w L' w'"
  using popfile_decr[of L w e L' w']
  by (auto simp: popfile_def spent_def dol_def mu_def split: list.splits)

section \<open>Characters\<close>

lemma dollar_simps [simp]: "dollar EOF = 0" "dollar 36 = 1" "dollar 0 = 0" "dollar 34 = 0" "dollar 39 = 0"
  by (simp_all add: dollar_def EOF_def schar_def)

lemma dollar_schar [simp]: "dollar (schar c) = dollar c"
proof -
  have "schar (schar c) = schar c"
    using pos_mod_bound[of 256 c] pos_mod_sign[of 256 c]
    by (simp add: schar_def Let_def mod_add_eq)
  then show ?thesis by (simp add: dollar_def)
qed

lemma dollar_ord [simp]: "dollar (int (ord c)) = (if ord c = 36 then 1 else 0)"
proof -
  have "ord c < 256" by simp
  then have "ord c \<noteq> 292" by linarith
  then show ?thesis by (auto simp: dollar_def schar_def Let_def)
qed

lemma getc_dol: "getc L = (c, L') \<Longrightarrow> dol L' + dollar c = dol L \<and> (lx_files L \<noteq> [] \<longrightarrow> lx_files L' \<noteq> [])"
  by (auto simp: getc_def dol_def split: list.splits)

lemma lgetc_cont_dol:
  "lgetc_cont L = (c, L') \<Longrightarrow> dol L' + dollar c \<le> dol L \<and> (lx_files L \<noteq> [] \<longrightarrow> lx_files L' \<noteq> [])"
proof (induction L rule: lgetc_cont.induct)
  case (1 L)
  obtain c1 L1 where g: "getc L = (c1, L1)" by fastforce
  obtain n L2 where h: "getc L1 = (n, L2)" by fastforce
  show ?case
  proof (cases "c1 = 92 \<and> n = 10")
    case False
    with 1(2) g h getc_dol[OF g] getc_dol[OF h] show ?thesis
      by (auto simp: lgetc_cont.simps[of L] split: if_splits)
  next
    case True
    with 1(2) g h have "lgetc_cont (next_line (note_line L2)) = (c, L')" by (simp add: lgetc_cont.simps[of L])
    with 1(1)[OF g[symmetric] _ h[symmetric]] True getc_dol[OF g] getc_dol[OF h] show ?thesis by auto
  qed
qed

lemma lgetc_eof_dol:
  "lgetc_eof c L w = (c', L', w') \<Longrightarrow>
     dol L' + dollar c' \<le> dol L + dollar c \<and> (lx_files L \<noteq> [] \<longrightarrow> lx_files L' \<noteq> []) \<and> opens w' = opens w"
proof (induction c L w rule: lgetc_eof.induct)
  case (1 c L w)
  obtain e L1 w1 where p: "popfile L w = (e, L1, w1)" by (metis prod_cases3)
  obtain c1 L2 where g: "getc L1 = (c1, L2)" by fastforce
  note d = popfile_spent[OF p, unfolded spent_def] getc_dol[OF g]
  show ?case
  proof (cases "c = EOF \<and> \<not> e")
    case False
    with 1(2) p d show ?thesis by (auto simp: lgetc_eof.simps[of c L w] split: if_splits)
  next
    case True
    with 1(2) p g have "lgetc_eof c1 L2 w1 = (c', L', w')" by (simp add: lgetc_eof.simps[of EOF L w])
    with 1(1)[OF _ p[symmetric] refl _ g[symmetric]] True d show ?thesis by auto
  qed
qed

lemma lgetc_file_dol:
  assumes "lgetc_file q L w = (c, L', w')" "dollar q = 0"
  shows "dol L' + dollar c \<le> dol L \<and> (lx_files L \<noteq> [] \<longrightarrow> lx_files L' \<noteq> []) \<and> opens w' = opens w"
proof (cases "q = 0")
  case True
  obtain c1 L1 where g: "lgetc_cont L = (c1, L1)" by fastforce
  with assms True have e: "lgetc_eof c1 L1 w = (c, L', w')" by (simp add: lgetc_file_def)
  from lgetc_cont_dol[OF g] lgetc_eof_dol[OF e] show ?thesis by auto
next
  case False
  obtain c1 L1 where g: "getc L = (c1, L1)" by fastforce
  obtain L2 w1 where y: "yyerror ''reached end of file while parsing quoted string'' [] L1 w = (L2, w1)" by fastforce
  obtain e L3 w2 where p: "popfile L2 w1 = (e, L3, w2)" by (metis prod_cases3)
  show ?thesis
    using assms False g y p getc_dol[OF g] popfile_spent[OF p] yyerror_spent[OF y]
    by (auto simp: lgetc_file_def spent_def split: if_splits)
qed

lemma lungetc_files [simp]: "lx_files (lungetc c L) = lx_files L"
  by (simp add: lungetc_def Let_def)

lemma lungetc_dol: "dol (lungetc c L) \<le> dol L + dollar c"
  by (auto simp: lungetc_def Let_def dol_def)

text \<open>A character that is read, and one that is read and put back.\<close>

lemma lgetc_spent:
  assumes "lgetc q L w = (c, L', w')" "dollar q = 0"
  shows "spent L w L' w'" "spent L w (lungetc c L') w'" "parsebuf L' = None \<Longrightarrow> dol L' + dollar c \<le> dol L"
proof -
  define rest where "rest = (\<lambda>L1. case pushback L1 of
                     c # p \<Rightarrow> (schar c, L1\<lparr>pushback := p\<rparr>, w)
                   | [] \<Rightarrow> lgetc_file q L1 w)"
  have r: "dol M' + dollar d \<le> dol M \<and> (lx_files M \<noteq> [] \<longrightarrow> lx_files M' \<noteq> []) \<and> opens v = opens w"
    if "rest M = (d, M', v)" for M d M' v
    using that lgetc_file_dol[OF _ assms(2), of M w d M' v] by (auto simp: rest_def dol_def split: list.splits)
  consider (none) "parsebuf L = None" "rest L = (c, L', w')"
    | (buf) s where "parsebuf L = Some s" "parseindex L \<ge> 0" "w' = w" "L' = L\<lparr>parseindex := parseindex L + 1\<rparr>"
    | (fin) s where "parsebuf L = Some s" "rest (L\<lparr>parsebuf := None, parseindex := parseindex L + 1\<rparr>) = (c, L', w')"
    | (neg) s where "parsebuf L = Some s" "rest (L\<lparr>parseindex := parseindex L + 1\<rparr>) = (c, L', w')"
    using assms unfolding rest_def lgetc_def by (auto simp: Let_def split: option.splits if_splits)
  then have d: "dol L' \<le> dol L \<and> dol (lungetc c L') \<le> dol L \<and> (parsebuf L' = None \<longrightarrow> dol L' + dollar c \<le> dol L) \<and>
      (lx_files L \<noteq> [] \<longrightarrow> lx_files L' \<noteq> []) \<and> opens w' = opens w"
  proof cases
    case none then show ?thesis using r[of L c L' w'] lungetc_dol[of c L'] by auto
  next
    case buf then show ?thesis by (auto simp: lungetc_def Let_def)
  next
    case fin then show ?thesis using r[OF fin(2)] lungetc_dol[of c L'] by auto
  next
    case neg then show ?thesis using r[OF neg(2)] lungetc_dol[of c L'] by auto
  qed
  have "mu (lungetc c L') \<le> mu L"
    using lgetc_decr(3)[OF assms(1)] lgetc_mu[OF assms(1)] lungetc_incr(1)[of c L'] by (cases "c = EOF") (auto simp: lungetc_def)
  with d lgetc_mu[OF assms(1)] show "spent L w L' w'" "spent L w (lungetc c L') w'"
    "parsebuf L' = None \<Longrightarrow> dol L' + dollar c \<le> dol L" by (auto simp: spent_def)
qed

section \<open>Tokens\<close>

lemma findeol_loop_spent: "findeol_loop L w = (L', w') \<Longrightarrow> spent L w L' w'"
proof (induction L w rule: findeol_loop.induct)
  case (1 L w)
  obtain c L1 w1 where g: "(case pushback L of c # p \<Rightarrow> (schar c, L\<lparr>pushback := p\<rparr>, w) | [] \<Rightarrow> lgetc 0 L w) = (c, L1, w1)"
    by (metis prod_cases3)
  have s: "spent L w L1 w1"
    using g lgetc_spent(1)[of 0 L w c L1 w1]
    by (auto simp: spent_def dol_def mu_def nu_def rem_buf_def split: list.splits option.split)
  show ?case
  proof (cases "c = 10 \<or> c = EOF")
    case True
    with 1(2) g s show ?thesis by (auto simp: findeol_loop.simps[of L] split: if_splits)
  next
    case False
    with 1(2) g have "findeol_loop L1 w1 = (L', w')" by (simp add: findeol_loop.simps[of L])
    with 1(1)[OF g[symmetric] refl] False s show ?thesis by (auto intro: spent_trans)
  qed
qed

lemma findeol_spent: "findeol L w = (t, L', w') \<Longrightarrow> spent L w L' w' \<and> t = TKw ERROR"
proof -
  assume f: "findeol L w = (t, L', w')"
  have "spent L w (L\<lparr>parsebuf := None\<rparr>) w" by (simp add: spent_def mu_def rem_buf_def)
  with f show ?thesis by (auto simp: findeol_def split: prod.splits intro: spent_trans[OF _ findeol_loop_spent])
qed

lemma lex_error_spent: "lex_error f a L w = (r, L', w') \<Longrightarrow> spent L w L' w' \<and> r = Inl (TKw ERROR)"
  by (auto simp: lex_error_def split: prod.splits dest!: findeol_spent yyerror_spent intro: spent_trans)

lemma lex_blank_spent:
  "lex_blank L w = (c, L', w') \<Longrightarrow> spent L w L' w' \<and> (c \<noteq> EOF \<longrightarrow> mu L' < mu L) \<and>
     (parsebuf L' = None \<longrightarrow> dol L' + dollar c \<le> dol L)"
proof (induction L w rule: lex_blank.induct)
  case (1 L w)
  obtain c1 L1 w1 where g: "lgetc 0 L w = (c1, L1, w1)" by (metis prod_cases3)
  note d = lgetc_spent(1,3)[OF g] lgetc_decr(3)[OF g]
  show ?case
  proof (cases "c1 = 32 \<or> c1 = 9")
    case True
    with 1(2) g have "lex_blank L1 w1 = (c, L', w')" by (subst (asm) lex_blank.simps) auto
    with 1(1)[OF g[symmetric] refl True] d show ?thesis by (auto simp: spent_def)
  next
    case False
    with 1(2) g d show ?thesis by (subst (asm) lex_blank.simps) auto
  qed
qed

lemma lex_comment_spent: "lex_comment L w = (c, L', w') \<Longrightarrow> spent L w L' w'"
proof (induction L w rule: lex_comment.induct)
  case (1 L w)
  obtain c1 L1 w1 where g: "lgetc 0 L w = (c1, L1, w1)" by (metis prod_cases3)
  show ?case
  proof (cases "c1 \<noteq> 10 \<and> c1 \<noteq> EOF")
    case True
    with 1(2) g have "lex_comment L1 w1 = (c, L', w')" by (subst (asm) lex_comment.simps) auto
    with 1(1)[OF g[symmetric] refl True] lgetc_spent(1)[OF g] show ?thesis by (auto intro: spent_trans)
  next
    case False
    with 1(2) g lgetc_spent(1)[OF g] show ?thesis by (subst (asm) lex_comment.simps) auto
  qed
qed

lemma lex_name_spent: "lex_name buf L w = (r, L', w') \<Longrightarrow> spent L w L' w'"
proof (induction buf L w rule: lex_name.induct)
  case (1 buf L w)
  obtain c1 L1 w1 where g: "lgetc 0 L w = (c1, L1, w1)" by (metis prod_cases3)
  show ?case
  proof (cases "c1 \<noteq> EOF \<and> \<not> length buf + 1 \<ge> sizeof_buf - 1 \<and> (isalnum (cch c1) \<or> c1 = 95)")
    case True
    with 1(2) g have "lex_name (buf @ [cch c1]) L1 w1 = (r, L', w')" by (subst (asm) lex_name.simps) auto
    with 1(1)[OF g[symmetric] refl] True lgetc_spent(1)[OF g] show ?thesis by (auto intro: spent_trans)
  next
    case False
    with 1(2) g lgetc_spent(1,2)[OF g] show ?thesis
      by (subst (asm) lex_name.simps) (auto dest!: lex_error_spent intro: spent_trans split: if_splits)
  qed
qed

lemma lex_quoted_spent: "lex_quoted q buf L w = (r, L', w') \<Longrightarrow> dollar q = 0 \<Longrightarrow> spent L w L' w'"
proof (induction q buf L w rule: lex_quoted.induct)
  case (1 q buf L w)
  obtain c L1 w1 where g: "lgetc q L w = (c, L1, w1)" by (metis prod_cases3)
  obtain n L2 w2 where h: "lgetc q L1 w1 = (n, L2, w2)" by (metis prod_cases3)
  note s = lgetc_spent(1)[OF g 1(7)] lgetc_spent(1,2)[OF h 1(7)]
  have t: "spent L w L2 w2" "spent L w (lungetc n L2) w2" using s by (auto intro: spent_trans)
  from 1(6) g h have
    "lex_quoted q buf (next_line L1) w1 = (r, L', w') \<and> c \<noteq> EOF \<and> c = 10 \<or>
     lex_quoted q buf (next_line L2) w2 = (r, L', w') \<and> c \<noteq> EOF \<and> c \<noteq> 10 \<and> c = 92 \<and> n \<noteq> EOF \<and> n \<noteq> q \<and> n = 10 \<or>
     lex_quoted q (buf @ [cch n]) L2 w2 = (r, L', w') \<and> c \<noteq> EOF \<and> c \<noteq> 10 \<and> c = 92 \<and> n \<noteq> EOF \<and> n = q \<and>
       \<not> length buf + 1 \<ge> sizeof_buf - 1 \<or>
     lex_quoted q (buf @ [cch c]) (lungetc n L2) w2 = (r, L', w') \<and> c \<noteq> EOF \<and> c \<noteq> 10 \<and> c = 92 \<and> n \<noteq> EOF \<and>
       \<not> (n \<noteq> q \<and> n = 10) \<and> n \<noteq> q \<and> \<not> length buf + 1 \<ge> sizeof_buf - 1 \<or>
     lex_quoted q (buf @ [cch c]) L1 w1 = (r, L', w') \<and> c \<noteq> EOF \<and> c \<noteq> 10 \<and> c \<noteq> 92 \<and> c \<noteq> q \<and>
       \<not> length buf + 1 \<ge> sizeof_buf - 1 \<or>
     spent L w L' w'"
    using s t
    by (subst (asm) lex_quoted.simps) (auto dest!: lex_error_spent intro: spent_trans split: if_splits)
  then show ?case
    using 1(1)[OF g[symmetric] refl] 1(2-4)[OF g[symmetric] refl _ _ _ h[symmetric] refl] 1(5)[OF g[symmetric] refl] 1(7) s t
    by (auto intro: spent_trans)
qed

text \<open>The loop over digits and words puts one character back and has taken the others.\<close>

lemma lex_chars_spent:
  "lex_chars ok c buf L w = (r, L', w') \<Longrightarrow> spent L w L' w' \<and>
     (\<forall>b c'. r = Inr (b, c') \<longrightarrow> mu L' + length b \<le> mu L + length buf + 1 \<and>
        (\<exists>d. b = buf @ cch c # d \<and> (\<forall>x\<in>set d. \<exists>y. x = cch y \<and> ok y)))"
proof (induction ok c buf L w rule: lex_chars.induct)
  case (1 ok c buf L w)
  obtain c1 L1 w1 where g: "lgetc 0 L w = (c1, L1, w1)" by (metis prod_cases3)
  have u: "c1 = EOF \<Longrightarrow> lungetc c1 L1 = L1" by (simp add: lungetc_def)
  note s = lgetc_spent(1,2)[OF g dollar_simps(3)] lgetc_decr(3)[OF g]
  show ?case
  proof (cases "length (buf @ [cch c]) \<ge> sizeof_buf")
    case True
    with 1(2) show ?thesis by (subst (asm) lex_chars.simps) (auto simp: Let_def dest!: lex_error_spent)
  next
    case len: False
    show ?thesis
    proof (cases "c1 \<noteq> EOF \<and> ok c1")
      case True
      with len 1(2) g have e: "lex_chars ok c1 (buf @ [cch c]) L1 w1 = (r, L', w')"
        by (subst (asm) lex_chars.simps) (auto simp: Let_def)
      from 1(1)[OF refl len g[symmetric] refl True e] s True show ?thesis
        by (fastforce intro: spent_trans)
    next
      case False
      with len 1(2) g have "r = Inr (buf @ [cch c], c1)" "L' = lungetc c1 L1" "w' = w1"
        by (subst (asm) lex_chars.simps, auto simp: Let_def)+
      with s show ?thesis by (auto simp: spent_def)
    qed
  qed
qed

lemma fold_lungetc:
  "list_all (\<lambda>c. dollar c = 0) cs \<Longrightarrow> dol (fold lungetc cs L) \<le> dol L \<and>
     mu (fold lungetc cs L) \<le> mu L + length cs \<and> lx_files (fold lungetc cs L) = lx_files L"
proof (induction cs arbitrary: L)
  case (Cons c cs)
  with lungetc_dol[of c L] lungetc_incr(1)[of c L] show ?case by (fastforce dest: Cons.IH[of "lungetc c L"])
qed simp

lemma strtonum_opens: "strtonum s a b w = (n, e, w') \<Longrightarrow> opens w' = opens w"
  by (auto simp: strtonum_def opens_def split: prod.splits if_splits)

lemma lex_number_spent: "lex_number c L w = (r, L', w') \<Longrightarrow> spent L w L' w'"
proof (cases "c = 45 \<or> isdigit (cch c)")
  case False
  moreover assume "lex_number c L w = (r, L', w')"
  ultimately show ?thesis by (auto simp: lex_number_def)
next
  case True
  assume r: "lex_number c L w = (r, L', w')"
  obtain x L1 w1 where x: "lex_chars (\<lambda>x. isdigit (cch x)) c [] L w = (x, L1, w1)" by (metis prod_cases3)
  note s = lex_chars_spent[OF x]
  show ?thesis
  proof (cases x)
    case (Inl t)
    with r x True s show ?thesis by (auto simp: lex_number_def)
  next
    case (Inr y)
    then obtain b c1 where y: "x = Inr (b, c1)" by (cases y) auto
    with s obtain d where d: "b = cch c # d" "\<forall>a\<in>set d. isdigit a" "mu L1 + length d \<le> mu L" by fastforce
    let ?L2 = "fold lungetc (map (\<lambda>x. int (ord x)) (rev (tl b))) L1"
    have "list_all (\<lambda>c. dollar c = 0) (map (\<lambda>x. int (ord x)) (rev (tl b)))"
      using d(1,2) by (auto simp: list_all_iff isdigit_def)
    from fold_lungetc[OF this, of L1] d have "mu ?L2 \<le> mu L" "dol ?L2 \<le> dol L1" "lx_files ?L2 = lx_files L1" by auto
    with s have "spent L w ?L2 w1" by (auto simp: spent_def)
    moreover have "spent L w L' w'" if "strtonum b LLONG_MIN LLONG_MAX w1 = (n, e, v)" "(L', w') = (L1, v)" for n e v
      using s that strtonum_opens[OF that(1)] by (auto simp: spent_def)
    moreover have "spent L w L' w'"
      if "strtonum b LLONG_MIN LLONG_MAX w1 = (n, e, v)" "lex_error f a L1 v = (r, L', w')" for n e v f a
      using s lex_error_spent[OF that(2)] strtonum_opens[OF that(1)] by (auto simp: spent_def)
    ultimately show ?thesis
      using r x y True by (auto simp: lex_number_def Let_def split: if_splits prod.splits option.splits)
  qed
qed

lemma alloc_opens: "alloc K n w = (ok, w') \<Longrightarrow> opens w' = opens w"
  by (auto simp: alloc_def Let_def split: if_splits)

lemma lex_strdup_spent: "lex_strdup K b L w = Ok (t, L') w' \<Longrightarrow> spent L w L' w' \<and> t \<noteq> TEnd"
  by (auto simp: lex_strdup_def Let_def spent_def err_def dest!: alloc_opens split: prod.splits if_splits)

lemma lex_word_spent: "lex_word K c L w = Ok (t, L') w' \<Longrightarrow> spent L w L' w'"
  by (auto simp: lex_word_def Let_def split: if_splits prod.splits sum.splits token.splits
      dest!: lex_strdup_spent lex_chars_spent intro: spent_trans)

lemma lex_char_spent: "lex_char K c L w = Ok (t, L') w' \<Longrightarrow> spent L w L' w'"
  by (auto simp: lex_char_def split: if_splits prod.splits sum.splits
      dest!: lex_strdup_spent lex_quoted_spent lex_number_spent lex_word_spent intro: spent_trans)

lemma lex_char_EOF: "lex_char K EOF L w = Ok (TEnd, L) w"
  by (simp add: lex_char_def lex_number_def lex_word_def EOF_def cch_def isdigit_def isalnum_def isalpha_def isupper_def
      islower_def Let_def)

text \<open>
  A token: fewer dollar signs are left, or as many and fewer characters. Only the end of the input
  may leave everything as it was.
\<close>

definition took :: "bool \<Rightarrow> lexer \<Rightarrow> world \<Rightarrow> lexer \<Rightarrow> world \<Rightarrow> bool" where
  "took strict L w L' w' \<longleftrightarrow> (dol L' < dol L \<or> dol L' = dol L \<and> (mu L' < mu L \<or> \<not> strict \<and> mu L' = mu L)) \<and>
     (lx_files L \<noteq> [] \<longrightarrow> lx_files L' \<noteq> []) \<and> opens w' = opens w"

lemma yylex_took: "yylex K L w = Ok (t, L') w' \<Longrightarrow> took (t \<noteq> TEnd) L w L' w'"
proof (induction K L w rule: yylex.induct)
  case (1 K L w)
  obtain c0 L1 w1 where b: "lex_blank L w = (c0, L1, w1)" by (metis prod_cases3)
  obtain c L2 w2 where m: "(if c0 = 35 then lex_comment (note_line L1) w1 else (c0, note_line L1, w1)) = (c, L2, w2)"
    by (metis prod_cases3)
  note s = lex_blank_spent[OF b]
  have s2: "spent L w L2 w2" "c0 \<noteq> EOF \<longrightarrow> mu L2 < mu L" "c \<noteq> EOF \<longrightarrow> c0 \<noteq> EOF"
    using s m lex_comment_spent[of "note_line L1" w1 c L2 w2] by (auto simp: spent_def EOF_def split: if_splits)
  show ?case
  proof (cases "c = 36 \<and> parsebuf L2 = None")
    case False
    with 1(2) b m have l: "lex_char K c L2 w2 = Ok (t, L') w'" by (subst (asm) yylex.simps) auto
    from lex_char_spent[OF l] s2 lex_char_EOF[of K L2 w2] l show ?thesis
      by (cases "c = EOF") (auto simp: took_def spent_def)
  next
    case True
    with m have "c0 = 36" "L2 = note_line L1" "w2 = w1"
      using lex_comment_ends[of "note_line L1" w1 c L2 w2] by (auto simp: EOF_def split: if_splits)
    with s True have d: "dol L2 < dol L" by auto
    obtain r L3 w3 where n: "lex_name [] L2 w2 = (r, L3, w3)" by (metis prod_cases3)
    note s3 = lex_name_spent[OF n]
    show ?thesis
    proof (cases r)
      case (Inl u)
      with 1(2) b m True n s3 s2 d show ?thesis by (subst (asm) yylex.simps) (auto simp: took_def spent_def)
    next
      case (Inr buf)
      obtain v L4 where v: "symget buf L3 = (v, L4)" by fastforce
      have s4: "spent L3 w3 L4 w3 \<and> dol L4 = dol L3" using v by (auto simp: symget_def spent_def mu_def rem_buf_def split: option.splits)
      show ?thesis
      proof (cases v)
        case None
        with 1(2) b m True n Inr v s3 s2 s4 d show ?thesis
          by (subst (asm) yylex.simps) (auto simp: took_def spent_def split: prod.splits dest!: findeol_spent yyerror_spent)
      next
        case (Some val)
        with 1(2) b m True n Inr v have e: "yylex K (L4\<lparr>parsebuf := Some val, parseindex := 0\<rparr>) w3 = Ok (t, L') w'"
          by (subst (asm) yylex.simps) auto
        from 1(1)[OF b[symmetric] refl m[symmetric] refl True n[symmetric] Inr refl v[symmetric] Some e] s3 s2 s4 d
        show ?thesis by (auto simp: took_def spent_def)
      qed
    qed
  qed
qed

section \<open>Steps of the parser\<close>

text \<open>
  The rank of a state of the parser, in lexicographic order: the files that can still be opened,
  the dollar signs and characters left, and the lookahead, which is read at most once.
\<close>

fun token_rank :: "token option \<Rightarrow> nat" where
  "token_rank None = 1"
| "token_rank (Some t) = (if t = TEnd then 0 else 2)"

definition rank :: "nat \<Rightarrow> pstate \<Rightarrow> world \<Rightarrow> nat \<times> nat \<times> nat \<times> nat" where
  "rank N p w = (N - opens w, dol (lx p), mu (lx p), token_rank (ahead p))"

abbreviation reading :: "pstate \<Rightarrow> bool" where
  "reading p \<equiv> lx_files (lx p) \<noteq> []"

lemma peek_rank:
  assumes "peek K p w = Ok (t, p') w'" "reading p"
  shows "rank N p' w' \<le> rank N p w" "reading p'" "ahead p' = Some t" "blocks p' = blocks p"
proof -
  have "rank N p' w' \<le> rank N p w \<and> reading p' \<and> ahead p' = Some t \<and> blocks p' = blocks p"
  proof (cases "ahead p")
    case (Some u)
    with assms show ?thesis by (simp add: peek_def)
  next
    case None
    with assms obtain u L where u: "yylex K (lx p) w = Ok (u, L) w'" "t = yychar u" "p' = p\<lparr>lx := L, ahead := Some t\<rparr>"
      by (auto simp: peek_def andthen_Ok_iff)
    from yylex_took[OF u(1)] u(2,3) assms(2) None show ?thesis
      by (cases u) (auto simp: took_def rank_def)
  qed
  then show "rank N p' w' \<le> rank N p w" "reading p'" "ahead p' = Some t" "blocks p' = blocks p" by auto
qed

lemma shift_rank: "ahead p = Some t \<Longrightarrow> t \<noteq> TEnd \<Longrightarrow> rank N (shift p) w < rank N p w"
  by (simp add: rank_def shift_def)

text \<open>A step that needs no more than what is left.\<close>

definition lean :: "nat \<Rightarrow> (pstate \<Rightarrow> world \<Rightarrow> step_result) \<Rightarrow> bool" where
  "lean N f \<longleftrightarrow> (\<forall>p w b p' w'. f p w = Ok (b, p') w' \<longrightarrow> reading p \<longrightarrow> rank N p' w' \<le> rank N p w \<and> reading p')"

lemma leanI:
  "(\<And>p w b p' w'. f p w = Ok (b, p') w' \<Longrightarrow> reading p \<Longrightarrow> rank N p' w' \<le> rank N p w \<and> reading p') \<Longrightarrow> lean N f"
  by (simp add: lean_def)

lemma leanD: "lean N f \<Longrightarrow> f p w = Ok (b, p') w' \<Longrightarrow> reading p \<Longrightarrow> rank N p' w' \<le> rank N p w \<and> reading p'"
  by (simp add: lean_def)

lemma lean_error: "lean N (p_error m a)" "lean N syntax_error"
proof -
  have e: "rank N (p\<lparr>lx := L\<rparr>) w' \<le> rank N p w \<and> lx_files L \<noteq> []"
    if "yyerror m a (lx p) w = (L, w')" "reading p" for m a p w L w'
    using yyerror_spent[OF that(1)] that(2) by (auto simp: spent_def rank_def)
  then show "lean N (p_error m a)" "lean N syntax_error"
    by (auto intro!: leanI simp: p_error_def syntax_error_def split: prod.splits if_splits)
qed

definition same_input :: "(pstate \<Rightarrow> pstate) \<Rightarrow> bool" where
  "same_input g \<longleftrightarrow> (\<forall>p. lx (g p) = lx p \<and> ahead (g p) = ahead p)"

lemma same_input_rank: "same_input g \<Longrightarrow> rank N (g p) w = rank N p w" "same_input g \<Longrightarrow> reading (g p) = reading p"
  by (simp_all add: same_input_def rank_def)

lemma lean_update: "lean N f \<Longrightarrow> same_input g \<Longrightarrow> lean N (\<lambda>p. f (g p))"
  by (rule leanI) (metis leanD same_input_rank)

lemma lean_act: "same_input g \<Longrightarrow> lean N (act g)"
  by (rule leanI) (auto simp: act_def same_input_rank)

lemma same_input_simps [simp, intro]:
  "same_input (\<lambda>p. p)" "same_input (on_eth f)" "same_input (on_wlan h)" "same_input (point_eth q)" "same_input (point_wlan q)"
  "same_input (\<lambda>p. point_eth (staticonfig p) p)" "same_input (\<lambda>p. point_wlan (staticonfig p) p)"
  "same_input (\<lambda>p. point_eth None (on_eth f p))" "same_input (\<lambda>p. p\<lparr>p_upinterval := i\<rparr>)" "same_input (set_place pl)"
  "same_input push_static" "same_input (new_eth s)" "same_input (new_wlan s)" "same_input (new_net s)"
  by (simp_all add: same_input_def on_eth_def on_wlan_def point_eth_def point_wlan_def set_place_def push_static_def
      new_eth_def new_wlan_def new_net_def push_wpa_def push_wlan_def point_wpa_def Let_def split: list.split prod.split)

lemma lean_pointer: "lean N (on_static f)" "lean N (on_wpa h)"
  by (auto simp: lean_def on_static_def on_wpa_def rank_def split: option.splits)

lemma lean_peek:
  assumes "\<And>t p w b p' w'. F t p w = Ok (b, p') w' \<Longrightarrow> reading p \<Longrightarrow> ahead p = Some t \<Longrightarrow>
     rank N p' w' \<le> rank N p w \<and> reading p'"
  shows "lean N (\<lambda>p w. andthen (peek K p w) (\<lambda>(t, p1). F t p1))"
proof (rule leanI)
  fix p w b p' w'
  assume r: "andthen (peek K p w) (\<lambda>(t, p1). F t p1) = Ok (b, p') w'" "reading p"
  then obtain t p1 w1 where q: "peek K p w = Ok (t, p1) w1" "F t p1 w1 = Ok (b, p') w'" by (auto simp: andthen_Ok_iff)
  note d = peek_rank[OF q(1) r(2)]
  from assms[OF q(2) d(2,3)] d(1)[of N] show "rank N p' w' \<le> rank N p w \<and> reading p'" by auto
qed

lemma lean_shift:
  assumes "lean N f" "f (shift p) w = Ok (b, p') w'" "ahead p = Some t" "t \<noteq> TEnd" "reading p"
  shows "rank N p' w' < rank N p w \<and> reading p'"
proof -
  have "reading (shift p)" using assms(5) by (simp add: shift_def)
  from leanD[OF assms(1,2) this] shift_rank[OF assms(3,4), of N w] show ?thesis by auto
qed

lemma lean_token:
  "(\<And>s. lean N (f s)) \<Longrightarrow> lean N (with_string K f)" "(\<And>n. lean N (g n)) \<Longrightarrow> lean N (with_number K g)"
  "(\<And>b. lean N (h b)) \<Longrightarrow> lean N (with_yesno K h)"
proof -
  note e = leanD[OF lean_error(2)[of N]]
  show "lean N (with_string K f)" if l: "\<And>s. lean N (f s)"
    unfolding with_string_def
  proof (rule lean_peek)
    fix t p w b p' w'
    assume "(case t of STRING s \<Rightarrow> f s (shift p) w | _ \<Rightarrow> syntax_error p w) = Ok (b, p') w'" "reading p" "ahead p = Some t"
    then show "rank N p' w' \<le> rank N p w \<and> reading p'" by (cases t) (auto dest: e lean_shift[OF l] less_imp_le)
  qed
  show "lean N (with_number K g)" if l: "\<And>n. lean N (g n)"
    unfolding with_number_def
  proof (rule lean_peek)
    fix t p w b p' w'
    assume "(case t of NUMBER n \<Rightarrow> g n (shift p) w | _ \<Rightarrow> syntax_error p w) = Ok (b, p') w'" "reading p" "ahead p = Some t"
    then show "rank N p' w' \<le> rank N p w \<and> reading p'" by (cases t) (auto dest: e lean_shift[OF l] less_imp_le)
  qed
  show "lean N (with_yesno K h)" if l: "\<And>b. lean N (h b)"
    unfolding with_yesno_def
  proof (rule lean_peek)
    fix t p w b p' w'
    assume a: "(if t = TKw YES then h True (shift p) w else if t = TKw NO then h False (shift p) w else syntax_error p w) = Ok (b, p') w'"
      "reading p" "ahead p = Some t"
    then consider "t \<noteq> TEnd" "h True (shift p) w = Ok (b, p') w'" | "t \<noteq> TEnd" "h False (shift p) w = Ok (b, p') w'"
      | "syntax_error p w = Ok (b, p') w'" by (auto split: if_splits)
    then show "rank N p' w' \<le> rank N p w \<and> reading p'"
      by cases (use a(2,3) e lean_shift[OF l] less_imp_le in blast)+
  qed
qed

lemma lean_calloc: "lean N f \<Longrightarrow> lean N (calloc K n m f)"
proof (rule leanI)
  fix p w b p' w'
  assume f: "lean N f" and c: "calloc K n m f p w = Ok (b, p') w'" and r: "reading p"
  obtain ok w1 where a: "alloc K n w = (ok, w1)" by fastforce
  with c have "f p w1 = Ok (b, p') w'" by (auto simp: calloc_def errx_def split: if_splits)
  from leanD[OF f this r] alloc_opens[OF a] show "rank N p' w' \<le> rank N p w \<and> reading p'" by (simp add: rank_def)
qed

lemma lean_new_static: "lean N f \<Longrightarrow> lean N (new_static K f)"
  unfolding new_static_def by (rule lean_calloc, rule lean_update) (simp_all add: same_input_def)

lemma lean_open: "lean N (open_block K b)"
  unfolding open_block_def
  by (rule lean_peek) (auto simp: rank_def shift_def end_block_def split: if_splits)

section \<open>Options\<close>

text \<open>A bound on the number of files that can be opened.\<close>

definition bounded_files :: "nat \<Rightarrow> kernel \<Rightarrow> bool" where
  "bounded_files N K \<longleftrightarrow> (\<forall>t. length (filter is_open t) > N \<longrightarrow> (\<exists>e. k_file K t = Inl e))"

lemma secrecy_opens: "check_file_secrecy K f w = (ok, w') \<Longrightarrow> opens w' = opens w"
  by (auto simp: check_file_secrecy_def fstat_def sys_int_def Let_def warn_def warnx_def split: prod.splits sum.splits if_splits option.splits)

lemma pushfile_opens:
  assumes "pushfile K nm sec L w = (r, w')" "bounded_files N K" "lx_files L \<noteq> []"
  shows "opens w \<le> opens w'" "r = Some L' \<Longrightarrow> opens w < opens w' \<and> opens w' \<le> N \<and> lx_files L' \<noteq> []"
proof -
  obtain ok w1 where a: "alloc K 48 w = (ok, w1)" by fastforce
  obtain ok2 w2 where b: "alloc K (length nm + 1) w1 = (ok2, w2)" by fastforce
  obtain c w3 where c: "fopen K nm w2 = (c, w3)" by fastforce
  obtain d w4 where d: "check_file_secrecy K nm w3 = (d, w4)" by fastforce
  have o: "opens w3 = Suc (opens w)" "c = Some x \<Longrightarrow> opens w3 \<le> N" for x
    using c alloc_opens[OF a] alloc_opens[OF b] assms(2)
    by (auto simp: fopen_def Let_def bounded_files_def opens_def emit_def set_errno_def split: sum.splits)
       (metis Inl_Inr_False filter.simps(2) is_open.simps(1) length_Cons not_less)+
  show "opens w \<le> opens w'" "r = Some L' \<Longrightarrow> opens w < opens w' \<and> opens w' \<le> N \<and> lx_files L' \<noteq> []"
    using assms(1,3) a b c d o alloc_opens[OF a] alloc_opens[OF b] secrecy_opens[OF d]
    by (auto simp: pushfile_def Let_def warn_def split: if_splits option.splits bool.splits)
qed

lemma eth_option_lean: "eth_option K k = Some f \<Longrightarrow> lean N f"
proof -
  have d: "lean N (\<lambda>p w. if b then act (\<lambda>p. point_eth None (on_eth (\<lambda>e. e\<lparr>eth_isdhcp := 1\<rparr>) p)) p w
     else let p1 = on_eth (\<lambda>e. e\<lparr>eth_isdhcp := 0\<rparr>) p; fin = act (\<lambda>p. point_eth (staticonfig p) p) in
          if staticonfig p1 = None then new_static K fin p1 w else fin p1 w)" for b
  proof (cases b)
    case True
    then show ?thesis by (simp add: lean_act)
  next
    case False
    let ?g = "on_eth (\<lambda>e. e\<lparr>eth_isdhcp := 0\<rparr>)" and ?fin = "act (\<lambda>p. point_eth (staticonfig p) p)"
    have "lean N (\<lambda>p. new_static K ?fin (?g p))" "lean N (\<lambda>p. ?fin (?g p))"
      by (rule lean_update; simp add: lean_new_static lean_act)+
    with False show ?thesis by (auto simp: lean_def Let_def)
  qed
  assume "eth_option K k = Some f"
  then show ?thesis
    by (cases k) (auto intro!: lean_token lean_act lean_pointer d split del: if_split)
qed

lemma wlan_option_lean: "wlan_option K k = Some f \<Longrightarrow> lean N f"
proof -
  have d: "lean N (\<lambda>p w. if b then act (on_wlan (\<lambda>x. x\<lparr>wl_isdhcp := 1\<rparr>)) p w
     else new_static K (act (\<lambda>p. point_wlan (staticonfig p) p)) (on_wlan (\<lambda>x. x\<lparr>wl_isdhcp := 0\<rparr>) p) w)" for b
  proof (cases b)
    case True
    then show ?thesis by (simp add: lean_act)
  next
    case False
    have "lean N (\<lambda>p. new_static K (act (\<lambda>p. point_wlan (staticonfig p) p)) (on_wlan (\<lambda>x. x\<lparr>wl_isdhcp := 0\<rparr>) p))"
      by (rule lean_update; simp add: lean_new_static lean_act)
    with False show ?thesis by simp
  qed
  assume "wlan_option K k = Some f"
  then show ?thesis
    by (cases k) (auto intro!: lean_token lean_act lean_pointer lean_open d split del: if_split)
qed

lemma net_option_lean: "net_option K k = Some f \<Longrightarrow> lean N f"
proof -
  note st = lean_update[where f = "new_static K F" for F] and op = lean_update[where f = "open_block K b" for b, OF lean_open]
    and al = lean_update[where f = "calloc K n m F" for n m F]
  assume "net_option K k = Some f"
  then consider (e) "Some f = net_option K ETHERNETNAME" | (w) "Some f = net_option K WIRELESSNAME" by (cases k) auto
  then show ?thesis
  proof cases
    case e
    show ?thesis
      unfolding e[unfolded net_option.simps option.inject] Let_def
      by (rule lean_token(1), rule lean_calloc, rule st, rule lean_new_static, rule op)
         (simp_all add: same_input_def point_eth_def split: list.split)
  next
    case w
    show ?thesis
      unfolding w[unfolded net_option.simps option.inject] Let_def
      by (rule lean_token(1), rule lean_calloc, rule st, rule lean_new_static,
          rule al, rule lean_calloc, rule op)
         (simp_all add: same_input_def point_wlan_def split: list.split prod.split)
  qed
qed

lemma include_lean:
  assumes "bounded_files N K"
  shows "lean N (\<lambda>p w. case pushfile K nm True (lx p) w of
       (None, w1) \<Rightarrow> p_error ''failed to include file %s'' [AS nm] p w1
     | (Some L, w1) \<Rightarrow> Ok (True, p\<lparr>lx := lungetc 10 L\<rparr>) w1)"
proof (rule leanI)
  fix p w b p' w'
  assume r: "(case pushfile K nm True (lx p) w of
       (None, w1) \<Rightarrow> p_error ''failed to include file %s'' [AS nm] p w1
     | (Some L, w1) \<Rightarrow> Ok (True, p\<lparr>lx := lungetc 10 L\<rparr>) w1) = Ok (b, p') w'" and f: "reading p"
  obtain x w1 where x: "pushfile K nm True (lx p) w = (x, w1)" by fastforce
  note o = pushfile_opens[OF x assms f]
  show "rank N p' w' \<le> rank N p w \<and> reading p'"
  proof (cases x)
    case None
    with r x have e: "p_error ''failed to include file %s'' [AS nm] p w1 = Ok (b, p') w'" by simp
    have "rank N p w1 \<le> rank N p w" using o(1) by (auto simp: rank_def)
    with leanD[OF lean_error(1)[of N] e f] show ?thesis by auto
  next
    case (Some L)
    with r x have "p' = p\<lparr>lx := lungetc 10 L\<rparr>" "w' = w1" by auto
    with o(2)[OF Some] show ?thesis by (auto simp: rank_def)
  qed
qed

lemma network_lean: "lean N (\<lambda>p w. andthen (peek K (p\<lparr>p_nets := n # p_nets p\<rparr>) w) (\<lambda>(t, p1) w1.
     if t = TChr 123 then Ok (True, (shift p1)\<lparr>blocks := (BNet, PFirst) # blocks p1\<rparr>) w1 else syntax_error p1 w1))"
proof -
  have "lean N (\<lambda>p w. andthen (peek K p w) (\<lambda>(t, p1) w1.
     if t = TChr 123 then Ok (True, (shift p1)\<lparr>blocks := (BNet, PFirst) # blocks p1\<rparr>) w1 else syntax_error p1 w1))"
    by (rule lean_peek) (auto simp: rank_def shift_def split: if_splits dest!: leanD[OF lean_error(2)[of N], unfolded rank_def])
  from lean_update[OF this, of "\<lambda>p. p\<lparr>p_nets := n # p_nets p\<rparr>"] show ?thesis by (simp add: same_input_def)
qed

lemma top_option_lean:
  assumes "bounded_files N K" "top_option K k = Some f"
  shows "lean N f"
proof -
  have u: "lean N (\<lambda>p w. if n < MIN_UPDATE_INTERVAL then p_error m a p w else act (\<lambda>p. p\<lparr>p_upinterval := to_int n\<rparr>) p w)" for n m a
    using lean_error(1)[of N] lean_act[of "\<lambda>p. p\<lparr>p_upinterval := to_int n\<rparr>" N] by (auto simp: lean_def)
  have n: "lean N (\<lambda>p w. if length s > MAX_NETWORK_NAME_SIZE then p_error m a p w
     else calloc K 552 ''new_network: calloc'' (\<lambda>p w.
       andthen (peek K (p\<lparr>p_nets := \<lparr>pn_name = take 512 s, pn_eths = [], pn_wlans = []\<rparr> # p_nets p\<rparr>) w) (\<lambda>(t, p1) w1.
         if t = TChr 123 then Ok (True, (shift p1)\<lparr>blocks := (BNet, PFirst) # blocks p1\<rparr>) w1
         else syntax_error p1 w1)) p w)" for s m a
    using lean_error(1)[of N] lean_calloc[OF network_lean, of N K 552 "''new_network: calloc''" K] by (auto simp: lean_def)
  from assms(2) show ?thesis
    by (cases k) (auto intro!: lean_token u n include_lean[OF assms(1)] simp del: MIN_UPDATE_INTERVAL_def split del: if_split)
qed

lemma option_lean:
  assumes "bounded_files N K" "option_of K b k = Some f"
  shows "lean N f"
proof -
  have wpa: "wpa_option K k = Some f \<Longrightarrow> lean N f" by (cases k) (auto intro!: lean_token lean_pointer)
  have wep: "wep_option K k = Some f \<Longrightarrow> lean N f" by (cases k) (auto intro!: lean_token lean_act)
  from assms wpa wep eth_option_lean wlan_option_lean net_option_lean top_option_lean show ?thesis
    by (auto simp: option_of_def split: block.splits)
qed

section \<open>The whole parser\<close>

lemma symset_left: "symset K nm v ps L w = (r, L', w') \<Longrightarrow> dol L' = dol L \<and> mu L' = mu L \<and> lx_files L' = lx_files L \<and> opens w' = opens w"
  by (auto simp: symset_def Let_def mu_def rem_buf_def dest!: alloc_opens split: option.splits prod.splits if_splits)

lemma set_place_input [simp]: "lx (set_place pl p) = lx p" "ahead (set_place pl p) = ahead p"
  by (simp_all add: set_place_def split: list.split prod.split)

lemma place_step_rank:
  assumes K: "bounded_files N K" and r: "place_step K b pl t p w = Ok (ok, p') w'" and p: "reading p" "ahead p = Some t"
  shows "rank N p' w' \<le> rank N p w \<and> reading p' \<and> (ok \<longrightarrow> rank N p' w' < rank N p w)"
proof -
  have strict: "rank N p' w' \<le> rank N p w \<and> reading p' \<and> (ok \<longrightarrow> rank N p' w' < rank N p w)"
    if "lean N f" "f (shift p) w = Ok (ok, p') w'" "t \<noteq> TEnd" for f
    using lean_shift[OF that(1,2) p(2) that(3) p(1)] by auto
  have e: "rank N p' w' \<le> rank N p w \<and> reading p' \<and> (ok \<longrightarrow> rank N p' w' < rank N p w)" if "syntax_error p w = Ok (ok, p') w'"
    using leanD[OF lean_error(2)[of N] that p(1)] that by (auto simp: syntax_error_def p_error_def split: if_splits prod.splits)
  have ok: "lean N (\<lambda>p. Ok (True, g p))" if "same_input g" for g using lean_act[OF that] by (simp add: lean_def act_def)
  have val: "lean N (\<lambda>q w. case alloc K n w of (good, w1) \<Rightarrow> if good then Ok (True, set_place x q) w1 else p_error m a q w1)" for n x m a
  proof (rule leanI)
    fix q v c q' v'
    assume q: "(case alloc K n v of (good, w1) \<Rightarrow> if good then Ok (True, set_place x q) w1 else p_error m a q w1) = Ok (c, q') v'" "reading q"
    obtain good v1 where al: "alloc K n v = (good, v1)" by fastforce
    then have "rank N q v1 = rank N q v" by (simp add: rank_def alloc_opens)
    with q al leanD[OF lean_error(1)[of N], of m a q v1] show "rank N q' v' \<le> rank N q v \<and> reading q'"
      by (auto simp: same_input_rank split: if_splits)
  qed
  have var: "lean N (\<lambda>q w. case symset K nm v 0 (lx q) w of (r, L, w1) \<Rightarrow>
      if r = - 1 then err K m [] w1 else Ok (True, set_place PMore (q\<lparr>lx := L\<rparr>)) w1)" for nm v m
    by (rule leanI) (auto simp: err_def same_input_rank rank_def dest!: symset_left split: prod.splits if_splits)
  have opt: "lean N (\<lambda>q. f (set_place (after_option b pl) q))" if "option_of K b k = Some f" for f k
    by (rule lean_update[OF option_lean[OF K that]]) simp
  have close: "lean N (\<lambda>q. Ok (True, (end_block b q)\<lparr>blocks := tl (blocks q)\<rparr>))"
    by (rule ok) (simp add: same_input_def end_block_def)
  have name: "lean N (with_string K (\<lambda>v p w. Ok (True, set_place (PVar x v) p) w))" for x
    by (rule lean_token(1), rule ok) simp
  have nl: "lean N (\<lambda>q. Ok (True, set_place PMore q))" "lean N (\<lambda>q. Ok (True, q))" by (rule ok; simp)+
  have sh: "lx (shift p) = lx p" "shift (p\<lparr>lx := L\<rparr>) = (shift p)\<lparr>lx := L\<rparr>" "blocks (shift p) = blocks p" for L
    by (simp_all add: shift_def)
  show ?thesis
  proof (cases pl)
    case PLine
    with r e strict[OF nl(1)] show ?thesis by (auto simp: place_step_def split: if_splits)
  next
    case (PVar nm v)
    obtain x L w1 where "symset K nm v 0 (lx p) w = (x, L, w1)" by (metis prod_cases3)
    with PVar r e strict[OF val] strict[OF var[where nm = nm and v = v and m = "''cannot store variable''"]] show ?thesis
      by (cases t) (auto simp: place_step_def sh split: if_splits)
  next
    case PSkip
    with r e strict[OF nl(2)] strict[OF close] strict[OF opt] strict[OF name] show ?thesis
      by (cases t) (auto simp: place_step_def sh split: if_splits option.splits)
  next
    case PFirst
    with r e strict[OF nl(2)] strict[OF close] strict[OF opt] strict[OF name] show ?thesis
      by (cases t) (auto simp: place_step_def sh split: if_splits option.splits)
  next
    case PMore
    with r e strict[OF nl(2)] strict[OF close] strict[OF opt] strict[OF name] show ?thesis
      by (cases t) (auto simp: place_step_def sh split: if_splits option.splits)
  qed
qed


text \<open>The search for the end of the line after an error ranks below the rest.\<close>

fun skip_rank :: "(block \<times> place) list \<Rightarrow> nat" where
  "skip_rank ((b, pl) # r) = (if pl = PSkip then 0 else 1)"
| "skip_rank [] = 0"

lemma parse_step_rank:
  assumes K: "bounded_files N K" and r: "parse_step K p w = Ok (Continue, p') w'" and p: "reading p"
  shows "(rank N p' w', skip_rank (blocks p')) < (rank N p w, skip_rank (blocks p)) \<and> reading p'"
proof -
  obtain t p1 w1 where q: "peek K p w = Ok (t, p1) w1" using r by (auto simp: parse_step_def andthen_Ok_iff)
  note d = peek_rank[OF q p]
  have sh: "rank N (shift (p1\<lparr>lx := count_error (lx p1)\<rparr>)) w1 < rank N p1 w1 \<and> lx_files (count_error (lx p1)) \<noteq> []" if "t \<noteq> TEnd"
    using d(2,3) that by (auto simp: rank_def shift_def count_error_def dol_def mu_def nu_def rem_buf_def split: list.split option.split)
  have dr: "rank N (p1\<lparr>ahead := None\<rparr>) w1 < rank N p1 w1" if "t \<noteq> TEnd"
    using d(3) that by (simp add: rank_def)
  obtain b pl rs where b: "blocks p1 = (b, pl) # rs" using r q by (cases "blocks p1") (auto simp: parse_step_def)
  show ?thesis
  proof (cases "pl = PSkip")
    case True
    with r q b have "t \<noteq> TEnd" "p' = set_place PMore (shift (p1\<lparr>lx := count_error (lx p1)\<rparr>)) \<or> p' = p1\<lparr>ahead := None\<rparr>" "w' = w1"
      by (auto simp: parse_step_def split: if_splits)
    with sh dr d(1)[of N] d(2) show ?thesis by (auto simp: same_input_rank shift_def)
  next
    case False
    with r q b have "andthen (place_step K b pl t p1 w1) (\<lambda>(ok, p2).
             Ok (Continue, if ok then p2 else p2\<lparr>errflag := 3, blocks := [(BTop, PSkip)]\<rparr>)) = Ok (Continue, p') w'"
      by (simp add: parse_step_def split: if_splits)
    then obtain ok p2 where s: "place_step K b pl t p1 w1 = Ok (ok, p2) w'"
        "p' = (if ok then p2 else p2\<lparr>errflag := 3, blocks := [(BTop, PSkip)]\<rparr>)"
      unfolding andthen_Ok_iff by auto
    have e: "rank N (p2\<lparr>errflag := 3, blocks := [(BTop, PSkip)]\<rparr>) w' = rank N p2 w'" by (simp add: rank_def)
    have "skip_rank (blocks p) = 1" unfolding d(4)[symmetric] b using False by simp
    with place_step_rank[OF K s(1) d(2,3)] s(2) d(1)[of N] e show ?thesis by (auto split: if_splits)
  qed
qed

lemma yyparse_ends:
  assumes "bounded_files N K" "reading p"
  shows "\<exists>r. yyparse K p w = Some r"
  using assms(2)
proof (induction "(rank N p w, skip_rank (blocks p))" arbitrary: p w rule: less_induct)
  case less
  show ?case
  proof (cases "parse_step K p w")
    case (Ok x w1)
    obtain v p1 where x: "x = (v, p1)" by (cases x)
    show ?thesis
    proof (cases "v = Continue")
      case True
      with Ok x parse_step_rank[OF assms(1) _ less(2), of w p1 w1] less(1)[of p1 w1] Ok x True show ?thesis
        by (subst yyparse.simps) auto
    next
      case False
      with Ok x show ?thesis by (subst yyparse.simps) simp
    qed
  qed (subst yyparse.simps; simp)+
qed

lemma parse_config_ends:
  assumes "bounded_files N K"
  shows "\<exists>r. parse_config K f w = Some r"
proof -
  have "reading (start_state L)" if "pushfile K f False empty_lexer v = (Some L, v')" for L v v'
    using that by (auto simp: pushfile_def start_state_def Let_def split: prod.splits if_splits option.splits bool.splits)
  then have y: "\<exists>r. yyparse K (start_state L) v' = Some r" if "pushfile K f False empty_lexer v = (Some L, v')" for L v v'
    using yyparse_ends[OF assms] that by blast
  obtain ok w1 where a: "alloc K 24 w = (ok, w1)" by fastforce
  obtain x w2 where x: "pushfile K f False empty_lexer w1 = (x, w2)" by fastforce
  show ?thesis
  proof (cases x)
    case (Some L)
    with y x obtain r where "yyparse K (start_state L) w2 = Some r" by blast
    with a x Some show ?thesis by (auto simp: parse_config_def)
  qed (use a x in \<open>auto simp: parse_config_def\<close>)
qed

section \<open>Properties\<close>


text \<open>A file that includes another one, on a system that opens three files and no more.\<close>

definition include_kernel :: kernel where
  "include_kernel = sample_kernel\<lparr>k_file := (\<lambda>t. if length (filter is_open t) > 3 then Inl ENOENT
     else Inr ''include \"/etc/ifconfigd.conf\"\<newline>'')\<rparr>"


end
