(* ===== verification/Spec2Isabelle.thy ===== *)
theory Spec2Isabelle
  imports Parent Ctl Ifc_Properties Ifc_Display Bridge_Status Conf_Ends
begin

text \<open>
  A model of \<open>ifconfigd\<close>, a daemon that configures network interfaces by itself, of its control
  program \<open>ifconfigctl\<close>, and of the library code both run on.

  \<^bold>\<open>The program.\<close> \<open>ifconfigd/ifconfigd.c: main\<close> reads the options and the configuration, checks that
  it is root, and forks. The child, the engine (\<open>ifconfigde.c\<close>), opens the control socket
  (\<open>control.c\<close>), gives up its privileges and serves clients; the privileged parent waits for its
  messages. \<open>ifconfigctl\<close> connects to the socket and sends one request. All messages are imsgs
  (\<open>lib/libutil/imsg.c\<close>, \<open>imsg-buffer.c\<close>). A request relayed by the engine makes the parent look for
  a network (\<open>monitor\<close>): it reads link states, scans for access points, and configures interfaces
  through \<open>ifconfig_gate\<close>, which runs the commands of \<open>ifconfig\<close> (\<open>sbin/ifconfig/ifcutil.c\<close>) inside
  the daemon.

  \<^bold>\<open>The environment.\<close> \<open>Sys_World\<close> models the system the program runs on: a \<open>world\<close> is \<open>errno\<close>, the
  logging switch and the trace of everything the program did to its environment, newest first; a
  \<open>kernel\<close> is a record of functions from that trace to the answers, so the answers may depend on
  everything done before, and every theorem holds for every behaviour of the kernel its hypotheses
  allow. The result of an operation is an \<open>outcome\<close>: \<open>Ok\<close> with the value, \<open>Exit\<close> with a status
  (\<open>exit\<close>, \<open>err\<close>, \<open>fatal\<close>), or \<open>Undef\<close> where the C code has no defined behaviour; nothing is proved
  about what happens after \<open>Undef\<close>. \<open>Ioctl\<close> holds the structures passed to \<open>ioctl\<close>. Machine integers
  are words of their width; sizes are words of 64 bits where an operation can wrap.

  \<^bold>\<open>Theories, in the order of the calls.\<close>
  \<^item> \<open>Ifc_Prelude\<close>: types, little endian encodings, shared lemmas and collections.
  \<^item> \<open>Imsg_Buffer\<close> (\<open>imsg-buffer.c\<close>): \<open>ibuf\<close> and \<open>msgbuf\<close>. The queue is an instance of a locale of
    byte queues: what is drained and what is pending is what was enqueued.
  \<^item> \<open>Imsg\<close> (\<open>imsg.c\<close>): headers, read, get, compose, flush; the invariant \<open>imsgbuf_wf\<close>.
    \<open>Imsg_Stream\<close>: the abstract framing \<open>frames\<close> of a byte stream, the receive loop all dispatchers
    share (\<open>imsg_loop\<close>, with a termination proof), and its refinement; senders and receivers as
    sequences of steps. \<open>Imsg_Wire\<close>: what the kernel has accepted from a descriptor.
  \<^item> \<open>Daemon_Log\<close> (\<open>log.c\<close>), \<open>Imsgev\<close> (\<open>imsg_event_add\<close>, \<open>imsg_compose_event\<close>, message types).
  \<^item> \<open>Control\<close> (\<open>control.c\<close>) and \<open>Engine\<close> (\<open>ifconfigde.c\<close>): the connection table as an instance of a
    locale of keyed lists, the dispatch of requests, and the engine as a step relation with an
    invariant of its reachable states.
  \<^item> \<open>C_Lib\<close>, \<open>Keywords\<close>, \<open>Getopt\<close>: the routines of the C library the program calls. \<open>Keywords\<close> has a
    locale for sorted tables searched with \<open>bsearch\<close>.
  \<^item> \<open>Sha1\<close>, \<open>Pbkdf2\<close> (\<open>lib/libc/hash/sha1.c\<close>, \<open>sbin/bioctl/pbkdf2.c\<close>): the hash with its context and the
    derivation of a wireless key from a passphrase. \<open>Sha1_Correct\<close> and \<open>Pbkdf2_Correct\<close>: the definitions of
    FIPS 180-1, RFC 2104 and RFC 2898 and that the code computes them.
  \<^item> \<open>Ifc_Base\<close>, \<open>Ifc_Wireless\<close>, \<open>Ifc_Addr\<close>, \<open>Ifc_Media\<close>, \<open>Ifc_Pseudo\<close>, \<open>Ifc_Bridge\<close> (\<open>ifcutil.c\<close>, \<open>brconfig.c\<close>): the globals
    of \<open>ifconfig\<close> as the record \<open>ifc\<close>, one definition per setter. \<open>Ifc_Properties\<close> and \<open>Bridge_Properties\<close>: their
    properties. \<open>Bridge_Status\<close>: the display of a bridge.
  \<^item> \<open>Gate\<close> (\<open>ifconfig_gate\<close>): the command table and the loop over the vector. \<open>Ifc_Display\<close>: the printing of
    media words and time slots.
  \<^item> \<open>Monitor\<close>: the configuration, link state, scan, and the functions that connect and monitor.
  \<^item> \<open>Conf_Lex\<close>, \<open>Conf_Parse\<close> (\<open>parse.y\<close>): the scanner with push back, variables and included files, and
    the grammar as the machine yacc makes of it, with the structures its actions allocate in stores.
    \<open>Conf_Print\<close> and \<open>Conf_Roundtrip\<close>: configurations as files, and that the parser reads them back.
    \<open>Conf_Safety\<close>: invariants of the parser for every input. \<open>Conf_Ends\<close>: that it ends.
  \<^item> \<open>Parent\<close>: \<open>main\<close>, the signal handler, shutdown, the dispatch of messages from the engine, and the
    parent as a step relation. \<open>Ctl\<close>: \<open>ifconfigctl\<close>.
  \<^item> This theory: the properties of messages from end to end and of requests that cross the two
    processes.

  \<^bold>\<open>What is shown.\<close> Messages arrive unchanged and in order whatever the partial reads and writes; the
  receive loop refines the framing of the stream; the write queue is a queue; \<open>imsg_flush\<close>, the
  shutdown and the option loops end. The engine serves clients only without privileges, and its
  connection table keeps its invariant; requests are relayed in order, broken clients are removed.
  The gate brings interfaces up and down and sets static addresses; the scan finds the wanted access
  points; the wireless monitor connects or powers down. Numbers, masks, names and media words are
  read and sent as meant, and a printed media word selects itself. The hash is the one of the standard
  on every message however it is cut into pieces, and the key sent to a wireless interface is the one
  the standard derives from the passphrase and the name of the network. Every configuration that can be written in a file is read back from it;
  for any file whatever the parser keeps its pointers valid and ends unless files are included
  without end. \<open>main\<close> arrives at its event loop with the configuration of the file. Bridge rules that
  are printed are read back from a rule file, and the tables of the kernel are printed whole. Where
  the code does not do what it is meant to do, the theorem states
  what it does: the \<open>uselan\<close> request, the missing braces of \<open>monitor\<close>, the signal handler, the
  static configurations, the compared \<open>bssid\<close>, the globals that survive a call of the gate, the
  byte behind the buffer of \<open>get_string\<close>, the WPA options every wireless network gets, the rules too
  long for a rule file, the mode the \<open>instance\<close> command loses, the shifts of \<open>timeslot_status\<close>.

  \<^bold>\<open>Bounds and loops.\<close> Loops over data are recursive functions with termination proofs. Loops that end
  only if the environment helps (\<open>imsg_flush\<close>, the wait loop of the shutdown, the write loop of
  \<open>ifconfigctl\<close>, the parser, which a file that includes itself keeps busy) are partial functions whose value is \<open>None\<close> when they do not end, and the theorems
  about them show that they end. \<open>__monitor\<close> has no exit: one round of it is modelled. There is no
  fuel except the number of rounds of a receiver in \<open>recv_rounds\<close>, which the theorem about it
  quantifies over.

  \<^bold>\<open>Not modelled.\<close> Most functions of \<open>ifconfig\<close> that only print (\<open>in_status\<close>, \<open>carp_status\<close>,
  \<open>ieee80211_status\<close>, \<open>printif\<close> and others; the daemon calls none of them), its command line, and the code
  for IPv6, which the daemon is built without. Host and network names, \<open>getaddrinfo\<close> and
  \<open>arc4random_buf\<close> are parameters (the record \<open>netdb\<close>). Memory is not accounted for: \<open>free\<close> has no effect. The kernel,
  libevent and the rest of the operating system in \<open>usr/src\<close> are the environment.
\<close>

section \<open>Messages from end to end\<close>


text \<open>A sender whose kernel takes what it is offered, and one message.\<close>

definition eager_kernel :: kernel where
  "eager_kernel = sample_kernel\<lparr>k_send := (\<lambda>_. Inr 100)\<rparr>"

lemma write_one:
  assumes "ibuf_wf b" "ib_fd b = - 1" "length (ibuf_iov b) = 16" "mb_bufs m = [b]"
  shows "\<exists>m' w'. msgbuf_write eager_kernel m w = (0, m', w') \<and> mb_bufs m' = []"
proof -
  have "ib_wpos b \<le> ib_rpos b + 16" using assms(1,3) by (simp add: length_ibuf_iov)
  with assms show ?thesis
    by (simp add: msgbuf_write_def sendmsg_def eager_kernel_def IOV_MAX_def msgbuf_drain.simps ibuf_dequeue_def Let_def)
qed

lemma sample_sender:
  "\<exists>ib w'. sender_run eager_kernel (imsg_init eager_kernel 5) [Compose 7 0 99 [], Write] sample_world =
     ([monitor_msg], enc_msg monitor_msg, ib, w') \<and> pending (im_w ib) = []"
proof -
  let ?K = eager_kernel and ?ib = "imsg_init eager_kernel 5"
  have mem: "k_mem ?K = (\<lambda>_. True)" by (simp add: sample_kernel_def eager_kernel_def)
  obtain r ib1 w1 where c: "imsg_compose ?K ?ib 7 0 99 (- 1) [] sample_world = (r, ib1, w1)" by (metis prod_cases3)
  have r: "r = 1" using imsg_compose_succeeds[OF mem, of "[]" ?ib 7 0 99 "- 1" sample_world] c by (simp add: imsg_consts)
  from imsg_compose_spec[OF _ c] r obtain b where b: "ib1 = ?ib\<lparr>im_w := ibuf_enqueue (im_w ?ib) b\<rparr>" "ibuf_wf b" "ib_fd b = - 1"
    "ibuf_iov b = enc_hdr (the_hdr ?ib 7 0 99 (- 1) 0)" by auto
  have h: "the_hdr ?ib 7 0 99 (- 1) 0 = fst monitor_msg"
    by (simp add: the_hdr_def monitor_msg_def imsg_consts)
  have q: "mb_bufs (im_w ib1) = [b]" using b(1) by (simp add: imsg_init_def msgbuf_init_def ibuf_enqueue_def)
  obtain m' w2 where wr: "msgbuf_write ?K (im_w ib1) w1 = (0, m', w2)" "mb_bufs m' = []"
    using write_one[OF b(2,3) _ q, of w1] b(4) by auto
  have "pending (im_w ib1) = enc_msg monitor_msg" "pending m' = []"
    using q b(4) h wr(2) by (simp_all add: pending_def enc_msg_def monitor_msg_def)
  with c r wr(1) h show ?thesis by (simp add: monitor_msg_def)
qed

lemma sample_receiver:
  "\<exists>got jb v'. recv_rounds (wire_kernel (enc_msg monitor_msg)) 1 (imsg_init (wire_kernel (enc_msg monitor_msg)) 5) [] [] sample_world =
     Some (got, enc_msg monitor_msg, jb, v')"
proof -
  let ?K = "wire_kernel (enc_msg monitor_msg)"
  obtain ib w1 where rd: "imsg_read ?K (imsg_init ?K 5) sample_world = (16, ib, w1)" "r_buf (im_r ib) = enc_msg monitor_msg"
    using monitor_msg_read by blast
  have wf: "imsgbuf_wf ib" using imsg_read_spec[OF imsg_init_wf rd(1)] by blast
  have mem: "k_mem ?K = (\<lambda>_. True)" by (simp add: wire_kernel_def sample_kernel_def)
  from coll.loop_acts[OF mem wf _ monitor_msg_frames[folded rd(2)], of "[]" w1] obtain ib' ms w' where
    "imsg_loop ?K collect ib [] w1 = Ok (0, ib', ms) w'" by auto
  with rd show ?thesis by (simp add: imsg_init_def)
qed


text \<open>
  (C2) The receive loop implements the framing of the stream: with memory at hand it returns after
  handing on exactly the messages \<open>frames\<close> finds in the buffer, in order, reports an error exactly
  when the stream is malformed there, and leaves the rest of the stream in the buffer.
\<close>

theorem receive_loop_refines_frames:
  assumes "k_mem K = (\<lambda>_. True)" "imsgbuf_wf ib" "frames (r_buf (im_r ib)) = (ms, rest, bad)"
  shows "\<exists>ib' got w'. imsg_loop K collect ib [] w = Ok (if bad then - 1 else 0, ib', got) w' \<and>
     map payload got = ms \<and> r_buf (im_r ib') = rest \<and> imsgbuf_wf ib'"
proof -
  have "fold (\<lambda>m s. s @ [m]) ms [] = ms" using fold_append_concat[of "\<lambda>m. [m]" ms "[]"] by simp
  with coll.loop_acts[OF assms(1,2) _ assms(3), of "[]" w] show ?thesis by auto
qed

lemma monitor_buffer:
  "\<exists>ib. imsgbuf_wf ib \<and> r_buf (im_r ib) = enc_msg monitor_msg"
  using monitor_msg_read imsg_read_spec[OF imsg_init_wf] by blast

theorem receive_loop_refines_frames_witness:
  "\<exists>ib ib' got w'. imsg_loop sample_kernel collect ib [] sample_world = Ok (if False then - 1 else 0, ib', got) w' \<and>
     map payload got = [monitor_msg] \<and> r_buf (im_r ib') = [] \<and> imsgbuf_wf ib'"
proof -
  obtain ib where ib: "imsgbuf_wf ib" "r_buf (im_r ib) = enc_msg monitor_msg" using monitor_buffer by blast
  have mem: "k_mem sample_kernel = (\<lambda>_. True)" by (simp add: sample_kernel_def)
  from receive_loop_refines_frames[OF mem ib(1) monitor_msg_frames[folded ib(2)], of sample_world]
  show ?thesis by (rule exI[of _ ib])
qed

text \<open>
  (C30) The read buffer never fills up: after a run of the receive loop that reported no error, less
  than one maximal message (16384 bytes) is left of its 65535 bytes, so the next read asks for at
  least one byte, and a result of 0 means the end of the stream.
\<close>

theorem read_buffer_never_full:
  assumes "imsgbuf_wf ib" "imsg_loop K collect ib ms w = Ok (0, ib', ms') w'"
  shows "length (r_buf (im_r ib')) < MAX_IMSGSIZE \<and> IBUF_READ_SIZE - r_wpos (im_r ib') > 0"
proof -
  from imsg_loop_collect[OF assms(1), of K ms w] assms(2) obtain ms1 where
    wf: "imsgbuf_wf ib'" and fr: "frames (r_buf (im_r ib)) = (map payload ms1, r_buf (im_r ib'), False)" by auto
  from frames_rest_small[OF fr] wf show ?thesis by (simp add: imsgbuf_wf_def imsg_consts)
qed

theorem read_buffer_never_full_witness:
  "\<exists>ib ib' ms' w'. imsg_loop sample_kernel collect ib [] sample_world = Ok (0, ib', ms') w' \<and>
     length (r_buf (im_r ib')) < MAX_IMSGSIZE \<and> IBUF_READ_SIZE - r_wpos (im_r ib') > 0"
proof -
  obtain ib where ib: "imsgbuf_wf ib" "r_buf (im_r ib) = enc_msg monitor_msg" using monitor_buffer by blast
  have mem: "k_mem sample_kernel = (\<lambda>_. True)" by (simp add: sample_kernel_def)
  from coll.loop_acts[OF mem ib(1) _ monitor_msg_frames[folded ib(2)], of "[]" sample_world] obtain ib' ms' w' where
    lp: "imsg_loop sample_kernel collect ib [] sample_world = Ok (0, ib', ms') w'" by auto
  from read_buffer_never_full[OF ib(1) lp] lp show ?thesis by blast
qed

text \<open>
  (C29) \<open>imsg_compose\<close> accepts exactly the payloads that fit a message: with memory at hand it
  returns 1 and queues one message if header and payload have at most 16384 bytes, and returns -1
  with the queue unchanged otherwise.
\<close>

theorem imsg_compose_bounds:
  assumes mem: "k_mem K = (\<lambda>_. True)" and len: "length d < 2 ^ 16"
    and c: "imsg_compose K ib ty pe pid (- 1) d w = (r, ib', w')"
  shows "if 16 + length d \<le> 16384 then r = 1 \<and> pending (im_w ib') = pending (im_w ib) @ enc_msg (the_hdr ib ty pe pid (- 1) (length d), d)
     else r = - 1 \<and> ib' = ib"
proof (cases "16 + length d \<le> 16384")
  case True
  then have "r = 1" using imsg_compose_succeeds[OF mem, of d ib ty pe pid "- 1" w] c by (simp add: imsg_consts)
  with imsg_compose_spec[OF len c] True show ?thesis by (auto simp: pending_ibuf_enqueue enc_msg_def)
next
  case False
  with imsg_compose_spec[OF len c] show ?thesis by (auto simp: imsg_consts)
qed

theorem imsg_compose_bounds_witness:
  "\<exists>r ib' w'. imsg_compose sample_kernel (imsg_init sample_kernel 5) 7 0 0 (- 1) (replicate 16368 0) sample_world = (r, ib', w') \<and>
    (if 16 + length (replicate 16368 (0 :: byte)) \<le> 16384 then r = 1 \<and>
      pending (im_w ib') = pending (im_w (imsg_init sample_kernel 5)) @
        enc_msg (the_hdr (imsg_init sample_kernel 5) 7 0 0 (- 1) (length (replicate 16368 (0 :: byte))), replicate 16368 0)
     else r = - 1 \<and> ib' = imsg_init sample_kernel 5)"
proof -
  obtain r ib' w' where c: "imsg_compose sample_kernel (imsg_init sample_kernel 5) 7 0 0 (- 1) (replicate 16368 0) sample_world = (r, ib', w')"
    by (metis prod_cases3)
  have mem: "k_mem sample_kernel = (\<lambda>_. True)" by (simp add: sample_kernel_def)
  have len: "length (replicate 16368 (0 :: byte)) < 2 ^ 16" unfolding length_replicate by simp
  from imsg_compose_bounds[OF mem len c] c show ?thesis by blast
qed

text \<open>
  (C17) \<open>imsg_flush\<close> ends when the kernel always accepts at least one byte, and then the queue is
  empty and the kernel has accepted exactly the bytes that were queued, in order.
\<close>

theorem imsg_flush_delivers:
  assumes wf: "imsgbuf_wf ib" "length (mb_bufs (im_w ib)) < 2 ^ 32" and send: "\<forall>t. \<exists>n>0. k_send K t = Inr n"
  shows "\<exists>ib' w'. imsg_flush K ib w = Some (0, ib', w') \<and> mb_bufs (im_w ib') = [] \<and>
     sent K (mb_fd (im_w ib)) (trace w') = sent K (mb_fd (im_w ib)) (trace w) @ pending (im_w ib)"
  using imsg_flush_sent[OF wf _ refl, of K w] send by blast

theorem imsg_flush_delivers_witness:
  "\<exists>ib' w'. imsg_flush eager_kernel (imsg_init eager_kernel 5) sample_world = Some (0, ib', w') \<and> mb_bufs (im_w ib') = [] \<and>
     sent eager_kernel (mb_fd (im_w (imsg_init eager_kernel 5))) (trace w') =
       sent eager_kernel (mb_fd (im_w (imsg_init eager_kernel 5))) (trace sample_world) @ pending (im_w (imsg_init eager_kernel 5))"
  by (rule imsg_flush_delivers) (auto simp: imsg_init_wf eager_kernel_def, simp add: imsg_init_def msgbuf_init_def)


definition sample_ibuf :: "byte list \<Rightarrow> ibuf" where
  "sample_ibuf d = \<lparr>ib_buf = d, ib_size = length d, ib_max = length d, ib_wpos = length d, ib_rpos = 0, ib_fd = - 1\<rparr>"


section \<open>Requests from the control program to the daemon\<close>

text \<open>What the engine does with a client that has sent one message of the control program.\<close>

lemma ctl_msg_ok: "msg_ok (the_hdr ib ty 0 0 (- 1) 64, name_buf n)" "msg_ok (the_hdr ib ty 0 0 (- 1) 0, [])"
  using msg_ok_the_hdr[of "name_buf n" ib ty 0 0 "- 1"] msg_ok_the_hdr[of "[]" ib ty 0 0 "- 1"] by (simp_all add: imsg_consts)

lemma imsg_type_of_codes: "imsg_type_of 1 = Some IMSG_USE_ETHERNET" "imsg_type_of 7 = Some IMSG_IFCONFIGD_MONITOR"
  by (simp_all add: imsg_type_of_def)

lemma relay_ctl:
  "relay_of (the_hdr ib 1 0 0 (- 1) 64, name_buf n) = Some (take 8 (name_buf n))"
  "relay_of (the_hdr ib 7 0 0 (- 1) 0, []) = Some []"
  by (simp_all add: relay_of_def the_hdr_def imsg_type_of_codes imsg_consts MAX_NETWORK_NAME_SIZE_def ptrsize_def)

lemma relay_hdr_ok: "length d \<le> 64 \<Longrightarrow> msg_ok (relay_hdr pid ty (length d), d)"
  by (simp add: msg_ok_def relay_hdr_def imsg_consts unat_of_nat take_bit_nat_eq_self unat_word_ariths)

lemma relayed_frames:
  assumes "relay_of m = Some d" "length d \<le> 64"
  shows "frames (relay_bytes pid m) = ([(relay_hdr pid (hdr_type (fst m)) (length d), d)], [], False)"
  using frames_enc[of "[(relay_hdr pid (hdr_type (fst m)) (length d), d)]" "[]"] relay_hdr_ok[OF assms(2)] assms(1)
  by (simp add: relay_bytes_def)

text \<open>
  (C8) \<open>ifconfigctl uselan N\<close> cannot work, for any name: when the engine reads the message the
  control program sends, it queues exactly one message for the parent, which carries only the first
  eight bytes of the name; and on that message the parent's handler copies 64 bytes out of eight,
  which is undefined.
\<close>

theorem uselan_is_undefined:
  assumes mem: "k_mem K = (\<lambda>_. True)" and c: "control_connbyfd fd (ctl_conns st) = Some c"
    and wf: "imsgbuf_wf (iev_ibuf (cc_iev c))" "relay_inv pid (iev_parent st)" "queued_bytes (iev_parent st) = []"
    and rd: "imsg_read K (iev_ibuf (cc_iev c)) w = (n, ib1, w1)" "n > 0"
    and msg: "r_buf (im_r ib1) = enc_msg (the_hdr (imsg_init KC cfd) 1 0 0 (- 1) 64, name_buf nm)"
  shows "\<exists>st' w' h. control_dispatch_imsg K fd EV_READ st w = Ok st' w' \<and>
     frames (queued_bytes (iev_parent st')) = ([(h, take 8 (name_buf nm))], [], False) \<and>
     (\<forall>m g v. payload m = (h, take 8 (name_buf nm)) \<longrightarrow>
        main_handle_imsg KP N conf m g v = Undef ''main_dispatch_ifconfigde: memcpy'' v)"
proof -
  let ?m = "(the_hdr (imsg_init KC cfd) 1 0 0 (- 1) 64, name_buf nm)"
  have fr: "frames (r_buf (im_r ib1)) = ([?m], [], False)"
    using frames_enc[of "[?m]" "[]"] ctl_msg_ok(1)[of "imsg_init KC cfd" 1 nm] msg by simp
  have ev: "EV_READ AND EV_READ \<noteq> 0" "EV_READ AND EV_WRITE = 0" by (simp_all add: ev_consts)
  obtain st' w' where st': "control_dispatch_imsg K fd EV_READ st w = Ok st' w'"
    "queued_bytes (iev_parent st') = relay_bytes pid ?m"
    using dispatch_relays[OF mem c ev wf(1,2) rd(1) _ _ fr] rd(2) wf(3) by auto
  have len: "length (take 8 (name_buf nm)) \<le> 64" by simp
  let ?h = "relay_hdr pid (hdr_type (fst ?m)) (length (take 8 (name_buf nm)))"
  have ty: "hdr_type ?h = 1" by (simp add: relay_hdr_def the_hdr_def)
  have "main_handle_imsg KP N conf m g v = Undef ''main_dispatch_ifconfigde: memcpy'' v"
    if "payload m = (?h, take 8 (name_buf nm))" for m g v
  proof -
    have "msg_hdr m = ?h" "length (msg_data m) = 8" using that by (simp_all add: payload_def)
    then show ?thesis using ty by (simp add: main_handle_imsg_def imsg_type_of_codes MAX_NETWORK_NAME_SIZE_def)
  qed
  with st' relayed_frames[OF relay_ctl(1) len, of pid] show ?thesis by (intro exI[of _ st'] exI[of _ w'] exI[of _ ?h]) simp
qed

definition uselan_bytes :: "byte list" where
  "uselan_bytes = enc_msg (the_hdr (imsg_init sample_kernel 3) 1 0 0 (- 1) 64, name_buf ''home'')"

lemma wire_read:
  assumes "bs \<noteq> []" "length bs \<le> 100"
  shows "\<exists>n ib w'. imsg_read (wire_kernel bs) (iev_ibuf (cc_iev (hd (ctl_conns (sample_engine (wire_kernel bs)))))) sample_world = (n, ib, w') \<and>
     n > 0 \<and> r_buf (im_r ib) = bs"
  using read_fresh[of "wire_kernel bs" bs 5 sample_world] assms
  by (auto simp: sample_engine_simps imsg_consts wire_kernel_def)

theorem uselan_is_undefined_witness:
  "\<exists>st' w' h. control_dispatch_imsg (wire_kernel uselan_bytes) 5 EV_READ (sample_engine (wire_kernel uselan_bytes)) sample_world = Ok st' w' \<and>
     frames (queued_bytes (iev_parent st')) = ([(h, take 8 (name_buf ''home''))], [], False) \<and>
     (\<forall>m g v. payload m = (h, take 8 (name_buf ''home'')) \<longrightarrow>
        main_handle_imsg sample_kernel sample_netdb (sample_conf ''wir3'' None) m g v =
          Undef ''main_dispatch_ifconfigde: memcpy'' v)"
proof -
  have "uselan_bytes \<noteq> []" "length uselan_bytes \<le> 100" by (simp_all add: uselan_bytes_def enc_msg_def enc_hdr_not_Nil)
  from wire_read[OF this] obtain n ib w' where
    rd: "imsg_read (wire_kernel uselan_bytes) (iev_ibuf (cc_iev (hd (ctl_conns (sample_engine (wire_kernel uselan_bytes)))))) sample_world = (n, ib, w')"
    "n > 0" "r_buf (im_r ib) = uselan_bytes" by blast
  have mem: "k_mem (wire_kernel uselan_bytes) = (\<lambda>_. True)" by (simp add: wire_kernel_def sample_kernel_def)
  show ?thesis
    by (rule uselan_is_undefined[OF mem sample_engine_simps(3) sample_engine_simps(1,2,5) rd(1,2) rd(3)[unfolded uselan_bytes_def]])
qed

text \<open>
  (C4) \<open>ifconfigctl monitor\<close> works end to end: the engine queues exactly one message for the parent
  when it reads the request, and the parent's handler runs \<open>monitor\<close> on it.
\<close>

theorem monitor_request_reaches_parent:
  assumes mem: "k_mem K = (\<lambda>_. True)" and c: "control_connbyfd fd (ctl_conns st) = Some c"
    and wf: "imsgbuf_wf (iev_ibuf (cc_iev c))" "relay_inv pid (iev_parent st)" "queued_bytes (iev_parent st) = []"
    and rd: "imsg_read K (iev_ibuf (cc_iev c)) w = (n, ib1, w1)" "n > 0"
    and msg: "r_buf (im_r ib1) = enc_msg (the_hdr (imsg_init KC cfd) 7 0 0 (- 1) 0, [])"
  shows "\<exists>st' w' h. control_dispatch_imsg K fd EV_READ st w = Ok st' w' \<and>
     frames (queued_bytes (iev_parent st')) = ([(h, [])], [], False) \<and>
     (\<forall>m g v. payload m = (h, []) \<longrightarrow>
        main_handle_imsg KP N conf m g v = andthen (monitor KP N conf g v) (\<lambda>(_, g1). Ok g1))"
proof -
  let ?m = "(the_hdr (imsg_init KC cfd) 7 0 0 (- 1) 0, [] :: byte list)"
  have fr: "frames (r_buf (im_r ib1)) = ([?m], [], False)"
    using frames_enc[of "[?m]" "[]"] ctl_msg_ok(2)[of "imsg_init KC cfd" 7] msg by simp
  have ev: "EV_READ AND EV_READ \<noteq> 0" "EV_READ AND EV_WRITE = 0" by (simp_all add: ev_consts)
  obtain st' w' where st': "control_dispatch_imsg K fd EV_READ st w = Ok st' w'"
    "queued_bytes (iev_parent st') = relay_bytes pid ?m"
    using dispatch_relays[OF mem c ev wf(1,2) rd(1) _ _ fr] rd(2) wf(3) by auto
  let ?h = "relay_hdr pid (hdr_type (fst ?m)) 0"
  have ty: "hdr_type ?h = 7" by (simp add: relay_hdr_def the_hdr_def)
  have "main_handle_imsg KP N conf m g v = andthen (monitor KP N conf g v) (\<lambda>(_, g1). Ok g1)"
    if "payload m = (?h, [])" for m g v
  proof -
    have "msg_hdr m = ?h" using that by (simp add: payload_def)
    then show ?thesis using ty by (simp add: main_handle_imsg_def imsg_type_of_codes)
  qed
  with st' relayed_frames[OF relay_ctl(2), of pid] show ?thesis by (intro exI[of _ st'] exI[of _ w'] exI[of _ ?h]) simp
qed

definition monitor_bytes :: "byte list" where
  "monitor_bytes = enc_msg (the_hdr (imsg_init sample_kernel 3) 7 0 0 (- 1) 0, [])"

theorem monitor_request_reaches_parent_witness:
  "\<exists>st' w' h. control_dispatch_imsg (wire_kernel monitor_bytes) 5 EV_READ (sample_engine (wire_kernel monitor_bytes)) sample_world = Ok st' w' \<and>
     frames (queued_bytes (iev_parent st')) = ([(h, [])], [], False) \<and>
     (\<forall>m g v. payload m = (h, []) \<longrightarrow>
        main_handle_imsg sample_kernel sample_netdb (sample_conf ''wir3'' None) m g v =
          andthen (monitor sample_kernel sample_netdb (sample_conf ''wir3'' None) g v) (\<lambda>(_, g1). Ok g1))"
proof -
  have "monitor_bytes \<noteq> []" "length monitor_bytes \<le> 100" by (simp_all add: monitor_bytes_def enc_msg_def enc_hdr_not_Nil)
  from wire_read[OF this] obtain n ib w' where
    rd: "imsg_read (wire_kernel monitor_bytes) (iev_ibuf (cc_iev (hd (ctl_conns (sample_engine (wire_kernel monitor_bytes)))))) sample_world = (n, ib, w')"
    "n > 0" "r_buf (im_r ib) = monitor_bytes" by blast
  have mem: "k_mem (wire_kernel monitor_bytes) = (\<lambda>_. True)" by (simp add: wire_kernel_def sample_kernel_def)
  show ?thesis
    by (rule monitor_request_reaches_parent[OF mem sample_engine_simps(3) sample_engine_simps(1,2,5) rd(1,2)
          rd(3)[unfolded monitor_bytes_def]])
qed

end
